(* ===== verification/Spider_Prelude.thy ===== *)
theory Spider_Prelude
  imports Complex_Main "HOL-Library.Sublist"
begin

text \<open>
  Shared vocabulary of the development.

  \<^item> The fact collections \<open>run_simps\<close> (how a program evaluates on a world) and
    \<open>frame_simps\<close> (what an operation leaves unchanged); every component adds the
    characteristic equations of its operations to them.
  \<^item> Programs with effects and exceptions: a Python function that performs I/O and may
    raise is a function from the world to a result and the world after it,
    \<open>'w \<Rightarrow> ('e + 'a) \<times> 'w\<close>. \<open>Inl e\<close> is a raised exception \<open>e\<close>; the world is
    returned in both cases, because what a function did before it raised stays done.
    \<open>bind\<close> is Python's statement sequencing: the second statement runs only when
    the first did not raise.
  \<^item> \<open>collect\<close>: a pure loop over a list that stops at the first error.
  \<^item> \<open>first_by key xs\<close>: the elements of \<open>xs\<close> that are the first with their key,
    in their order; the reference for duplicate removal, with its lemmas (distinct
    keys, subsequence, same keys, idempotence, first occurrence kept).
\<close>

section \<open>Fact collections\<close>

named_theorems run_simps "evaluation of programs on a world"
named_theorems frame_simps "parts of the world an operation leaves unchanged"

section \<open>Programs: state passing with exceptions\<close>

type_synonym ('e, 'w, 'a) prog = "'w \<Rightarrow> ('e + 'a) \<times> 'w"

definition ret :: "'a \<Rightarrow> ('e, 'w, 'a) prog" where
  "ret x = (\<lambda>w. (Inr x, w))"

definition throw :: "'e \<Rightarrow> ('e, 'w, 'a) prog" where
  "throw e = (\<lambda>w. (Inl e, w))"

definition lift :: "'e + 'a \<Rightarrow> ('e, 'w, 'a) prog" where
  "lift r = (\<lambda>w. (r, w))"

definition bind :: "('e, 'w, 'a) prog \<Rightarrow> ('a \<Rightarrow> ('e, 'w, 'b) prog) \<Rightarrow> ('e, 'w, 'b) prog" where
  "bind m f = (\<lambda>w. case m w of (Inl e, w') \<Rightarrow> (Inl e, w') | (Inr x, w') \<Rightarrow> f x w')"

definition outcome :: "('e, 'w, 'a) prog \<Rightarrow> 'w \<Rightarrow> 'e + 'a" where
  "outcome m w = fst (m w)"

definition world_after :: "('e, 'w, 'a) prog \<Rightarrow> 'w \<Rightarrow> 'w" where
  "world_after m w = snd (m w)"

definition raises :: "('e, 'w, 'a) prog \<Rightarrow> 'w \<Rightarrow> bool" where
  "raises m w = (case m w of (Inl e, w') \<Rightarrow> True | (Inr x, w') \<Rightarrow> False)"

subsection \<open>Evaluation rules\<close>

lemma ret_apply [run_simps, simp]: "ret x w = (Inr x, w)"
  by (simp add: ret_def)

lemma throw_apply [run_simps, simp]: "throw e w = (Inl e, w)"
  by (simp add: throw_def)

lemma lift_apply [run_simps, simp]: "lift r w = (r, w)"
  by (simp add: lift_def)

lemma bind_apply [run_simps]:
  "bind m f w = (case m w of (Inl e, w') \<Rightarrow> (Inl e, w') | (Inr x, w') \<Rightarrow> f x w')"
  by (simp add: bind_def)

lemma bind_Inl [simp]: "m w = (Inl e, w') \<Longrightarrow> bind m f w = (Inl e, w')"
  by (simp add: bind_def)

lemma bind_Inr [simp]: "m w = (Inr x, w') \<Longrightarrow> bind m f w = f x w'"
  by (simp add: bind_def)

lemma prog_cases [case_names Raise Return]:
  obtains e w' where "m w = (Inl e, w')" | x w' where "m w = (Inr x, w')"
  by (cases "m w"; cases "fst (m w)") auto

lemma outcome_eq: "m w = (r, w') \<Longrightarrow> outcome m w = r"
  by (simp add: outcome_def)

lemma world_after_eq: "m w = (r, w') \<Longrightarrow> world_after m w = w'"
  by (simp add: world_after_def)

lemma prog_eq: "m w = (outcome m w, world_after m w)"
  by (simp add: outcome_def world_after_def)

lemma raises_Inl [simp]: "m w = (Inl e, w') \<Longrightarrow> raises m w"
  by (simp add: raises_def)

lemma raises_Inr [simp]: "m w = (Inr x, w') \<Longrightarrow> \<not> raises m w"
  by (simp add: raises_def)

lemma raises_iff: "raises m w \<longleftrightarrow> (\<exists>e. outcome m w = Inl e)"
  by (cases m w rule: prog_cases) (auto simp: outcome_def)

subsection \<open>Monad laws and the congruence rule for recursive definitions\<close>

lemma bind_ret_left [simp]: "bind (ret x) f = f x"
  by (rule ext) (simp add: bind_def)

lemma bind_ret_right [simp]: "bind m ret = m"
  by (rule ext) (simp add: bind_def split: prod.splits sum.splits)

lemma bind_throw [simp]: "bind (throw e) f = throw e"
  by (rule ext) (simp add: bind_def)

lemma bind_assoc: "bind (bind m f) g = bind m (\<lambda>x. bind (f x) g)"
  by (rule ext) (simp add: bind_def split: prod.splits sum.splits)

lemma bind_lift_Inl [simp]: "bind (lift (Inl e)) f = throw e"
  by (rule ext) (simp add: bind_def)

lemma bind_lift_Inr [simp]: "bind (lift (Inr x)) f = f x"
  by (rule ext) (simp add: bind_def)

lemma bind_lift_ret:
  "bind (lift r) (\<lambda>x. ret (g x)) = lift (case r of Inl e \<Rightarrow> Inl e | Inr x \<Rightarrow> Inr (g x))"
  by (cases r) (simp_all add: fun_eq_iff)

lemma bind_lift_lift:
  "bind (lift r) (\<lambda>x. lift (g x)) = lift (case r of Inl e \<Rightarrow> Inl e | Inr x \<Rightarrow> g x)"
  by (cases r) (simp_all add: fun_eq_iff)

lemma bind_cong [fundef_cong]:
  assumes "m = m'" and "\<And>x. f x = g x"
  shows "bind m f = bind m' g"
proof -
  from assms(2) have "f = g" by (rule ext)
  with assms(1) show ?thesis by simp
qed

lemma raises_bind:
  "raises (bind m f) w \<longleftrightarrow> raises m w \<or> (\<exists>x w'. m w = (Inr x, w') \<and> raises (f x) w')"
  by (cases m w rule: prog_cases) (auto simp: raises_def bind_def)

section \<open>Pure loops that stop at the first error\<close>

fun collect :: "('a \<Rightarrow> 'e + 'b) \<Rightarrow> 'a list \<Rightarrow> 'e + 'b list" where
  "collect f [] = Inr []"
| "collect f (x # xs) =
     (case f x of Inl e \<Rightarrow> Inl e
      | Inr y \<Rightarrow> (case collect f xs of Inl e \<Rightarrow> Inl e | Inr ys \<Rightarrow> Inr (y # ys)))"

lemma collect_length: "collect f xs = Inr ys \<Longrightarrow> length ys = length xs"
  by (induction xs arbitrary: ys) (auto split: sum.splits)

lemma collect_Inr_iff:
  "collect f xs = Inr ys \<longleftrightarrow> map f xs = map Inr ys"
proof (induction xs arbitrary: ys)
  case Nil
  show ?case by auto
next
  case (Cons a xs)
  show ?case
    by (cases ys; cases "f a") (auto simp: Cons.IH [symmetric] split: sum.splits)
qed

lemma collect_ok_iff:
  "(\<exists>ys. collect f xs = Inr ys) \<longleftrightarrow> (\<forall>x \<in> set xs. \<exists>y. f x = Inr y)"
proof (induction xs)
  case Nil
  show ?case by simp
next
  case (Cons a xs)
  show ?case
  proof (cases "f a")
    case (Inl e)
    then show ?thesis by auto
  next
    case (Inr b)
    with Cons.IH show ?thesis by (cases "collect f xs") auto
  qed
qed

lemma collect_all_Inr: "collect (\<lambda>x. Inr (g x)) xs = Inr (map g xs)"
  by (induction xs) auto

lemma collect_Inl_I:
  "f x = Inl e \<Longrightarrow> collect f ys = Inr bs \<Longrightarrow> collect f (ys @ x # zs) = Inl e"
  by (induction ys arbitrary: bs) (auto split: sum.splits)

lemma collect_Inl_D:
  "collect f xs = Inl e \<Longrightarrow>
     \<exists>ys x zs bs. xs = ys @ x # zs \<and> f x = Inl e \<and> collect f ys = Inr bs"
proof (induction xs)
  case Nil
  then show ?case by simp
next
  case (Cons a xs)
  show ?case
  proof (cases "f a")
    case (Inl e')
    with Cons.prems have "a # xs = [] @ a # xs \<and> f a = Inl e \<and> collect f [] = Inr []"
      by simp
    then show ?thesis by blast
  next
    case (Inr b)
    with Cons.prems have "collect f xs = Inl e"
      by (simp split: sum.splits)
    then obtain ys x zs bs where "xs = ys @ x # zs" "f x = Inl e" "collect f ys = Inr bs"
      using Cons.IH by blast
    with Inr have "a # xs = (a # ys) @ x # zs \<and> f x = Inl e \<and> collect f (a # ys) = Inr (b # bs)"
      by simp
    then show ?thesis by blast
  qed
qed

lemma collect_append:
  "collect f (xs @ ys) =
     (case collect f xs of
        Inl e \<Rightarrow> Inl e
      | Inr as \<Rightarrow> (case collect f ys of Inl e \<Rightarrow> Inl e | Inr bs \<Rightarrow> Inr (as @ bs)))"
  by (induction xs) (auto split: sum.splits)

lemma collect_map: "collect f (map g xs) = collect (\<lambda>x. f (g x)) xs"
  by (induction xs) (auto split: sum.splits)

lemma collect_Inl_cong:
  "(\<And>x. x \<in> set xs \<Longrightarrow> (f x = Inl e) = (g x = Inl e) \<and> isl (f x) = isl (g x)) \<Longrightarrow>
     collect f xs = Inl e \<longleftrightarrow> collect g xs = Inl e"
proof (induction xs)
  case Nil
  show ?case by simp
next
  case (Cons a xs)
  from Cons.prems [of a] Cons.IH Cons.prems show ?case
    by (cases "f a"; cases "g a") (auto split: sum.splits)
qed

lemma collect_isl_cong:
  "(\<And>x. x \<in> set xs \<Longrightarrow> isl (f x) = isl (g x)) \<Longrightarrow> isl (collect f xs) = isl (collect g xs)"
proof (induction xs)
  case Nil
  show ?case by simp
next
  case (Cons a xs)
  from Cons.prems [of a] Cons.IH Cons.prems show ?case
    by (cases "f a"; cases "g a") (auto split: sum.splits)
qed

section \<open>Lists\<close>

lemma length_filter_append_one [simp]:
  "length (filter P (xs @ [x])) = length (filter P xs) + (if P x then 1 else 0)"
  by simp

lemma concat_snoc [simp]: "concat (xss @ [xs]) = concat xss @ xs"
  by simp

lemma filter_key_notin_insert:
  "filter (\<lambda>y. f y \<notin> insert k S) xs = filter (\<lambda>y. f y \<noteq> k) (filter (\<lambda>y. f y \<notin> S) xs)"
  by (induction xs) auto

section \<open>First occurrences by key\<close>

lemma map_of_rev_distinct: "distinct (map fst xs) \<Longrightarrow> map_of (rev xs) = map_of xs"
  by (induction xs)
    (auto 4 4 simp add: map_add_def intro!: ext split: option.split intro: rev_image_eqI)

fun first_by :: "('a \<Rightarrow> 'k) \<Rightarrow> 'a list \<Rightarrow> 'a list" where
  "first_by key [] = []"
| "first_by key (x # xs) = x # first_by key (filter (\<lambda>y. key y \<noteq> key x) xs)"

lemma first_by_filter:
  "first_by key (filter (\<lambda>y. P (key y)) xs) = filter (\<lambda>y. P (key y)) (first_by key xs)"
proof (induction key xs rule: first_by.induct)
  case (1 key)
  show ?case by simp
next
  case (2 key x xs)
  have swap: "filter (\<lambda>y. key y \<noteq> key x) (filter (\<lambda>y. P (key y)) xs) =
      filter (\<lambda>y. P (key y)) (filter (\<lambda>y. key y \<noteq> key x) xs)"
    by (simp add: conj_commute)
  show ?case
  proof (cases "P (key x)")
    case True
    with "2.IH" swap show ?thesis by simp
  next
    case False
    then have "filter (\<lambda>y. P (key y)) (filter (\<lambda>y. key y \<noteq> key x) xs) =
        filter (\<lambda>y. P (key y)) xs"
      by (auto intro: filter_cong)
    with "2.IH" False show ?thesis by simp
  qed
qed

lemma set_first_by_subset: "set (first_by key xs) \<subseteq> set xs"
  by (induction key xs rule: first_by.induct) auto

lemma keys_first_by: "key ` set (first_by key xs) = key ` set xs"
proof (induction key xs rule: first_by.induct)
  case (1 key)
  show ?case by simp
next
  case (2 key x xs)
  have "key ` set (x # xs) = insert (key x) (key ` set (filter (\<lambda>y. key y \<noteq> key x) xs))"
    by auto
  with "2.IH" show ?case by simp
qed

lemma distinct_first_by: "distinct (map key (first_by key xs))"
proof (induction key xs rule: first_by.induct)
  case (1 key)
  show ?case by simp
next
  case (2 key x xs)
  have "key x \<notin> key ` set (filter (\<lambda>y. key y \<noteq> key x) xs)" by auto
  then have "key x \<notin> key ` set (first_by key (filter (\<lambda>y. key y \<noteq> key x) xs))"
    by (simp add: keys_first_by)
  with "2.IH" show ?case by simp
qed

lemma subseq_first_by: "subseq (first_by key xs) xs"
proof (induction key xs rule: first_by.induct)
  case (1 key)
  show ?case by simp
next
  case (2 key x xs)
  have "subseq (filter (\<lambda>y. key y \<noteq> key x) xs) xs" by simp
  with "2.IH" have "subseq (first_by key (filter (\<lambda>y. key y \<noteq> key x) xs)) xs"
    by (rule subseq_order.trans)
  then show ?case by simp
qed

lemma first_by_distinct: "distinct (map key xs) \<Longrightarrow> first_by key xs = xs"
proof (induction xs)
  case Nil
  show ?case by simp
next
  case (Cons x xs)
  from Cons.prems have "\<And>y. y \<in> set xs \<Longrightarrow> key y \<noteq> key x"
    by (metis distinct.simps(2) image_eqI list.simps(9) set_map)
  then have "filter (\<lambda>y. key y \<noteq> key x) xs = xs"
    by (simp add: filter_id_conv)
  with Cons show ?case by simp
qed

lemma first_by_idem [simp]: "first_by key (first_by key xs) = first_by key xs"
  by (rule first_by_distinct) (rule distinct_first_by)

lemma first_by_eq_iff: "first_by key xs = xs \<longleftrightarrow> distinct (map key xs)"
  using distinct_first_by [of key xs] first_by_distinct [of key xs] by auto

lemma find_first_by:
  "List.find (\<lambda>y. key y = k) (first_by key xs) = List.find (\<lambda>y. key y = k) xs"
proof (induction key xs rule: first_by.induct)
  case (1 key)
  show ?case by simp
next
  case (2 key x xs)
  show ?case
  proof (cases "key x = k")
    case True
    then show ?thesis by simp
  next
    case False
    have "List.find (\<lambda>y. key y = k) (filter (\<lambda>y. key y \<noteq> key x) xs) =
        List.find (\<lambda>y. key y = k) xs"
      using False by (induction xs) auto
    with "2.IH" False show ?thesis by simp
  qed
qed

lemma length_first_by_le: "length (first_by key xs) \<le> length xs"
  using subseq_first_by [of key xs] by (rule list_emb_length)

lemma first_by_map: "first_by key (map f xs) = map f (first_by (\<lambda>x. key (f x)) xs)"
proof (induction "\<lambda>x. key (f x)" xs rule: first_by.induct)
  case 1
  show ?case by simp
next
  case (2 x xs)
  then show ?case by (simp add: filter_map comp_def)
qed

lemma first_by_inj_key:
  assumes "inj g"
  shows "first_by (\<lambda>x. g (key x)) xs = first_by key xs"
proof (induction key xs rule: first_by.induct)
  case (1 key)
  show ?case by simp
next
  case (2 key x xs)
  from assms have "(\<lambda>y. g (key y) \<noteq> g (key x)) = (\<lambda>y. key y \<noteq> key x)"
    by (auto simp: inj_eq)
  with 2 show ?case by simp
qed

end
