(* ===== verification/Python_Base.thy ===== *)
theory Python_Base
  imports Spider_Prelude
begin

text \<open>
  The fragment of Python's built-in behaviour the two source files rely on. None of it
  is code of the repository: it is the meaning of the language constructs and of the
  standard-library calls the sources make, written once so that the components can
  be translated line by line.

  \<^item> \<open>exn\<close>: the exception classes that can reach the sources' call sites.
  \<^item> \<open>pystr\<close>: a value that is a \<open>str\<close> or \<open>None\<close> (every URL variable of
    \<open>net_spider.py\<close> is one); \<open>truthy\<close> is its truth value in a condition such as
    \<open>while page_url and ...\<close>; \<open>py_str\<close> is its rendering in an f-string.
  \<^item> \<open>strip\<close>: \<open>str.strip()\<close> without arguments. It removes the characters
    \<open>str.isspace\<close> accepts; among the code points below 256, the characters of
    this model, these are 9 to 13, 28 to 32, 133 (next line) and 160 (no-break
    space).
  \<^item> \<open>str_nat\<close>, \<open>str_int\<close>: the decimal numeral \<open>str\<close> gives for an integer
    (in an f-string, and in the text \<open>json.dump\<close> writes).
\<close>

section \<open>Exceptions\<close>

datatype exn =
    RequestException string
  | HTTPError int
  | ValueError
  | TypeError
  | KeyError string
  | OSError string
  | JSONDecodeError
  | ParserRejectedMarkup

section \<open>Strings that may be None\<close>

type_synonym pystr = "string option"

definition truthy :: "pystr \<Rightarrow> bool" where
  "truthy u = (case u of None \<Rightarrow> False | Some s \<Rightarrow> s \<noteq> [])"

definition py_str :: "pystr \<Rightarrow> string" where
  "py_str u = (case u of None \<Rightarrow> ''None'' | Some s \<Rightarrow> s)"

lemma truthy_simps [simp]:
  "truthy None = False"
  "truthy (Some s) = (s \<noteq> [])"
  by (simp_all add: truthy_def)

lemma truthy_Some: "truthy u \<Longrightarrow> \<exists>s. u = Some s \<and> s \<noteq> []"
  by (cases u) auto

lemma py_str_simps [simp]:
  "py_str None = ''None''"
  "py_str (Some s) = s"
  by (simp_all add: py_str_def)

section \<open>White space\<close>

definition is_space :: "char \<Rightarrow> bool" where
  "is_space c =
     (let n = of_char c :: nat
      in (9 \<le> n \<and> n \<le> 13) \<or> (28 \<le> n \<and> n \<le> 32) \<or> n = 133 \<or> n = 160)"

definition lstrip :: "string \<Rightarrow> string" where
  "lstrip s = dropWhile is_space s"

definition rstrip :: "string \<Rightarrow> string" where
  "rstrip s = rev (dropWhile is_space (rev s))"

definition strip :: "string \<Rightarrow> string" where
  "strip s = rstrip (lstrip s)"

lemma strip_Nil [simp]: "strip [] = []"
  by (simp add: strip_def lstrip_def rstrip_def)

lemma lstrip_idem [simp]: "lstrip (lstrip s) = lstrip s"
  by (simp add: lstrip_def dropWhile_idem)

lemma rstrip_idem [simp]: "rstrip (rstrip s) = rstrip s"
  by (simp add: rstrip_def dropWhile_idem)

lemma lstrip_hd: "lstrip s \<noteq> [] \<Longrightarrow> \<not> is_space (hd (lstrip s))"
  unfolding lstrip_def by (rule hd_dropWhile)

lemma rstrip_last: "rstrip s \<noteq> [] \<Longrightarrow> \<not> is_space (last (rstrip s))"
  unfolding rstrip_def
  using hd_dropWhile [of is_space "rev s"] by (simp add: last_rev)

lemma lstrip_no_space: "s \<noteq> [] \<Longrightarrow> \<not> is_space (hd s) \<Longrightarrow> lstrip s = s"
  by (cases s) (simp_all add: lstrip_def)

lemma rstrip_no_space: "s \<noteq> [] \<Longrightarrow> \<not> is_space (last s) \<Longrightarrow> rstrip s = s"
  by (cases s rule: rev_cases) (simp_all add: rstrip_def)

lemma rstrip_keeps_hd: "rstrip s \<noteq> [] \<Longrightarrow> hd (rstrip s) = hd s"
proof (induction s rule: rev_induct)
  case Nil
  then show ?case by (simp add: rstrip_def)
next
  case (snoc c s)
  show ?case
  proof (cases "is_space c")
    case True
    then have eq: "rstrip (s @ [c]) = rstrip s" by (simp add: rstrip_def)
    with snoc.prems have "rstrip s \<noteq> []" by simp
    then have "hd (rstrip s) = hd s" and "s \<noteq> []"
      using snoc.IH by (auto simp: rstrip_def)
    with eq show ?thesis by simp
  next
    case False
    then show ?thesis by (simp add: rstrip_def)
  qed
qed

lemma strip_idem [simp]: "strip (strip s) = strip s"
proof (cases "strip s = []")
  case True
  then show ?thesis by simp
next
  case False
  then have ne: "rstrip (lstrip s) \<noteq> []" by (simp add: strip_def)
  then have "lstrip s \<noteq> []" by (auto simp: rstrip_def)
  then have "\<not> is_space (hd (lstrip s))" by (rule lstrip_hd)
  with ne have "\<not> is_space (hd (rstrip (lstrip s)))" by (simp add: rstrip_keeps_hd)
  with ne have "lstrip (rstrip (lstrip s)) = rstrip (lstrip s)" by (rule lstrip_no_space)
  then show ?thesis by (simp add: strip_def)
qed

lemma strip_ends:
  "strip s \<noteq> [] \<Longrightarrow> \<not> is_space (hd (strip s)) \<and> \<not> is_space (last (strip s))"
proof -
  assume ne: "strip s \<noteq> []"
  then have l: "lstrip s \<noteq> []" by (auto simp: strip_def rstrip_def)
  from ne have "hd (strip s) = hd (lstrip s)" by (simp add: strip_def rstrip_keeps_hd)
  with lstrip_hd [OF l] rstrip_last [of "lstrip s"] ne show ?thesis by (simp add: strip_def)
qed

section \<open>Decimal numerals\<close>

definition digit_char :: "nat \<Rightarrow> char" where
  "digit_char d = ''0123456789abcdef'' ! d"

fun str_nat :: "nat \<Rightarrow> string" where
  "str_nat n = (if n < 10 then [digit_char n] else str_nat (n div 10) @ [digit_char (n mod 10)])"

definition str_int :: "int \<Rightarrow> string" where
  "str_int i = (if i < 0 then CHR ''-'' # str_nat (nat (- i)) else str_nat (nat i))"

declare str_nat.simps [simp del]

definition is_digit :: "char \<Rightarrow> bool" where
  "is_digit c \<longleftrightarrow> c \<in> set ''0123456789''"

lemma str_nat_digit: "n < 10 \<Longrightarrow> str_nat n = [digit_char n]"
  by (simp add: str_nat.simps)

lemma str_nat_step: "10 \<le> n \<Longrightarrow> str_nat n = str_nat (n div 10) @ [digit_char (n mod 10)]"
  by (subst str_nat.simps) simp

lemma is_digit_digit_char: "d < 10 \<Longrightarrow> is_digit (digit_char d)"
proof -
  assume "d < 10"
  then have "d \<in> {0, 1, 2, 3, 4, 5, 6, 7, 8, 9}" by auto
  then show ?thesis by (auto simp: is_digit_def digit_char_def)
qed

lemma str_nat_not_Nil [simp]: "str_nat n \<noteq> []"
  by (subst str_nat.simps) simp

lemma str_nat_digits: "list_all is_digit (str_nat n)"
proof (induction n rule: str_nat.induct)
  case (1 n)
  then show ?case
    by (subst str_nat.simps) (simp add: is_digit_digit_char)
qed

lemma str_int_not_Nil [simp]: "str_int i \<noteq> []"
  by (simp add: str_int_def)

end
