(* ===== verification/World.thy ===== *)
theory World
  imports Python_Base
begin

text \<open>
  The world \<open>net_spider.py\<close> runs in, and the three effects its crawl performs.

  \<^item> \<open>web\<close> is the remote site, seen through \<open>requests\<close>, as an oracle:
    \<open>web w k u\<close> is what \<open>requests.get\<close> yields for \<open>u\<close> when \<open>k\<close> requests were
    sent before (a response, or the exception it raises without one). Indexing by
    the request number lets the site change between requests; a static site
    ignores the index.
  \<^item> \<open>url_refused\<close> tells the exceptions \<open>requests\<close> raises for a URL before it
    sends anything (\<open>MissingSchema\<close>, \<open>InvalidSchema\<close>, \<open>InvalidURL\<close>: no scheme,
    a scheme without adapter, no host) from those it raises after it tried
    (connection errors, timeouts, and the same classes when they are raised while
    a redirect is followed, which the oracle reports under another name). A call
    that is refused leaves no \<open>Get\<close> in the trace; \<open>request_events\<close> are the
    events of a call with a given answer.
  \<^item> \<open>trace\<close> records every effect in program order: a GET with its headers, a
    \<open>time.sleep\<close> with its duration, a line printed to standard output, a text
    appended to a file, a file emptied.
  \<^item> \<open>disk\<close> is the content of the files before the run and \<open>openable\<close> says
    which paths can be opened for writing (the directory exists and permits it);
    \<open>file_content\<close> is the content of a file after the writes of the trace
    (\<open>None\<close> when it does not exist) and \<open>file_text\<close> the same with the empty
    text for a missing file.
  \<^item> \<open>requests_get\<close>, \<open>sleep\<close>, \<open>py_print\<close> are \<open>requests.get\<close>, \<open>time.sleep\<close>
    and \<open>print\<close> as programs over the world. \<open>requests.get\<close> refuses a URL that is
    \<open>None\<close> or empty before anything is sent (\<open>MissingSchema\<close>), without asking
    the oracle; \<open>time.sleep\<close> raises \<open>ValueError\<close> on a negative duration.
  \<^item> \<open>open_append\<close> and \<open>file_write\<close> are \<open>open(path, "a")\<close> and the
    \<open>write\<close> of the file it returns. Opening raises \<open>OSError\<close> for a path that
    cannot be opened and writes nothing; a write is one event (what a \<open>with\<close>
    block writes is on disk when the block is left; buffering is not modelled).
    \<open>open_write\<close> is \<open>open(path, "w")\<close>, which empties the file at once, and
    \<open>read_file\<close> is \<open>open(path, "r")\<close> with the \<open>read\<close> of the whole text; it
    raises \<open>OSError\<close> for a file that does not exist.

  The lemmas give each effect's result, its contribution to the trace, and what it
  leaves alone; \<open>n_gets\<close> counts the requests sent so far and \<open>gets\<close> lists them;
  \<open>emits evs w\<close> is the world \<open>w\<close> after the effects \<open>evs\<close>.
\<close>

section \<open>State\<close>

type_synonym headers = "(string \<times> string) list"

record response =
  status_code :: int
  resp_text :: string

datatype event =
  Get string headers | Sleep rat | Print string | Append string string | Truncate string

record world =
  web :: "nat \<Rightarrow> string \<Rightarrow> exn + response"
  disk :: "string \<Rightarrow> string option"
  openable :: "string \<Rightarrow> bool"
  trace :: "event list"

type_synonym 'a io = "(exn, world, 'a) prog"

fun is_get :: "event \<Rightarrow> bool" where
  "is_get (Get u h) = True"
| "is_get (Sleep d) = False"
| "is_get (Print s) = False"
| "is_get (Append p t) = False"
| "is_get (Truncate p) = False"

fun is_sleep :: "event \<Rightarrow> bool" where
  "is_sleep (Get u h) = False"
| "is_sleep (Sleep d) = True"
| "is_sleep (Print s) = False"
| "is_sleep (Append p t) = False"
| "is_sleep (Truncate p) = False"

definition gets :: "event list \<Rightarrow> event list" where
  "gets evs = filter is_get evs"

definition sleeps :: "event list \<Rightarrow> event list" where
  "sleeps evs = filter is_sleep evs"

definition n_gets :: "world \<Rightarrow> nat" where
  "n_gets w = length (gets (trace w))"

fun appended :: "string \<Rightarrow> event list \<Rightarrow> string list" where
  "appended path [] = []"
| "appended path (Append p t # evs) = (if p = path then t # appended path evs else appended path evs)"
| "appended path (Get u h # evs) = appended path evs"
| "appended path (Sleep d # evs) = appended path evs"
| "appended path (Print s # evs) = appended path evs"
| "appended path (Truncate p # evs) = appended path evs"

fun truncates :: "string \<Rightarrow> event list \<Rightarrow> bool" where
  "truncates path [] = False"
| "truncates path (Truncate p # evs) = (p = path \<or> truncates path evs)"
| "truncates path (Append p t # evs) = truncates path evs"
| "truncates path (Get u h # evs) = truncates path evs"
| "truncates path (Sleep d # evs) = truncates path evs"
| "truncates path (Print s # evs) = truncates path evs"

fun file_after :: "string \<Rightarrow> string option \<Rightarrow> event list \<Rightarrow> string option" where
  "file_after path old [] = old"
| "file_after path old (Append p t # evs) =
     file_after path
       (if p = path then Some ((case old of None \<Rightarrow> [] | Some s \<Rightarrow> s) @ t) else old) evs"
| "file_after path old (Truncate p # evs) =
     file_after path (if p = path then Some [] else old) evs"
| "file_after path old (Get u h # evs) = file_after path old evs"
| "file_after path old (Sleep d # evs) = file_after path old evs"
| "file_after path old (Print s # evs) = file_after path old evs"

definition content_after :: "string option \<Rightarrow> string list \<Rightarrow> string option" where
  "content_after old texts =
     (if texts = [] then old
      else Some ((case old of None \<Rightarrow> [] | Some s \<Rightarrow> s) @ concat texts))"

definition file_content :: "world \<Rightarrow> string \<Rightarrow> string option" where
  "file_content w path = file_after path (disk w path) (trace w)"

definition file_text :: "world \<Rightarrow> string \<Rightarrow> string" where
  "file_text w path = (case file_content w path of None \<Rightarrow> [] | Some s \<Rightarrow> s)"

definition emits :: "event list \<Rightarrow> world \<Rightarrow> world" where
  "emits evs w = w\<lparr>trace := trace w @ evs\<rparr>"

abbreviation emit :: "event \<Rightarrow> world \<Rightarrow> world" where
  "emit ev \<equiv> emits [ev]"

section \<open>Politeness of a trace\<close>

text \<open>
  A trace is polite for a delay \<open>d\<close> when every request but the last is followed by
  a sleep of at least \<open>d\<close> before the next request is sent. \<open>polite d owed evs\<close>
  checks it, where \<open>owed\<close> says that a request was sent before \<open>evs\<close> and no sleep
  followed it yet; \<open>owes d owed evs\<close> is that flag after \<open>evs\<close>.
\<close>

fun polite :: "rat \<Rightarrow> bool \<Rightarrow> event list \<Rightarrow> bool" where
  "polite d owed [] = True"
| "polite d owed (Get u h # evs) = (\<not> owed \<and> polite d True evs)"
| "polite d owed (Sleep s # evs) = polite d (owed \<and> s < d) evs"
| "polite d owed (Print s # evs) = polite d owed evs"
| "polite d owed (Append p t # evs) = polite d owed evs"
| "polite d owed (Truncate p # evs) = polite d owed evs"

fun owes :: "rat \<Rightarrow> bool \<Rightarrow> event list \<Rightarrow> bool" where
  "owes d owed [] = owed"
| "owes d owed (Get u h # evs) = owes d True evs"
| "owes d owed (Sleep s # evs) = owes d (owed \<and> s < d) evs"
| "owes d owed (Print s # evs) = owes d owed evs"
| "owes d owed (Append p t # evs) = owes d owed evs"
| "owes d owed (Truncate p # evs) = owes d owed evs"

section \<open>Effects\<close>

fun url_refused :: "exn \<Rightarrow> bool" where
  "url_refused (RequestException name) =
     (name = ''MissingSchema'' \<or> name = ''InvalidSchema'' \<or> name = ''InvalidURL'')"
| "url_refused (HTTPError status) = False"
| "url_refused ValueError = False"
| "url_refused TypeError = False"
| "url_refused (KeyError k) = False"
| "url_refused (OSError path) = False"
| "url_refused JSONDecodeError = False"
| "url_refused ParserRejectedMarkup = False"

fun request_events :: "exn + 'a \<Rightarrow> string \<Rightarrow> headers \<Rightarrow> event list" where
  "request_events (Inl e) u hdrs = (if url_refused e then [] else [Get u hdrs])"
| "request_events (Inr r) u hdrs = [Get u hdrs]"

definition requests_get :: "pystr \<Rightarrow> headers \<Rightarrow> response io" where
  "requests_get url hdrs = (\<lambda>w.
     if \<not> truthy url then (Inl (RequestException ''MissingSchema''), w)
     else (web w (n_gets w) (the url),
           emits (request_events (web w (n_gets w) (the url)) (the url) hdrs) w))"

definition sleep :: "rat \<Rightarrow> unit io" where
  "sleep secs = (\<lambda>w. if secs < 0 then (Inl ValueError, w) else (Inr (), emit (Sleep secs) w))"

definition py_print :: "string \<Rightarrow> unit io" where
  "py_print s = (\<lambda>w. (Inr (), emit (Print s) w))"

definition open_append :: "string \<Rightarrow> unit io" where
  "open_append path = (\<lambda>w. if openable w path then (Inr (), w) else (Inl (OSError path), w))"

definition file_write :: "string \<Rightarrow> string \<Rightarrow> unit io" where
  "file_write path s = (\<lambda>w. (Inr (), emit (Append path s) w))"

definition open_write :: "string \<Rightarrow> unit io" where
  "open_write path =
     (\<lambda>w. if openable w path then (Inr (), emit (Truncate path) w) else (Inl (OSError path), w))"

definition read_file :: "string \<Rightarrow> string io" where
  "read_file path =
     (\<lambda>w. case file_content w path of None \<Rightarrow> (Inl (OSError path), w) | Some s \<Rightarrow> (Inr s, w))"

section \<open>Lemmas\<close>

lemma gets_simps [simp]:
  "gets [] = []"
  "gets (Get u h # evs) = Get u h # gets evs"
  "gets (Sleep d # evs) = gets evs"
  "gets (Print s # evs) = gets evs"
  "gets (Append p t # evs) = gets evs"
  "gets (Truncate p # evs) = gets evs"
  "gets (evs @ evs') = gets evs @ gets evs'"
  by (simp_all add: gets_def)

lemma sleeps_simps [simp]:
  "sleeps [] = []"
  "sleeps (Get u h # evs) = sleeps evs"
  "sleeps (Sleep d # evs) = Sleep d # sleeps evs"
  "sleeps (Print s # evs) = sleeps evs"
  "sleeps (Append p t # evs) = sleeps evs"
  "sleeps (Truncate p # evs) = sleeps evs"
  "sleeps (evs @ evs') = sleeps evs @ sleeps evs'"
  by (simp_all add: sleeps_def)

lemma owes_append [simp]: "owes d owed (evs @ evs') = owes d (owes d owed evs) evs'"
  by (induction d owed evs rule: owes.induct) simp_all

lemma polite_append [simp]:
  "polite d owed (evs @ evs') \<longleftrightarrow> polite d owed evs \<and> polite d (owes d owed evs) evs'"
  by (induction d owed evs rule: polite.induct) simp_all

lemma emits_simps [simp, frame_simps]:
  "trace (emits evs w) = trace w @ evs"
  "web (emits evs w) = web w"
  "disk (emits evs w) = disk w"
  "openable (emits evs w) = openable w"
  by (simp_all add: emits_def)

lemma emits_Nil [simp]: "emits [] w = w"
  by (simp add: emits_def)

lemma emits_emits [simp]: "emits evs (emits evs' w) = emits (evs' @ evs) w"
  by (simp add: emits_def)

lemma n_gets_emits [simp]: "n_gets (emits evs w) = n_gets w + length (gets evs)"
  by (simp add: n_gets_def)

lemma n_gets_trace: "trace w' = trace w @ evs \<Longrightarrow> n_gets w' = n_gets w + length (gets evs)"
  by (simp add: n_gets_def)

lemma requests_get_falsy [run_simps]:
  "\<not> truthy url \<Longrightarrow> requests_get url hdrs w = (Inl (RequestException ''MissingSchema''), w)"
  by (simp add: requests_get_def)

lemma requests_get_truthy [run_simps]:
  "truthy url \<Longrightarrow>
     requests_get url hdrs w =
       (web w (n_gets w) (the url),
        emits (request_events (web w (n_gets w) (the url)) (the url) hdrs) w)"
  by (simp add: requests_get_def)

lemma request_events_gets [simp]: "gets (request_events a u hdrs) = request_events a u hdrs"
  by (cases "(a, u, hdrs)" rule: request_events.cases) simp_all

lemma request_events_sleeps [simp]: "sleeps (request_events a u hdrs) = []"
  by (cases "(a, u, hdrs)" rule: request_events.cases) simp_all

lemma request_events_length: "length (request_events a u hdrs) \<le> 1"
  by (cases "(a, u, hdrs)" rule: request_events.cases) simp_all

lemma request_events_not_refused:
  "(\<And>e. a = Inl e \<Longrightarrow> \<not> url_refused e) \<Longrightarrow> request_events a u hdrs = [Get u hdrs]"
  by (cases a) simp_all

lemma sleep_ok [run_simps]: "0 \<le> secs \<Longrightarrow> sleep secs w = (Inr (), emit (Sleep secs) w)"
  by (simp add: sleep_def)

lemma sleep_negative [run_simps]: "secs < 0 \<Longrightarrow> sleep secs w = (Inl ValueError, w)"
  by (simp add: sleep_def)

lemma py_print_apply [run_simps, simp]: "py_print s w = (Inr (), emit (Print s) w)"
  by (simp add: py_print_def)

lemma bind_py_print [run_simps, simp]: "bind (py_print s) k w = k () (emit (Print s) w)"
  by (simp add: bind_apply)

lemma bind_sleep_ok [run_simps]: "0 \<le> secs \<Longrightarrow> bind (sleep secs) k w = k () (emit (Sleep secs) w)"
  by (simp add: bind_apply sleep_ok)

lemma bind_sleep_negative [run_simps]: "secs < 0 \<Longrightarrow> bind (sleep secs) k w = (Inl ValueError, w)"
  by (simp add: bind_apply sleep_negative)

lemma requests_get_web [frame_simps]: "web (world_after (requests_get url hdrs) w) = web w"
  by (simp add: requests_get_def world_after_def)

lemma sleep_web [frame_simps]: "web (world_after (sleep secs) w) = web w"
  by (simp add: sleep_def world_after_def)

lemma open_append_ok [run_simps]: "openable w path \<Longrightarrow> open_append path w = (Inr (), w)"
  by (simp add: open_append_def)

lemma open_append_refused [run_simps]:
  "\<not> openable w path \<Longrightarrow> open_append path w = (Inl (OSError path), w)"
  by (simp add: open_append_def)

lemma file_write_apply [run_simps, simp]: "file_write path s w = (Inr (), emit (Append path s) w)"
  by (simp add: file_write_def)

lemma bind_file_write [run_simps, simp]:
  "bind (file_write path s) k w = k () (emit (Append path s) w)"
  by (simp add: bind_apply)

lemma bind_open_append_ok [run_simps]:
  "openable w path \<Longrightarrow> bind (open_append path) k w = k () w"
  by (simp add: bind_apply open_append_ok)

lemma bind_open_append_refused [run_simps]:
  "\<not> openable w path \<Longrightarrow> bind (open_append path) k w = (Inl (OSError path), w)"
  by (simp add: bind_apply open_append_refused)

lemma appended_append [simp]: "appended path (evs @ evs') = appended path evs @ appended path evs'"
  by (induction path evs rule: appended.induct) simp_all

lemma content_after_Nil [simp]: "content_after old [] = old"
  by (simp add: content_after_def)

lemma content_after_append:
  "content_after old (ts @ ts') = content_after (content_after old ts) ts'"
  by (cases old) (auto simp: content_after_def)

lemma truncates_append [simp]:
  "truncates path (evs @ evs') \<longleftrightarrow> truncates path evs \<or> truncates path evs'"
  by (induction path evs rule: truncates.induct) auto

lemma file_after_append [simp]:
  "file_after path old (evs @ evs') = file_after path (file_after path old evs) evs'"
  by (induction path old evs rule: file_after.induct) simp_all

lemma content_after_Cons:
  "content_after old (t # ts) =
     content_after (Some ((case old of None \<Rightarrow> [] | Some s \<Rightarrow> s) @ t)) ts"
  by (cases old) (simp_all add: content_after_def)

lemma file_after_appended:
  "\<not> truncates path evs \<Longrightarrow> file_after path old evs = content_after old (appended path evs)"
proof (induction evs arbitrary: old)
  case Nil
  show ?case by simp
next
  case (Cons ev evs)
  then show ?case
    by (cases ev) (simp_all add: content_after_Cons)
qed

lemma file_after_truncated:
  "file_after path old (evs @ Truncate path # evs') = file_after path (Some []) evs'"
  by simp

lemma file_content_emits_any:
  "file_content (emits evs w) path = file_after path (file_content w path) evs"
  by (simp add: file_content_def)

lemma file_content_emits:
  "\<not> truncates path evs \<Longrightarrow>
     file_content (emits evs w) path = content_after (file_content w path) (appended path evs)"
  by (simp add: file_content_emits_any file_after_appended)

lemma file_text_emits:
  "\<not> truncates path evs \<Longrightarrow>
     file_text (emits evs w) path = file_text w path @ concat (appended path evs)"
  by (simp add: file_text_def file_content_emits content_after_def split: option.splits)

lemma file_content_emits_None:
  "\<not> truncates path evs \<Longrightarrow>
     file_content (emits evs w) path = None \<longleftrightarrow>
       file_content w path = None \<and> appended path evs = []"
  by (simp add: file_content_emits content_after_def)

lemma file_content_start [simp]: "trace w = [] \<Longrightarrow> file_content w path = disk w path"
  by (simp add: file_content_def)

lemma open_write_ok [run_simps]:
  "openable w path \<Longrightarrow> open_write path w = (Inr (), emit (Truncate path) w)"
  by (simp add: open_write_def)

lemma open_write_refused [run_simps]:
  "\<not> openable w path \<Longrightarrow> open_write path w = (Inl (OSError path), w)"
  by (simp add: open_write_def)

lemma read_file_Some [run_simps]:
  "file_content w path = Some s \<Longrightarrow> read_file path w = (Inr s, w)"
  by (simp add: read_file_def)

lemma read_file_None [run_simps]:
  "file_content w path = None \<Longrightarrow> read_file path w = (Inl (OSError path), w)"
  by (simp add: read_file_def)

lemma requests_get_n_gets:
  "n_gets (world_after (requests_get url hdrs) w) \<le> n_gets w + (if truthy url then 1 else 0)"
  using request_events_length [of "web w (n_gets w) (the url)" "the url" hdrs]
  by (simp add: requests_get_def world_after_def)

end
