(* ===== verification/Soup.thy ===== *)
theory Soup
  imports Python_Base
begin

text \<open>
  The libraries \<open>net_spider.py\<close> extracts data with, as an interface. The sources only
  call them, so their behaviour is a parameter of the model: a record \<open>'n libs\<close> over
  the type \<open>'n\<close> of parsed-document nodes.

  \<^item> \<open>html_parser\<close> is the tree builder behind \<open>BeautifulSoup(text, "html.parser")\<close>:
    it yields the parsed document, or \<open>None\<close> for a text the parser of the
    standard library gives up on (bs4 then raises \<open>ParserRejectedMarkup\<close>);
  \<^item> \<open>css_select\<close> is \<open>Tag.select\<close>, the nodes below a node that match a CSS
    selector, in document order;
  \<^item> \<open>node_strings\<close> are the text strings below a node in document order;
  \<^item> \<open>node_attr\<close> is \<open>Tag.get\<close>, an attribute's value or \<open>None\<close>;
  \<^item> \<open>url_resolve\<close> is the reference resolution that \<open>urllib.parse.urljoin\<close>
    performs on two non-empty strings. It parses both and raises \<open>ValueError\<close>
    on a reference it cannot split (a bracket that opens an IPv6 host and is never
    closed, as in \<open>//[x\<close>): its result is a string, or \<open>None\<close> for that
    exception.

  Assumed of \<open>select\<close>, the strings of a tag and \<open>Tag.get\<close>: they return. The
  selectors of the sources are fixed and valid, and \<open>Tag.get\<close> and \<open>Tag.text\<close>
  only read the tree, so an exception of theirs is not a value of the model.
  Nothing else is assumed of the libraries.

  What the sources use on top of these is defined here from the libraries' documented
  behaviour: \<open>BeautifulSoup\<close> is the constructor call of \<open>get_soup\<close>; \<open>select_one\<close> is the first match of \<open>select\<close>; \<open>get_text\<close> (the
  \<open>.text\<close> property) joins all strings; \<open>get_text_strip\<close> is
  \<open>get_text(strip=True)\<close>, which strips every string and drops the empty ones
  before joining; \<open>urljoin\<close> returns the other argument when one is empty or
  \<open>None\<close> (without looking at it), and resolves otherwise.
\<close>

record 'n libs =
  html_parser :: "string \<Rightarrow> 'n option"
  css_select :: "'n \<Rightarrow> string \<Rightarrow> 'n list"
  node_strings :: "'n \<Rightarrow> string list"
  node_attr :: "'n \<Rightarrow> string \<Rightarrow> pystr"
  url_resolve :: "string \<Rightarrow> string \<Rightarrow> string option"

definition BeautifulSoup :: "'n libs \<Rightarrow> string \<Rightarrow> exn + 'n" where
  "BeautifulSoup L markup =
     (case html_parser L markup of None \<Rightarrow> Inl ParserRejectedMarkup | Some soup \<Rightarrow> Inr soup)"

definition select_one :: "'n libs \<Rightarrow> 'n \<Rightarrow> string \<Rightarrow> 'n option" where
  "select_one L n sel = (case css_select L n sel of [] \<Rightarrow> None | x # xs \<Rightarrow> Some x)"

definition get_text :: "'n libs \<Rightarrow> 'n \<Rightarrow> string" where
  "get_text L n = concat (node_strings L n)"

definition get_text_strip :: "'n libs \<Rightarrow> 'n \<Rightarrow> string" where
  "get_text_strip L n = concat (filter (\<lambda>s. s \<noteq> []) (map strip (node_strings L n)))"

definition urljoin :: "'n libs \<Rightarrow> pystr \<Rightarrow> pystr \<Rightarrow> exn + pystr" where
  "urljoin L base url =
     (if \<not> truthy base then Inr url
      else if \<not> truthy url then Inr base
      else case url_resolve L (the base) (the url) of
             None \<Rightarrow> Inl ValueError
           | Some u \<Rightarrow> Inr (Some u))"

text \<open>
  The smallest implementation of the interface, for examples: a document whose only
  node is \<open>()\<close>, without text or attributes, in which every selector matches the
  nodes \<open>ns\<close>.
\<close>

definition const_libs :: "unit list \<Rightarrow> unit libs" where
  "const_libs ns =
     \<lparr>html_parser = (\<lambda>body. Some ()), css_select = (\<lambda>n sel. ns), node_strings = (\<lambda>n. []),
      node_attr = (\<lambda>n a. None), url_resolve = (\<lambda>base u. Some u)\<rparr>"

section \<open>Lemmas\<close>

lemma BeautifulSoup_error: "BeautifulSoup L markup = Inl e \<Longrightarrow> e = ParserRejectedMarkup"
  by (simp add: BeautifulSoup_def split: option.splits)

lemma BeautifulSoup_Inr_iff:
  "BeautifulSoup L markup = Inr soup \<longleftrightarrow> html_parser L markup = Some soup"
  by (simp add: BeautifulSoup_def split: option.splits)

lemma select_one_None_iff: "select_one L n sel = None \<longleftrightarrow> css_select L n sel = []"
  by (simp add: select_one_def split: list.splits)

lemma select_one_Some_iff:
  "select_one L n sel = Some x \<longleftrightarrow> (\<exists>xs. css_select L n sel = x # xs)"
  by (simp add: select_one_def split: list.splits)

lemma case_select_one:
  "(case select_one L n sel of None \<Rightarrow> d | Some x \<Rightarrow> g x) =
     (case css_select L n sel of [] \<Rightarrow> d | x # xs \<Rightarrow> g x)"
  by (simp add: select_one_def split: list.splits)

lemma select_one_in_select: "select_one L n sel = Some x \<Longrightarrow> x \<in> set (css_select L n sel)"
  by (auto simp: select_one_Some_iff)

lemma get_text_no_strings [simp]: "node_strings L n = [] \<Longrightarrow> get_text L n = []"
  by (simp add: get_text_def)

lemma get_text_strip_no_strings [simp]: "node_strings L n = [] \<Longrightarrow> get_text_strip L n = []"
  by (simp add: get_text_strip_def)

lemma urljoin_not_None: "truthy base \<Longrightarrow> urljoin L base url \<noteq> Inr None"
  by (cases base) (auto simp: urljoin_def split: option.splits)

lemma urljoin_falsy_url [simp]:
  "truthy base \<Longrightarrow> \<not> truthy url \<Longrightarrow> urljoin L base url = Inr base"
  by (simp add: urljoin_def)

lemma urljoin_Inl_iff:
  "urljoin L base url = Inl e \<longleftrightarrow>
     e = ValueError \<and> truthy base \<and> truthy url \<and> url_resolve L (the base) (the url) = None"
  by (auto simp: urljoin_def split: option.splits)

lemma const_libs_simps [simp]:
  "html_parser (const_libs ns) body = Some ()"
  "css_select (const_libs ns) n sel = ns"
  "node_strings (const_libs ns) n = []"
  "node_attr (const_libs ns) n a = None"
  by (simp_all add: const_libs_def)

end
