(* ===== verification/Fetcher.thy ===== *)
theory Fetcher
  imports World Soup
begin

text \<open>
  The Fetcher of \<open>net_spider.py\<close>: the module constants and \<open>get_soup\<close>.

  \<open>get_soup\<close> sends one GET with the fixed headers, raises on a 4xx or 5xx status
  (\<open>Response.raise_for_status\<close>), and parses the body otherwise, which raises if
  the parser rejects it. It does not retry
  and it catches nothing: every failure is an exception of the caller.

  The lemmas characterise the three outcomes (no response, error status, parsed page),
  show that exactly one request is sent for a URL that is not empty and not refused
  by \<open>requests\<close>, and that a status outside 400 to 599 counts as success whatever
  it is.
\<close>

section \<open>Module constants\<close>

definition BASE_URL :: string where
  "BASE_URL = ''https://forum.freecad.org''"

definition SUBFORUM_URL :: string where
  "SUBFORUM_URL = ''https://forum.freecad.org/viewforum.php?f=3''"

definition HEADERS :: headers where
  "HEADERS = [(''User-Agent'', ''Mozilla/5.0 (X11; Linux x86_64) MyScraper/1.0'')]"

section \<open>get_soup\<close>

definition raise_for_status :: "response \<Rightarrow> exn + unit" where
  "raise_for_status r =
     (if 400 \<le> status_code r \<and> status_code r < 600 then Inl (HTTPError (status_code r))
      else Inr ())"

definition get_soup :: "'n libs \<Rightarrow> pystr \<Rightarrow> 'n io" where
  "get_soup L url =
     bind (requests_get url HEADERS) (\<lambda>response.
     bind (lift (raise_for_status response)) (\<lambda>_.
     lift (BeautifulSoup L (resp_text response))))"

section \<open>The page a request yields\<close>

text \<open>
  \<open>fetch_page\<close> is the pure content of \<open>get_soup\<close>: what the \<open>k\<close>-th request for
  \<open>u\<close> yields, read off the oracle. It is the reference the stateful function is
  compared with.
\<close>

definition fetch_page :: "'n libs \<Rightarrow> (nat \<Rightarrow> string \<Rightarrow> exn + response) \<Rightarrow> nat \<Rightarrow> string \<Rightarrow> exn + 'n" where
  "fetch_page L site k u =
     (case site k u of
        Inl e \<Rightarrow> Inl e
      | Inr r \<Rightarrow> (case raise_for_status r of
                   Inl e \<Rightarrow> Inl e
                 | Inr _ \<Rightarrow> BeautifulSoup L (resp_text r)))"

section \<open>Lemmas\<close>

lemma BASE_URL_nonempty [simp]: "BASE_URL \<noteq> []"
  by (simp add: BASE_URL_def)

lemma BASE_URL_truthy: "truthy (Some BASE_URL)"
  by simp

lemma raise_for_status_ok_iff:
  "raise_for_status r = Inr () \<longleftrightarrow> status_code r < 400 \<or> 600 \<le> status_code r"
  by (auto simp: raise_for_status_def)

lemma raise_for_status_error_iff:
  "raise_for_status r = Inl e \<longleftrightarrow>
     e = HTTPError (status_code r) \<and> 400 \<le> status_code r \<and> status_code r < 600"
  by (auto simp: raise_for_status_def)

lemma get_soup_falsy [run_simps]:
  "\<not> truthy url \<Longrightarrow> get_soup L url w = (Inl (RequestException ''MissingSchema''), w)"
  by (simp add: get_soup_def bind_apply requests_get_falsy)

lemma request_events_BeautifulSoup [simp]:
  "request_events (BeautifulSoup L markup) u hdrs = [Get u hdrs]"
  by (rule request_events_not_refused) (auto dest: BeautifulSoup_error)

lemma request_events_fetch_page [simp]:
  "request_events (fetch_page L site k u) u' hdrs = request_events (site k u) u' hdrs"
  by (simp add: fetch_page_def raise_for_status_def split: sum.splits)

lemma get_soup_truthy [run_simps]:
  "truthy url \<Longrightarrow>
     get_soup L url w =
       (fetch_page L (web w) (n_gets w) (the url),
        emits (request_events (web w (n_gets w) (the url)) (the url) HEADERS) w)"
  by (simp add: get_soup_def bind_apply requests_get_truthy fetch_page_def
      split: sum.splits)

lemma get_soup_web [frame_simps]: "web (world_after (get_soup L url) w) = web w"
  by (cases "truthy url") (simp_all add: world_after_def run_simps)

section \<open>Properties\<close>

text \<open>
  C33 (safety). \<open>get_soup\<close> sends exactly one request, with the fixed headers, for
  a URL that is not empty and that \<open>requests\<close> does not refuse, and none otherwise;
  it never retries, whatever the answer is.
\<close>

theorem get_soup_single_request:
  "trace (world_after (get_soup L url) w) =
     trace w @
       (if truthy url \<and> (\<nexists>e. web w (n_gets w) (the url) = Inl e \<and> url_refused e)
        then [Get (the url) HEADERS] else [])"
  by (cases "truthy url"; cases "web w (n_gets w) (the url)")
    (simp_all add: world_after_def run_simps)

text \<open>
  C4 (functional). \<open>get_soup\<close> returns a parsed page exactly when the URL is
  usable, a response arrives, its status is below 400 or above 599 and the parser
  accepts its body; the page is the parse of the response body. A status such as 204 or 304 is therefore
  treated as success, not only those from 200 to 299.
\<close>

theorem get_soup_returns_iff:
  "outcome (get_soup L url) w = Inr soup \<longleftrightarrow>
     truthy url \<and>
     (\<exists>r. web w (n_gets w) (the url) = Inr r \<and> (status_code r < 400 \<or> 600 \<le> status_code r) \<and>
          BeautifulSoup L (resp_text r) = Inr soup)"
proof (cases "truthy url")
  case False
  then show ?thesis by (simp add: outcome_def get_soup_def run_simps)
next
  case True
  then show ?thesis
    by (cases "web w (n_gets w) (the url)")
      (auto simp: outcome_def get_soup_def run_simps raise_for_status_def)
qed

text \<open>
  C35 (error). A response with a status from 400 to 599 makes \<open>get_soup\<close> raise
  \<open>HTTPError\<close> with that status, after the one request it sent.
\<close>

theorem get_soup_http_error:
  assumes "truthy url" and "web w (n_gets w) (the url) = Inr r"
    and "400 \<le> status_code r" and "status_code r < 600"
  shows "get_soup L url w = (Inl (HTTPError (status_code r)), emit (Get (the url) HEADERS) w)"
  using assms by (simp add: get_soup_truthy fetch_page_def raise_for_status_def)

theorem get_soup_http_error_witness:
  "get_soup (const_libs []) (Some ''u'')
       \<lparr>web = (\<lambda>k u. Inr \<lparr>status_code = 500, resp_text = ''down''\<rparr>), disk = (\<lambda>p. None),
         openable = (\<lambda>p. True), trace = []\<rparr> =
     (Inl (HTTPError 500),
      emit (Get ''u'' HEADERS)
        \<lparr>web = (\<lambda>k u. Inr \<lparr>status_code = 500, resp_text = ''down''\<rparr>), disk = (\<lambda>p. None),
         openable = (\<lambda>p. True), trace = []\<rparr>)"
  using get_soup_http_error [of "Some ''u''"
      "\<lparr>web = (\<lambda>k u. Inr \<lparr>status_code = 500, resp_text = ''down''\<rparr>), disk = (\<lambda>p. None),
         openable = (\<lambda>p. True), trace = []\<rparr>"
      "\<lparr>status_code = 500, resp_text = ''down''\<rparr>" "const_libs []"]
  by simp

text \<open>
  C36 (error). A body the parser rejects makes \<open>get_soup\<close> raise
  \<open>ParserRejectedMarkup\<close> although the response arrived with a good status: the
  request was sent, and no page is returned.
\<close>

theorem get_soup_rejected_markup:
  assumes "truthy url" and "web w (n_gets w) (the url) = Inr r"
    and "status_code r < 400 \<or> 600 \<le> status_code r" and "html_parser L (resp_text r) = None"
  shows "get_soup L url w = (Inl ParserRejectedMarkup, emit (Get (the url) HEADERS) w)"
  using assms by (auto simp: get_soup_truthy fetch_page_def raise_for_status_def BeautifulSoup_def)

theorem get_soup_rejected_markup_witness:
  "get_soup ((const_libs []) \<lparr>html_parser := (\<lambda>body. None)\<rparr>) (Some ''u'')
       \<lparr>web = (\<lambda>k u. Inr \<lparr>status_code = 200, resp_text = ''<![''\<rparr>), disk = (\<lambda>p. None),
         openable = (\<lambda>p. True), trace = []\<rparr> =
     (Inl ParserRejectedMarkup,
      emit (Get ''u'' HEADERS)
        \<lparr>web = (\<lambda>k u. Inr \<lparr>status_code = 200, resp_text = ''<![''\<rparr>), disk = (\<lambda>p. None),
         openable = (\<lambda>p. True), trace = []\<rparr>)"
  using get_soup_rejected_markup [of "Some ''u''"
      "\<lparr>web = (\<lambda>k u. Inr \<lparr>status_code = 200, resp_text = ''<![''\<rparr>), disk = (\<lambda>p. None),
         openable = (\<lambda>p. True), trace = []\<rparr>"
      "\<lparr>status_code = 200, resp_text = ''<![''\<rparr>"
      "(const_libs []) \<lparr>html_parser := (\<lambda>body. None)\<rparr>"]
  by simp

end
