(* ===== verification/Extractors.thy ===== *)
theory Extractors
  imports Fetcher
begin

text \<open>
  The two page extractors of \<open>net_spider.py\<close>: \<open>parse_subforum_page\<close> (a listing
  page: topic titles with their URLs) and \<open>parse_topic\<close> (a thread page: posts).
  Each fetches the page with \<open>get_soup\<close>, extracts its records in document order and
  resolves the "next page" anchor against \<open>BASE_URL\<close>.

  \<^item> \<open>topic_of_link\<close> and \<open>post_of_div\<close> are the bodies of the two \<open>for\<close> loops.
    The body of the first calls \<open>urljoin\<close>, which raises \<open>ValueError\<close> on a
    reference it cannot split, so that loop is \<open>collect\<close>: it ends at the first
    anchor whose \<open>href\<close> is refused. The body of the second cannot raise, so that
    loop is a \<open>map\<close>.
  \<^item> \<open>listing_of\<close> and \<open>thread_of\<close> are the content of the two functions after
    the fetch: the records and next link of a parsed page, or \<open>ValueError\<close>.
    \<open>parse_subforum_page_eq\<close> and \<open>parse_topic_eq\<close> show that each function is
    \<open>get_soup\<close> followed by its extractor.
  \<^item> \<open>listing_hrefs\<close> names the references a listing page hands to \<open>urljoin\<close>,
    in the order of the calls: the \<open>href\<close> of every topic anchor, then that of the
    first next anchor.
  \<^item> The lemmas give the fallbacks of \<open>post_of_div\<close>, the shape of the next link,
    and the pages on which the extractors raise although the fetch succeeded.
\<close>

section \<open>Records\<close>

type_synonym topic = "string \<times> pystr"

record post =
  author :: string
  date :: string
  content :: string

section \<open>parse_subforum_page\<close>

definition topic_of_link :: "'n libs \<Rightarrow> 'n \<Rightarrow> exn + topic" where
  "topic_of_link L link =
     (let topic_title = strip (get_text L link);
          topic_href = node_attr L link ''href''
      in case urljoin L (Some BASE_URL) topic_href of
           Inl e \<Rightarrow> Inl e
         | Inr topic_url \<Rightarrow> Inr (topic_title, topic_url))"

definition parse_subforum_page :: "'n libs \<Rightarrow> pystr \<Rightarrow> (topic list \<times> pystr) io" where
  "parse_subforum_page L subforum_url =
     bind (get_soup L subforum_url) (\<lambda>soup.
       let topic_rows = css_select L soup ''ul.topiclist.topics li dl dt a.topictitle''
       in bind (lift (collect (topic_of_link L) topic_rows)) (\<lambda>topics.
            let next_page_link = select_one L soup ''a[rel='next']''
            in bind (lift (case next_page_link of
                             Some a \<Rightarrow> urljoin L (Some BASE_URL) (node_attr L a ''href'')
                           | None \<Rightarrow> Inr None)) (\<lambda>next_page_url.
                 ret (topics, next_page_url))))"

section \<open>parse_topic\<close>

definition post_of_div :: "'n libs \<Rightarrow> 'n \<Rightarrow> post" where
  "post_of_div L post_div =
     (let author_element = select_one L post_div ''.username'';
          author_text =
            (case author_element of Some el \<Rightarrow> get_text_strip L el | None \<Rightarrow> ''Unknown'');
          date_element = select_one L post_div ''.author'';
          date_text =
            (case date_element of Some el \<Rightarrow> get_text_strip L el | None \<Rightarrow> ''Unknown'');
          content_div = select_one L post_div ''.content'';
          content_text =
            (case content_div of Some el \<Rightarrow> get_text_strip L el | None \<Rightarrow> ''No content'')
      in \<lparr>author = author_text, date = date_text, content = content_text\<rparr>)"

definition parse_topic :: "'n libs \<Rightarrow> pystr \<Rightarrow> (post list \<times> pystr) io" where
  "parse_topic L topic_url =
     bind (get_soup L topic_url) (\<lambda>soup.
       let post_divs = css_select L soup ''div.post'';
           posts = map (post_of_div L) post_divs;
           next_topic_page_link = select_one L soup ''a[rel='next']''
       in bind (lift (case next_topic_page_link of
                        Some a \<Rightarrow> urljoin L (Some BASE_URL) (node_attr L a ''href'')
                      | None \<Rightarrow> Inr None)) (\<lambda>next_topic_page_url.
            ret (posts, next_topic_page_url)))"

section \<open>The extractors as functions of the parsed page\<close>

definition next_link :: "'n libs \<Rightarrow> 'n \<Rightarrow> exn + pystr" where
  "next_link L soup =
     (case css_select L soup ''a[rel='next']'' of
        [] \<Rightarrow> Inr None
      | a # as \<Rightarrow> urljoin L (Some BASE_URL) (node_attr L a ''href''))"

definition listing_of :: "'n libs \<Rightarrow> 'n \<Rightarrow> exn + topic list \<times> pystr" where
  "listing_of L soup =
     (case collect (topic_of_link L)
             (css_select L soup ''ul.topiclist.topics li dl dt a.topictitle'') of
        Inl e \<Rightarrow> Inl e
      | Inr topics \<Rightarrow>
          (case next_link L soup of
             Inl e \<Rightarrow> Inl e
           | Inr next_page_url \<Rightarrow> Inr (topics, next_page_url)))"

definition thread_of :: "'n libs \<Rightarrow> 'n \<Rightarrow> exn + post list \<times> pystr" where
  "thread_of L soup =
     (case next_link L soup of
        Inl e \<Rightarrow> Inl e
      | Inr next_topic_page_url \<Rightarrow>
          Inr (map (post_of_div L) (css_select L soup ''div.post''), next_topic_page_url))"

definition page_of :: "('n \<Rightarrow> exn + 'a) \<Rightarrow> 'n libs \<Rightarrow>
    (nat \<Rightarrow> string \<Rightarrow> exn + response) \<Rightarrow> nat \<Rightarrow> string \<Rightarrow> exn + 'a" where
  "page_of extract L site k u =
     (case fetch_page L site k u of Inl e \<Rightarrow> Inl e | Inr soup \<Rightarrow> extract soup)"

definition listing_hrefs :: "'n libs \<Rightarrow> 'n \<Rightarrow> pystr list" where
  "listing_hrefs L soup =
     map (\<lambda>a. node_attr L a ''href'')
       (css_select L soup ''ul.topiclist.topics li dl dt a.topictitle'' @
        take 1 (css_select L soup ''a[rel='next']''))"

section \<open>Lemmas: the functions are a fetch followed by an extractor\<close>

lemma case_select_one_next:
  "(case select_one L soup ''a[rel='next']'' of
      Some a \<Rightarrow> urljoin L (Some BASE_URL) (node_attr L a ''href'')
    | None \<Rightarrow> Inr None) = next_link L soup"
  by (simp add: next_link_def select_one_def split: list.splits)

lemma parse_subforum_page_eq:
  "parse_subforum_page L url = bind (get_soup L url) (\<lambda>soup. lift (listing_of L soup))"
  by (simp add: parse_subforum_page_def listing_of_def Let_def case_select_one_next
      bind_lift_ret bind_lift_lift)

lemma parse_topic_eq:
  "parse_topic L url = bind (get_soup L url) (\<lambda>soup. lift (thread_of L soup))"
  by (simp add: parse_topic_def thread_of_def Let_def case_select_one_next bind_lift_ret)

lemma fetch_then_extract_falsy:
  "\<not> truthy url \<Longrightarrow>
     bind (get_soup L url) (\<lambda>soup. lift (f soup)) w = (Inl (RequestException ''MissingSchema''), w)"
  by (simp add: bind_apply get_soup_falsy)

lemma fetch_then_extract_truthy:
  "truthy url \<Longrightarrow>
     bind (get_soup L url) (\<lambda>soup. lift (f soup)) w =
       (page_of f L (web w) (n_gets w) (the url),
        emits (request_events (web w (n_gets w) (the url)) (the url) HEADERS) w)"
  by (cases "fetch_page L (web w) (n_gets w) (the url)")
    (simp_all add: bind_apply get_soup_truthy page_of_def)

lemma request_events_page_of:
  "(\<And>soup e. f soup = Inl e \<Longrightarrow> \<not> url_refused e) \<Longrightarrow>
     request_events (page_of f L site k u) u' hdrs = request_events (site k u) u' hdrs"
proof (cases "site k u")
  case (Inl e)
  then show ?thesis by (simp add: page_of_def fetch_page_def)
next
  case (Inr r)
  assume f: "\<And>soup e. f soup = Inl e \<Longrightarrow> \<not> url_refused e"
  have "request_events (page_of f L site k u) u' hdrs = [Get u' hdrs]"
    by (rule request_events_not_refused)
      (use Inr f in \<open>auto simp: page_of_def fetch_page_def raise_for_status_def
        dest: BeautifulSoup_error split: sum.splits if_splits\<close>)
  with Inr show ?thesis by simp
qed

lemma fetch_then_extract_outcome:
  "outcome (bind (get_soup L url) (\<lambda>soup. lift (f soup))) w =
     (case outcome (get_soup L url) w of Inl e \<Rightarrow> Inl e | Inr soup \<Rightarrow> f soup)"
  by (cases "get_soup L url" w rule: prog_cases) (simp_all add: outcome_def)

lemma parse_subforum_page_falsy [run_simps]:
  "\<not> truthy url \<Longrightarrow>
     parse_subforum_page L url w = (Inl (RequestException ''MissingSchema''), w)"
  by (simp add: parse_subforum_page_eq fetch_then_extract_falsy)

lemma parse_subforum_page_truthy [run_simps]:
  "truthy url \<Longrightarrow>
     parse_subforum_page L url w =
       (page_of (listing_of L) L (web w) (n_gets w) (the url),
        emits (request_events (web w (n_gets w) (the url)) (the url) HEADERS) w)"
  by (simp add: parse_subforum_page_eq fetch_then_extract_truthy)

lemma parse_topic_falsy [run_simps]:
  "\<not> truthy url \<Longrightarrow> parse_topic L url w = (Inl (RequestException ''MissingSchema''), w)"
  by (simp add: parse_topic_eq fetch_then_extract_falsy)

lemma parse_topic_truthy [run_simps]:
  "truthy url \<Longrightarrow>
     parse_topic L url w =
       (page_of (thread_of L) L (web w) (n_gets w) (the url),
        emits (request_events (web w (n_gets w) (the url)) (the url) HEADERS) w)"
  by (simp add: parse_topic_eq fetch_then_extract_truthy)

section \<open>Lemmas: records and links\<close>

lemma next_link_Nil [simp]:
  "css_select L soup ''a[rel='next']'' = [] \<Longrightarrow> next_link L soup = Inr None"
  by (simp add: next_link_def)

lemma next_link_Cons:
  "css_select L soup ''a[rel='next']'' = a # as \<Longrightarrow>
     next_link L soup = urljoin L (Some BASE_URL) (node_attr L a ''href'')"
  by (simp add: next_link_def)

lemma topic_of_link_Inl_iff:
  "topic_of_link L a = Inl e \<longleftrightarrow> urljoin L (Some BASE_URL) (node_attr L a ''href'') = Inl e"
  by (simp add: topic_of_link_def Let_def split: sum.splits)

lemma topic_of_link_isl:
  "isl (topic_of_link L a) = isl (urljoin L (Some BASE_URL) (node_attr L a ''href''))"
  by (simp add: topic_of_link_def Let_def split: sum.splits)

lemma listing_of_Inl_iff:
  "listing_of L soup = Inl e \<longleftrightarrow>
     collect (urljoin L (Some BASE_URL)) (listing_hrefs L soup) = Inl e"
proof -
  let ?rows = "css_select L soup ''ul.topiclist.topics li dl dt a.topictitle''"
  let ?next = "css_select L soup ''a[rel='next']''"
  let ?join = "\<lambda>a. urljoin L (Some BASE_URL) (node_attr L a ''href'')"
  have rows: "collect (topic_of_link L) ?rows = Inl e \<longleftrightarrow> collect ?join ?rows = Inl e" for e
    by (rule collect_Inl_cong) (simp add: topic_of_link_Inl_iff topic_of_link_isl)
  have ok: "isl (collect (topic_of_link L) ?rows) = isl (collect ?join ?rows)"
    by (rule collect_isl_cong) (simp add: topic_of_link_isl)
  have nxt: "next_link L soup = Inl e \<longleftrightarrow> collect ?join (take 1 ?next) = Inl e"
    by (cases ?next) (auto simp: next_link_def split: sum.splits)
  have hrefs: "collect (urljoin L (Some BASE_URL)) (listing_hrefs L soup) =
      (case collect ?join ?rows of
         Inl e \<Rightarrow> Inl e
       | Inr as \<Rightarrow> (case collect ?join (take 1 ?next) of
                      Inl e \<Rightarrow> Inl e | Inr bs \<Rightarrow> Inr (as @ bs)))"
    by (simp only: listing_hrefs_def collect_map collect_append)
  show ?thesis
  proof (cases "collect (topic_of_link L) ?rows")
    case (Inl e')
    with rows [of e'] show ?thesis
      by (auto simp: hrefs listing_of_def)
  next
    case (Inr ts)
    with ok obtain us where us: "collect ?join ?rows = Inr us"
      by (cases "collect ?join ?rows") simp_all
    from Inr have "listing_of L soup = Inl e \<longleftrightarrow> next_link L soup = Inl e"
      by (simp add: listing_of_def split: sum.splits)
    also note nxt
    also have "collect ?join (take 1 ?next) = Inl e \<longleftrightarrow>
        collect (urljoin L (Some BASE_URL)) (listing_hrefs L soup) = Inl e"
      unfolding hrefs us by (simp split: sum.splits)
    finally show ?thesis .
  qed
qed

lemma thread_of_Inl_iff: "thread_of L soup = Inl e \<longleftrightarrow> next_link L soup = Inl e"
  by (simp add: thread_of_def split: sum.splits)

lemma next_link_Inl_iff:
  "next_link L soup = Inl e \<longleftrightarrow>
     e = ValueError \<and>
     (\<exists>a as. css_select L soup ''a[rel='next']'' = a # as \<and> truthy (node_attr L a ''href'') \<and>
        url_resolve L BASE_URL (the (node_attr L a ''href'')) = None)"
  by (cases "css_select L soup ''a[rel='next']''")
    (auto simp: next_link_def urljoin_Inl_iff)

lemma collect_urljoin_Inl_iff:
  "collect (urljoin L (Some BASE_URL)) hs = Inl e \<longleftrightarrow>
     e = ValueError \<and> (\<exists>h. h \<in> set hs \<and> truthy h \<and> url_resolve L BASE_URL (the h) = None)"
proof (induction hs)
  case Nil
  show ?case by simp
next
  case (Cons h hs)
  show ?case
  proof (cases "urljoin L (Some BASE_URL) h")
    case (Inl e')
    then have "e' = ValueError \<and> truthy h \<and> url_resolve L BASE_URL (the h) = None"
      by (simp add: urljoin_Inl_iff)
    with Inl show ?thesis by auto
  next
    case (Inr u)
    have "\<not> (truthy h \<and> url_resolve L BASE_URL (the h) = None)"
      using Inr by (cases "url_resolve L BASE_URL (the h)") (auto simp: urljoin_def)
    with Inr Cons.IH show ?thesis by (auto split: sum.splits)
  qed
qed

lemma listing_of_error: "listing_of L soup = Inl e \<Longrightarrow> e = ValueError"
  by (simp add: listing_of_Inl_iff collect_urljoin_Inl_iff)

lemma thread_of_error: "thread_of L soup = Inl e \<Longrightarrow> e = ValueError"
  by (simp add: thread_of_Inl_iff next_link_Inl_iff)

lemma request_events_listing [simp]:
  "request_events (page_of (listing_of L) L site k u) u' hdrs = request_events (site k u) u' hdrs"
  by (rule request_events_page_of) (auto dest: listing_of_error)

lemma request_events_thread [simp]:
  "request_events (page_of (thread_of L) L site k u) u' hdrs = request_events (site k u) u' hdrs"
  by (rule request_events_page_of) (auto dest: thread_of_error)

lemma topic_title_stripped: "topic_of_link L link = Inr (t, u) \<Longrightarrow> strip t = t"
  by (auto simp: topic_of_link_def Let_def split: sum.splits)

section \<open>Properties\<close>

text \<open>
  C37 (functional). A post container without author, date and content elements
  yields the post \<open>Unknown\<close>, \<open>Unknown\<close>, \<open>No content\<close>.
\<close>

theorem post_of_div_fallback:
  assumes "css_select L d ''.username'' = []" and "css_select L d ''.author'' = []"
    and "css_select L d ''.content'' = []"
  shows "post_of_div L d = \<lparr>author = ''Unknown'', date = ''Unknown'', content = ''No content''\<rparr>"
  using assms by (simp add: post_of_div_def Let_def case_select_one)

theorem post_of_div_fallback_witness:
  "post_of_div (const_libs []) () =
     \<lparr>author = ''Unknown'', date = ''Unknown'', content = ''No content''\<rparr>"
  by (rule post_of_div_fallback) simp_all

text \<open>
  C12 (error). A listing page that was fetched can still make \<open>parse_subforum_page\<close>
  raise: it raises exactly when the fetch raised, with that exception, or when the
  \<open>href\<close> of some topic anchor or of the first next anchor is a non-empty reference
  that URL resolution rejects, and then with \<open>ValueError\<close>. One bad link on a page
  loses the whole page.
\<close>

theorem parse_subforum_page_raises_iff:
  "outcome (parse_subforum_page L url) w = Inl e \<longleftrightarrow>
     outcome (get_soup L url) w = Inl e \<or>
     (e = ValueError \<and>
      (\<exists>soup h. outcome (get_soup L url) w = Inr soup \<and> h \<in> set (listing_hrefs L soup) \<and>
         truthy h \<and> url_resolve L BASE_URL (the h) = None))"
  by (cases "outcome (get_soup L url) w")
    (auto simp: parse_subforum_page_eq fetch_then_extract_outcome listing_of_Inl_iff
      collect_urljoin_Inl_iff)

text \<open>
  C13 (error). \<open>parse_topic\<close> raises exactly when the fetch raised, with that
  exception, or when the first next anchor of the fetched page has a non-empty
  \<open>href\<close> that URL resolution rejects, and then with \<open>ValueError\<close>. The posts of a
  page never make it raise: their extraction has a fallback for every field.
\<close>

theorem parse_topic_raises_iff:
  "outcome (parse_topic L url) w = Inl e \<longleftrightarrow>
     outcome (get_soup L url) w = Inl e \<or>
     (e = ValueError \<and>
      (\<exists>soup a as. outcome (get_soup L url) w = Inr soup \<and>
         css_select L soup ''a[rel='next']'' = a # as \<and> truthy (node_attr L a ''href'') \<and>
         url_resolve L BASE_URL (the (node_attr L a ''href'')) = None))"
  by (cases "outcome (get_soup L url) w")
    (auto simp: parse_topic_eq fetch_then_extract_outcome thread_of_Inl_iff next_link_Inl_iff)

text \<open>
  C7 (functional). The next link of a page is \<open>None\<close> exactly when no anchor
  with \<open>rel='next'\<close> is found; otherwise it is a string or \<open>ValueError\<close>, never
  \<open>None\<close>.
\<close>

theorem next_link_None_iff:
  "next_link L soup = Inr None \<longleftrightarrow> css_select L soup ''a[rel='next']'' = []"
  by (cases "css_select L soup ''a[rel='next']''")
    (simp_all add: next_link_def urljoin_not_None)

text \<open>
  C38 (functional). A next anchor without \<open>href\<close> (or with an empty one) does not
  end the pagination: its link resolves to \<open>BASE_URL\<close>, so the crawl continues at
  the forum's front page.
\<close>

theorem next_link_without_href:
  assumes "css_select L soup ''a[rel='next']'' = a # as" and "\<not> truthy (node_attr L a ''href'')"
  shows "next_link L soup = Inr (Some BASE_URL)"
  using assms by (simp add: next_link_Cons)

theorem next_link_without_href_witness:
  "next_link (const_libs [()]) () = Inr (Some BASE_URL)"
  by (rule next_link_without_href [where a = "()" and as = "[]"]) simp_all

end
