(* ===== verification/Fixtures.thy ===== *)
theory Fixtures
  imports Extractors
begin

text \<open>
  A small forum to run the model on. Nothing here models code of the repository:
  it is the test double the examples of the other theories are evaluated against.

  \<^item> \<open>stub_node\<close> is a parsed page that stores, for each selector, the nodes the
    selector matches; \<open>stub_libs\<close> makes a \<open>libs\<close> record of it, with a table from
    response bodies to pages as its HTML parser (one body is rejected, every
    unknown body is an empty page) and a resolver that joins base and reference
    with a slash, unless the reference starts with \<open>//\<close> and opens a bracket it
    does not close.
  \<^item> \<open>static_site\<close> is a site that answers every request for a URL alike, with
    status 404 for a URL it does not know.
  \<^item> \<open>demo_world\<close> is a forum with a listing of three pages of two topics each,
    a topic whose second page fails with status 500, a listing page that links
    to itself, a listing whose second page and a thread whose first page carry a
    link that cannot be resolved, and a URL that \<open>requests\<close> refuses;
    \<open>loop_world\<close> is a site that answers every request with the page that links
    to itself.
  \<^item> \<open>small_world\<close> is a forum of one listing page with two topics of one title
    and one thread; \<open>failing_world\<close> is a forum of three topics whose second thread
    fails on its second page (status 404); \<open>down_world\<close> is a site that cannot be
    reached. All start with an empty disk on which every path can be opened.
\<close>

datatype stub_node =
  Stub (stub_sel: "(string \<times> stub_node list) list") (stub_strs: "string list")
    (stub_attrs: "(string \<times> string) list")

definition stub_libs :: "(string \<times> stub_node) list \<Rightarrow> stub_node libs" where
  "stub_libs pages =
     \<lparr>html_parser = (\<lambda>body.
        if body = ''<![rejected'' then None
        else Some (case map_of pages body of Some n \<Rightarrow> n | None \<Rightarrow> Stub [] [] [])),
      css_select = (\<lambda>n sel. case map_of (stub_sel n) sel of Some ns \<Rightarrow> ns | None \<Rightarrow> []),
      node_strings = stub_strs,
      node_attr = (\<lambda>n a. map_of (stub_attrs n) a),
      url_resolve = (\<lambda>base u.
        if take 2 u = ''//'' \<and> CHR ''['' \<in> set u \<and> CHR '']'' \<notin> set u then None
        else Some (base @ ''/'' @ u))\<rparr>"

definition static_site :: "(string \<times> (exn + response)) list \<Rightarrow> nat \<Rightarrow> string \<Rightarrow> exn + response" where
  "static_site table k u =
     (case map_of table u of Some r \<Rightarrow> r | None \<Rightarrow> Inr \<lparr>status_code = 404, resp_text = []\<rparr>)"

definition ok_page :: "string \<Rightarrow> exn + response" where
  "ok_page body = Inr \<lparr>status_code = 200, resp_text = body\<rparr>"

definition anchor :: "string \<Rightarrow> string \<Rightarrow> stub_node" where
  "anchor label href = Stub [] [label] [(''href'', href)]"

definition text_node :: "string \<Rightarrow> stub_node" where
  "text_node s = Stub [] [s] []"

definition next_anchor :: "string option \<Rightarrow> (string \<times> stub_node list) list" where
  "next_anchor href =
     (case href of None \<Rightarrow> [] | Some h \<Rightarrow> [(''a[rel='next']'', [anchor ''Next'' h])])"

definition listing_page :: "(string \<times> string) list \<Rightarrow> string option \<Rightarrow> stub_node" where
  "listing_page topics href =
     Stub ((''ul.topiclist.topics li dl dt a.topictitle'', map (\<lambda>(t, h). anchor t h) topics)
           # next_anchor href) [] []"

definition post_div :: "string \<Rightarrow> string \<Rightarrow> string \<Rightarrow> stub_node" where
  "post_div a d c =
     Stub [(''.username'', [text_node a]), (''.author'', [text_node d]),
           (''.content'', [text_node c])] [] []"

definition thread_page :: "stub_node list \<Rightarrow> string option \<Rightarrow> stub_node" where
  "thread_page divs href = Stub ((''div.post'', divs) # next_anchor href) [] []"

definition demo_pages :: "(string \<times> stub_node) list" where
  "demo_pages =
     [(''L1'', listing_page [(''  Topic A '', ''a''), (''Topic B'', ''b'')] (Some ''p2'')),
      (''L2'', listing_page [(''Topic C'', ''c''), (''Topic A'', ''d'')] (Some ''p3'')),
      (''L3'', listing_page [(''Topic E'', ''e''), (''Topic F'', ''f'')] None),
      (''LL'', listing_page [(''Again'', ''g'')] (Some ''loop'')),
      (''LS'', listing_page [(''Topic B'', ''b''), ('' Topic B'', ''b'')] None),
      (''LF'', listing_page [(''Topic B'', ''b''), (''Topic A'', ''a''), (''Topic C'', ''b'')] None),
      (''A1'', thread_page [post_div ''alice'' ''Mon'' ''hello'', Stub [] [] []] (Some ''a2'')),
      (''B1'', thread_page [post_div ''bob'' '' Tue '' ''hi''] None),
      (''M1'', listing_page [(''Topic M'', ''m'')] (Some ''m2'')),
      (''M2'', listing_page [(''Topic N'', ''n''), (''Topic X'', ''//[x''), (''Topic O'', ''o'')] None),
      (''T1'', thread_page [post_div ''carol'' ''Wed'' ''hey''] (Some ''//[x''))]"

definition demo_libs :: "stub_node libs" where
  "demo_libs = stub_libs demo_pages"

definition demo_table :: "(string \<times> (exn + response)) list" where
  "demo_table =
     [(SUBFORUM_URL, ok_page ''L1''),
      (BASE_URL @ ''/p2'', ok_page ''L2''),
      (BASE_URL @ ''/p3'', ok_page ''L3''),
      (BASE_URL @ ''/loop'', ok_page ''LL''),
      (BASE_URL @ ''/a'', ok_page ''A1''),
      (BASE_URL @ ''/a2'', Inr \<lparr>status_code = 500, resp_text = ''Server Error''\<rparr>),
      (BASE_URL @ ''/b'', ok_page ''B1''),
      (BASE_URL @ ''/down'', Inl (RequestException ''ConnectionError'')),
      (BASE_URL @ ''/m1'', ok_page ''M1''),
      (BASE_URL @ ''/m2'', ok_page ''M2''),
      (BASE_URL @ ''/t'', ok_page ''T1''),
      (BASE_URL @ ''/mail'', Inl (RequestException ''InvalidSchema''))]"

definition demo_world :: world where
  "demo_world =
     \<lparr>web = static_site demo_table, disk = (\<lambda>path. None), openable = (\<lambda>path. True), trace = []\<rparr>"

definition small_world :: world where
  "small_world =
     \<lparr>web = static_site [(SUBFORUM_URL, ok_page ''LS''), (BASE_URL @ ''/b'', ok_page ''B1'')],
      disk = (\<lambda>path. None), openable = (\<lambda>path. True), trace = []\<rparr>"

definition failing_world :: world where
  "failing_world =
     \<lparr>web = static_site [(SUBFORUM_URL, ok_page ''LF''), (BASE_URL @ ''/b'', ok_page ''B1''),
        (BASE_URL @ ''/a'', ok_page ''A1'')],
      disk = (\<lambda>path. None), openable = (\<lambda>path. True), trace = []\<rparr>"

definition down_world :: world where
  "down_world =
     \<lparr>web = (\<lambda>k u. Inl (RequestException ''ConnectionError'')), disk = (\<lambda>path. None),
      openable = (\<lambda>path. True), trace = []\<rparr>"

definition loop_world :: world where
  "loop_world =
     \<lparr>web = (\<lambda>k u. ok_page ''LL''), disk = (\<lambda>path. None), openable = (\<lambda>path. True), trace = []\<rparr>"

lemmas fixture_defs =
  stub_libs_def static_site_def ok_page_def anchor_def text_node_def next_anchor_def
  listing_page_def post_div_def thread_page_def demo_pages_def demo_libs_def demo_table_def
  demo_world_def loop_world_def small_world_def failing_world_def down_world_def

end
