(* ===== verification/Paginator.thy ===== *)
theory Paginator
  imports Fixtures
begin

text \<open>
  The pagination loops of \<open>net_spider.py\<close>: \<open>scrape_subforum\<close> and \<open>scrape_topic\<close>.

  Both are the same loop over a different page parser: while the current URL is
  usable and fewer than \<open>max_pages\<close> pages were read, print a progress line, parse
  the page, append its records, move to its next link, count the page, sleep. The
  loops are translated one by one (\<open>scrape_subforum_loop\<close>, \<open>scrape_topic_loop\<close>)
  with the sources' variables as arguments, and shown to be instances of one generic
  loop, \<open>paginate\<close>, for which everything is proved once.

  \<^item> Termination: each loop is a \<^theory_text>\<open>function\<close> whose measure is
    \<open>max_pages - pages_scraped\<close>; the cap alone bounds the run, whatever the chain
    of next links does.
  \<^item> \<open>reads_page\<close> is the interface between the loop and a parser: a parser reads
    one page from the oracle at the current request number and records one GET,
    unless \<open>requests\<close> refused the URL.
  \<^item> \<open>visits\<close> is the reference: the pages a run reads, as a pure function of the
    oracle, the first URL and the number of pages allowed. \<open>paginate_run\<close> states
    result and final world of a run in terms of it; the bounds, the order of the
    records, the trace and the exception behaviour follow.
\<close>

section \<open>The loops of the source\<close>

function scrape_subforum_loop ::
  "'n libs \<Rightarrow> int \<Rightarrow> rat \<Rightarrow> topic list \<Rightarrow> pystr \<Rightarrow> int \<Rightarrow> topic list io" where
  "scrape_subforum_loop L max_pages delay all_topics page_url pages_scraped =
     (if truthy page_url \<and> pages_scraped < max_pages then
        bind (py_print (''Scraping subforum page: '' @ py_str page_url)) (\<lambda>_.
        bind (parse_subforum_page L page_url) (\<lambda>(topics, next_page).
        bind (sleep delay) (\<lambda>_.
        scrape_subforum_loop L max_pages delay (all_topics @ topics) next_page
          (pages_scraped + 1))))
      else ret all_topics)"
  by pat_completeness auto
termination
  by (relation "measure (\<lambda>(L, max_pages, delay, all_topics, page_url, pages_scraped).
        nat (max_pages - pages_scraped))") auto

definition scrape_subforum :: "'n libs \<Rightarrow> pystr \<Rightarrow> int \<Rightarrow> rat \<Rightarrow> topic list io" where
  "scrape_subforum L subforum_url max_pages delay =
     scrape_subforum_loop L max_pages delay [] subforum_url 0"

function scrape_topic_loop ::
  "'n libs \<Rightarrow> int \<Rightarrow> rat \<Rightarrow> post list \<Rightarrow> pystr \<Rightarrow> int \<Rightarrow> post list io" where
  "scrape_topic_loop L max_pages delay all_posts current_page_url pages_scraped =
     (if truthy current_page_url \<and> pages_scraped < max_pages then
        bind (py_print (''Scraping topic page: '' @ py_str current_page_url)) (\<lambda>_.
        bind (parse_topic L current_page_url) (\<lambda>(posts, next_page).
        bind (sleep delay) (\<lambda>_.
        scrape_topic_loop L max_pages delay (all_posts @ posts) next_page
          (pages_scraped + 1))))
      else ret all_posts)"
  by pat_completeness auto
termination
  by (relation "measure (\<lambda>(L, max_pages, delay, all_posts, current_page_url, pages_scraped).
        nat (max_pages - pages_scraped))") auto

definition scrape_topic :: "'n libs \<Rightarrow> pystr \<Rightarrow> int \<Rightarrow> rat \<Rightarrow> post list io" where
  "scrape_topic L topic_url max_pages delay =
     scrape_topic_loop L max_pages delay [] topic_url 0"

definition default_max_pages :: int where
  "default_max_pages = 5"

definition default_delay :: rat where
  "default_delay = 1 / 10"

declare scrape_subforum_loop.simps [simp del] scrape_topic_loop.simps [simp del]

section \<open>The generic loop\<close>

function paginate ::
  "(pystr \<Rightarrow> ('a list \<times> pystr) io) \<Rightarrow> (pystr \<Rightarrow> string) \<Rightarrow> int \<Rightarrow> rat \<Rightarrow>
     'a list \<Rightarrow> pystr \<Rightarrow> int \<Rightarrow> 'a list io" where
  "paginate parse msg max_pages delay acc url n =
     (if truthy url \<and> n < max_pages then
        bind (py_print (msg url)) (\<lambda>_.
        bind (parse url) (\<lambda>(records, next_page).
        bind (sleep delay) (\<lambda>_.
        paginate parse msg max_pages delay (acc @ records) next_page (n + 1))))
      else ret acc)"
  by pat_completeness auto
termination
  by (relation "measure (\<lambda>(parse, msg, max_pages, delay, acc, url, n). nat (max_pages - n))")
    auto

declare paginate.simps [simp del]

definition subforum_msg :: "pystr \<Rightarrow> string" where
  "subforum_msg u = ''Scraping subforum page: '' @ py_str u"

definition topic_msg :: "pystr \<Rightarrow> string" where
  "topic_msg u = ''Scraping topic page: '' @ py_str u"

lemma paginate_stop [run_simps]:
  "\<not> (truthy url \<and> n < max_pages) \<Longrightarrow> paginate parse msg max_pages delay acc url n = ret acc"
  by (subst paginate.simps) auto

lemma paginate_step [run_simps]:
  "truthy url \<Longrightarrow> n < max_pages \<Longrightarrow>
     paginate parse msg max_pages delay acc url n =
       bind (py_print (msg url)) (\<lambda>_.
       bind (parse url) (\<lambda>(records, next_page).
       bind (sleep delay) (\<lambda>_.
       paginate parse msg max_pages delay (acc @ records) next_page (n + 1))))"
  by (subst paginate.simps) simp

lemma scrape_subforum_loop_paginate:
  "scrape_subforum_loop L max_pages delay all_topics page_url pages_scraped =
     paginate (parse_subforum_page L) subforum_msg max_pages delay all_topics page_url
       pages_scraped"
proof (induction L max_pages delay all_topics page_url pages_scraped
    rule: scrape_subforum_loop.induct)
  case (1 L max_pages delay all_topics page_url pages_scraped)
  show ?case
    by (subst scrape_subforum_loop.simps, subst paginate.simps)
      (simp add: "1.IH" subforum_msg_def cong: bind_cong)
qed

lemma scrape_topic_loop_paginate:
  "scrape_topic_loop L max_pages delay all_posts current_page_url pages_scraped =
     paginate (parse_topic L) topic_msg max_pages delay all_posts current_page_url
       pages_scraped"
proof (induction L max_pages delay all_posts current_page_url pages_scraped
    rule: scrape_topic_loop.induct)
  case (1 L max_pages delay all_posts current_page_url pages_scraped)
  show ?case
    by (subst scrape_topic_loop.simps, subst paginate.simps)
      (simp add: "1.IH" topic_msg_def cong: bind_cong)
qed

section \<open>The interface to a page parser\<close>

definition reads_page ::
  "(pystr \<Rightarrow> 'a io) \<Rightarrow> ((nat \<Rightarrow> string \<Rightarrow> exn + response) \<Rightarrow> nat \<Rightarrow> string \<Rightarrow> exn + 'a) \<Rightarrow> bool" where
  "reads_page parse pg =
     (\<forall>url w. truthy url \<longrightarrow>
        parse url w =
          (pg (web w) (n_gets w) (the url),
           emits (request_events (pg (web w) (n_gets w) (the url)) (the url) HEADERS) w))"

lemma reads_pageD:
  "reads_page parse pg \<Longrightarrow> truthy url \<Longrightarrow>
     parse url w =
       (pg (web w) (n_gets w) (the url),
        emits (request_events (pg (web w) (n_gets w) (the url)) (the url) HEADERS) w)"
  by (simp add: reads_page_def)

lemma reads_page_subforum [intro, simp]:
  "reads_page (parse_subforum_page L) (page_of (listing_of L) L)"
  by (simp add: reads_page_def parse_subforum_page_truthy)

lemma reads_page_topic [intro, simp]:
  "reads_page (parse_topic L) (page_of (thread_of L) L)"
  by (simp add: reads_page_def parse_topic_truthy)

section \<open>The reference: the pages a run visits\<close>

text \<open>
  \<open>visits pg delay k fuel url\<close> lists the pages a run reads when it starts at
  \<open>url\<close> with \<open>fuel\<close> pages allowed and \<open>k\<close> requests already sent: each with its
  URL and what the parser made of it. The list ends at the first page that fails,
  at the first URL that is not usable, or when the allowance is used up; and after
  the first page if the delay is negative, since \<open>time.sleep\<close> then raises.
  \<open>visits_result\<close> is the run's result and \<open>run_events\<close> its effects: a progress
  line for every visit, a GET unless the visit failed because \<open>requests\<close> refused
  the URL, a sleep if the page was read.
\<close>

type_synonym 'a visit = "string \<times> (exn + 'a list \<times> pystr)"

fun visits ::
  "(nat \<Rightarrow> string \<Rightarrow> exn + 'a list \<times> pystr) \<Rightarrow> rat \<Rightarrow> nat \<Rightarrow> nat \<Rightarrow> pystr \<Rightarrow> 'a visit list" where
  "visits pg delay k 0 url = []"
| "visits pg delay k (Suc fuel) url =
     (if truthy url then
        (case pg k (the url) of
           Inl e \<Rightarrow> [(the url, Inl e)]
         | Inr (records, next_page) \<Rightarrow>
             (the url, Inr (records, next_page)) #
               (if delay < 0 then [] else visits pg delay (Suc k) fuel next_page))
      else [])"

fun visits_result :: "rat \<Rightarrow> 'a visit list \<Rightarrow> exn + 'a list" where
  "visits_result delay [] = Inr []"
| "visits_result delay ((u, Inl e) # vs) = Inl e"
| "visits_result delay ((u, Inr (records, next_page)) # vs) =
     (if delay < 0 then Inl ValueError
      else case visits_result delay vs of Inl e \<Rightarrow> Inl e | Inr rs \<Rightarrow> Inr (records @ rs))"

fun visit_events :: "(pystr \<Rightarrow> string) \<Rightarrow> rat \<Rightarrow> 'a visit \<Rightarrow> event list" where
  "visit_events msg delay (u, Inl e) =
     Print (msg (Some u)) # (if url_refused e then [] else [Get u HEADERS])"
| "visit_events msg delay (u, Inr p) =
     [Print (msg (Some u)), Get u HEADERS] @ (if delay < 0 then [] else [Sleep delay])"

definition run_events :: "(pystr \<Rightarrow> string) \<Rightarrow> rat \<Rightarrow> 'a visit list \<Rightarrow> event list" where
  "run_events msg delay vs = concat (map (visit_events msg delay) vs)"

definition with_acc :: "'a list \<Rightarrow> exn + 'a list \<Rightarrow> exn + 'a list" where
  "with_acc acc r = map_sum id ((@) acc) r"

lemma with_acc_simps [simp]:
  "with_acc acc (Inl e) = Inl e"
  "with_acc acc (Inr rs) = Inr (acc @ rs)"
  "with_acc [] r = r"
  by (cases r; simp add: with_acc_def)+

lemma with_acc_step:
  "with_acc acc (case r of Inl e \<Rightarrow> Inl e | Inr rs \<Rightarrow> Inr (records @ rs)) =
     with_acc (acc @ records) r"
  by (cases r) simp_all

lemma run_events_simps [simp]:
  "run_events msg delay [] = []"
  "run_events msg delay (v # vs) = visit_events msg delay v @ run_events msg delay vs"
  by (simp_all add: run_events_def)

section \<open>One iteration\<close>

lemma parse_round:
  assumes "reads_page parse pg" and "truthy url"
  shows "bind (parse url) k w =
     (case pg (web w) (n_gets w) (the url) of
        Inl e \<Rightarrow> (Inl e, emits (if url_refused e then [] else [Get (the url) HEADERS]) w)
      | Inr p \<Rightarrow> k p (emit (Get (the url) HEADERS) w))"
  using assms by (simp add: bind_apply reads_pageD split: sum.splits)

section \<open>A whole run\<close>

lemma paginate_run_fuel:
  assumes rp: "reads_page parse pg"
  shows "nat (max_pages - n) = fuel \<Longrightarrow>
     paginate parse msg max_pages delay acc url n w =
       (with_acc acc (visits_result delay (visits (pg (web w)) delay (n_gets w) fuel url)),
        emits (run_events msg delay (visits (pg (web w)) delay (n_gets w) fuel url)) w)"
proof (induction fuel arbitrary: acc url n w)
  case 0
  then have "\<not> (truthy url \<and> n < max_pages)" by simp
  then show ?case by (simp add: paginate_stop)
next
  case (Suc fuel)
  then have lt: "n < max_pages" and fuel: "nat (max_pages - (n + 1)) = fuel" by simp_all
  show ?case
  proof (cases "truthy url")
    case False
    then show ?thesis by (simp add: paginate_stop)
  next
    case True
    then obtain u where u: "url = Some u" by (auto dest: truthy_Some)
    show ?thesis
    proof (cases "pg (web w) (n_gets w) u")
      case (Inl e)
      with True lt u show ?thesis
        by (simp add: paginate_step parse_round [OF rp])
    next
      case (Inr p)
      obtain records next_page where p: "p = (records, next_page)" by (cases p)
      show ?thesis
      proof (cases "delay < 0")
        case neg: True
        with True lt u Inr p show ?thesis
          by (simp add: paginate_step parse_round [OF rp] bind_sleep_negative)
      next
        case nonneg: False
        let ?w3 = "emits [Print (msg url), Get u HEADERS, Sleep delay] w"
        have w3: "web ?w3 = web w" "n_gets ?w3 = Suc (n_gets w)" by simp_all
        have "paginate parse msg max_pages delay acc url n w =
            paginate parse msg max_pages delay (acc @ records) next_page (n + 1) ?w3"
          using True lt u Inr p nonneg
          by (simp add: paginate_step parse_round [OF rp] bind_sleep_ok)
        also note Suc.IH [OF fuel, of "acc @ records" next_page ?w3]
        finally show ?thesis
          using True u Inr p nonneg by (simp add: w3 with_acc_step)
      qed
    qed
  qed
qed

lemma paginate_run:
  "reads_page parse pg \<Longrightarrow>
     paginate parse msg max_pages delay acc url n w =
       (with_acc acc
          (visits_result delay (visits (pg (web w)) delay (n_gets w) (nat (max_pages - n)) url)),
        emits (run_events msg delay
          (visits (pg (web w)) delay (n_gets w) (nat (max_pages - n)) url)) w)"
  by (rule paginate_run_fuel) simp_all

section \<open>Properties of the reference\<close>

fun visit_records :: "'a visit \<Rightarrow> 'a list" where
  "visit_records (u, Inl e) = []"
| "visit_records (u, Inr (records, next_page)) = records"

fun visit_ok :: "'a visit \<Rightarrow> bool" where
  "visit_ok (u, Inl e) = False"
| "visit_ok (u, Inr p) = True"

fun visit_sent :: "'a visit \<Rightarrow> bool" where
  "visit_sent (u, Inl e) = (\<not> url_refused e)"
| "visit_sent (u, Inr p) = True"

lemma visits_length: "length (visits pg delay k fuel url) \<le> fuel"
  by (induction fuel arbitrary: k url) (auto split: sum.splits)

lemma visits_falsy [simp]: "\<not> truthy url \<Longrightarrow> visits pg delay k fuel url = []"
  by (cases fuel) simp_all

lemma visits_empty_page:
  "pg k u = Inr ([], next_page) \<Longrightarrow> 0 \<le> delay \<Longrightarrow> u \<noteq> [] \<Longrightarrow>
     visits pg delay k (Suc fuel) (Some u) =
       (u, Inr ([], next_page)) # visits pg delay (Suc k) fuel next_page"
  by simp

lemma gets_visit_events [simp]:
  "gets (visit_events msg delay v) = (if visit_sent v then [Get (fst v) HEADERS] else [])"
  by (cases "(msg, delay, v)" rule: visit_events.cases) simp_all

lemma gets_run_events:
  "gets (run_events msg delay vs) = map (\<lambda>v. Get (fst v) HEADERS) (filter visit_sent vs)"
  by (induction vs) simp_all

lemma gets_run_events_length: "length (gets (run_events msg delay vs)) \<le> length vs"
  by (simp add: gets_run_events)

lemma visit_ok_sent: "visit_ok v \<Longrightarrow> visit_sent v"
  by (cases v rule: visit_ok.cases) simp_all

lemma gets_run_events_ok:
  "list_all visit_ok vs \<Longrightarrow> gets (run_events msg delay vs) = map (\<lambda>v. Get (fst v) HEADERS) vs"
  by (simp add: gets_run_events list_all_iff visit_ok_sent)

lemma sleeps_visit_events [simp]:
  "sleeps (visit_events msg delay v) =
     (if visit_ok v \<and> \<not> delay < 0 then [Sleep delay] else [])"
  by (cases "(msg, delay, v)" rule: visit_events.cases) simp_all

lemma sleeps_run_events:
  "0 \<le> delay \<Longrightarrow>
     sleeps (run_events msg delay vs) = replicate (length (filter visit_ok vs)) (Sleep delay)"
  by (induction vs) simp_all

lemma visits_result_records:
  "visits_result delay vs = Inr rs \<Longrightarrow> rs = concat (map visit_records vs)"
proof (induction delay vs arbitrary: rs rule: visits_result.induct)
  case (1 delay)
  then show ?case by simp
next
  case (2 delay u e vs)
  then show ?case by simp
next
  case (3 delay u records next_page vs)
  then show ?case by (auto split: if_splits sum.splits)
qed

lemma visits_result_all_ok:
  "visits_result delay vs = Inr rs \<Longrightarrow> list_all visit_ok vs"
proof (induction delay vs arbitrary: rs rule: visits_result.induct)
  case (3 delay u records next_page vs)
  then show ?case by (auto split: if_splits sum.splits)
qed simp_all

lemma visits_failed_page:
  "(u, Inl e) \<in> set (visits pg delay k fuel url) \<Longrightarrow>
     visits_result delay (visits pg delay k fuel url) = Inl e"
proof (induction fuel arbitrary: k url)
  case 0
  then show ?case by simp
next
  case (Suc fuel)
  from Suc.prems have t: "truthy url" by (auto split: if_splits)
  show ?case
  proof (cases "pg k (the url)")
    case (Inl e')
    with Suc.prems t show ?thesis by simp
  next
    case (Inr p)
    obtain records next_page where p: "p = (records, next_page)" by (cases p)
    from Suc.prems t Inr p have nonneg: "\<not> delay < 0"
      and mem: "(u, Inl e) \<in> set (visits pg delay (Suc k) fuel next_page)"
      by (auto split: if_splits)
    from Suc.IH [OF mem] t Inr p nonneg show ?thesis by simp
  qed
qed

lemma visits_chain_full:
  assumes ok: "\<And>k u. \<exists>records next_page. pg k u = Inr (records, next_page) \<and> truthy next_page"
    and d: "0 \<le> delay"
  shows "truthy url \<Longrightarrow>
    length (visits pg delay k fuel url) = fuel \<and> list_all visit_ok (visits pg delay k fuel url)"
proof (induction fuel arbitrary: k url)
  case 0
  show ?case by simp
next
  case (Suc fuel)
  from ok obtain records next_page where
    pg: "pg k (the url) = Inr (records, next_page)" and t: "truthy next_page" by blast
  from Suc.IH [OF t] Suc.prems pg d show ?case by simp
qed

lemma visits_result_Inr_iff:
  "visits_result delay vs = Inr rs \<longleftrightarrow>
     rs = concat (map visit_records vs) \<and> list_all visit_ok vs \<and> (delay < 0 \<longrightarrow> vs = [])"
proof (induction delay vs arbitrary: rs rule: visits_result.induct)
  case (3 delay u records next_page vs)
  then show ?case by (cases "visits_result delay vs") auto
qed auto

lemma visits_polite:
  "0 \<le> delay \<Longrightarrow>
     polite delay False (run_events msg delay (visits pg delay k fuel url)) \<and>
     owes delay False (run_events msg delay (visits pg delay k fuel url)) =
       (\<exists>e. visits_result delay (visits pg delay k fuel url) = Inl e \<and> \<not> url_refused e)"
proof (induction fuel arbitrary: k url)
  case 0
  show ?case by simp
next
  case (Suc fuel)
  show ?case
  proof (cases "truthy url")
    case False
    then show ?thesis by simp
  next
    case True
    show ?thesis
    proof (cases "pg k (the url)")
      case (Inl e)
      with True show ?thesis by simp
    next
      case (Inr p)
      obtain records next_page where p: "p = (records, next_page)" by (cases p)
      from Suc.IH [OF Suc.prems, of "Suc k" next_page] True Inr p Suc.prems
      show ?thesis by (auto split: sum.splits)
    qed
  qed
qed

section \<open>Consequences for the generic loop\<close>

lemma paginate_outcome:
  "reads_page parse pg \<Longrightarrow>
     outcome (paginate parse msg max_pages delay acc url n) w =
       with_acc acc
         (visits_result delay (visits (pg (web w)) delay (n_gets w) (nat (max_pages - n)) url))"
  by (simp add: outcome_def paginate_run)

lemma paginate_world:
  "reads_page parse pg \<Longrightarrow>
     world_after (paginate parse msg max_pages delay acc url n) w =
       emits (run_events msg delay
         (visits (pg (web w)) delay (n_gets w) (nat (max_pages - n)) url)) w"
  by (simp add: world_after_def paginate_run)

lemma paginate_request_bound:
  "reads_page parse pg \<Longrightarrow>
     n_gets (world_after (paginate parse msg max_pages delay acc url n) w)
       \<le> n_gets w + nat (max_pages - n)"
  using gets_run_events_length [of msg delay
      "visits (pg (web w)) delay (n_gets w) (nat (max_pages - n)) url"]
    visits_length [of "pg (web w)" delay "n_gets w" "nat (max_pages - n)" url]
  by (simp add: paginate_world)

lemma paginate_web [frame_simps]:
  "reads_page parse pg \<Longrightarrow>
     web (world_after (paginate parse msg max_pages delay acc url n) w) = web w"
  by (simp add: paginate_world)

section \<open>The two loops against the reference\<close>

definition subforum_visits :: "'n libs \<Rightarrow> world \<Rightarrow> pystr \<Rightarrow> int \<Rightarrow> rat \<Rightarrow> topic visit list" where
  "subforum_visits L w subforum_url max_pages delay =
     visits (page_of (listing_of L) L (web w)) delay (n_gets w) (nat max_pages) subforum_url"

definition topic_visits :: "'n libs \<Rightarrow> world \<Rightarrow> pystr \<Rightarrow> int \<Rightarrow> rat \<Rightarrow> post visit list" where
  "topic_visits L w topic_url max_pages delay =
     visits (page_of (thread_of L) L (web w)) delay (n_gets w) (nat max_pages) topic_url"

lemmas scrape_subforum_paginate =
  scrape_subforum_def scrape_subforum_loop_paginate subforum_visits_def

lemmas scrape_topic_paginate =
  scrape_topic_def scrape_topic_loop_paginate topic_visits_def

text \<open>
  C1 (refinement). A call of \<open>scrape_subforum\<close> returns exactly what the reference
  says: its result is the records of the listing pages it visited, in visiting order,
  or the exception of the page that failed; and the world afterwards is the world
  before, extended by one progress line, one GET and one sleep per page read.
\<close>

theorem scrape_subforum_run:
  "scrape_subforum L subforum_url max_pages delay w =
     (visits_result delay (subforum_visits L w subforum_url max_pages delay),
      emits (run_events subforum_msg delay
        (subforum_visits L w subforum_url max_pages delay)) w)"
  by (simp add: scrape_subforum_paginate paginate_run [OF reads_page_subforum])

text \<open>
  C2 (refinement). A call of \<open>scrape_topic\<close> returns exactly what the reference
  says for the pages of one thread: the posts of the pages it visited, in visiting
  order, or the exception of the page that failed; the world afterwards is extended by
  one progress line, one GET and one sleep per page read.
\<close>

theorem scrape_topic_run:
  "scrape_topic L topic_url max_pages delay w =
     (visits_result delay (topic_visits L w topic_url max_pages delay),
      emits (run_events topic_msg delay (topic_visits L w topic_url max_pages delay)) w)"
  by (simp add: scrape_topic_paginate paginate_run [OF reads_page_topic])

text \<open>
  C5 (bounds). Neither \<open>scrape_subforum\<close> nor \<open>scrape_topic\<close> ever sends more than
  \<open>max_pages\<close> requests, whatever the site answers and however its next links are
  chained; with a cap of zero or less they send none.
\<close>

theorem scrape_request_bound:
  "n_gets (world_after (scrape_subforum L subforum_url max_pages delay) w)
     \<le> n_gets w + nat max_pages \<and>
   n_gets (world_after (scrape_topic L topic_url max_pages delay) w) \<le> n_gets w + nat max_pages"
  using paginate_request_bound [OF reads_page_subforum, of L subforum_msg max_pages delay "[]"
      subforum_url 0 w]
    paginate_request_bound [OF reads_page_topic, of L topic_msg max_pages delay "[]"
      topic_url 0 w]
  by (simp add: scrape_subforum_paginate scrape_topic_paginate)

text \<open>
  C14 (error). When a page of a thread fails, \<open>scrape_topic\<close> raises the exception
  of that page. The posts of the pages read before it are not returned: the function
  has no handler, so the accumulated list is lost with the call.
\<close>

theorem scrape_topic_failed_page:
  "(u, Inl e) \<in> set (topic_visits L w topic_url max_pages delay) \<Longrightarrow>
     outcome (scrape_topic L topic_url max_pages delay) w = Inl e"
  by (simp add: scrape_topic_paginate paginate_outcome [OF reads_page_topic] visits_failed_page)

theorem scrape_topic_failed_page_witness:
  "(BASE_URL @ ''/a2'', Inl (HTTPError 500))
       \<in> set (topic_visits demo_libs demo_world (Some (BASE_URL @ ''/a'')) 5 (1 / 10)) \<and>
   outcome (scrape_topic demo_libs (Some (BASE_URL @ ''/a'')) 5 (1 / 10)) demo_world
     = Inl (HTTPError 500)"
proof -
  have h: "(BASE_URL @ ''/a2'', Inl (HTTPError 500))
      \<in> set (topic_visits demo_libs demo_world (Some (BASE_URL @ ''/a'')) 5 (1 / 10))"
    by code_simp
  from scrape_topic_failed_page [OF h] h show ?thesis by simp
qed

text \<open>
  C15 (error). When a listing page fails, \<open>scrape_subforum\<close> raises the exception of
  that page, and the topics collected from the pages before it are lost. In the
  example the second page carries a topic link that \<open>urljoin\<close> rejects: the call
  raises \<open>ValueError\<close>, and the topic of the first page is not returned.
\<close>

theorem scrape_subforum_failed_page:
  "(u, Inl e) \<in> set (subforum_visits L w subforum_url max_pages delay) \<Longrightarrow>
     outcome (scrape_subforum L subforum_url max_pages delay) w = Inl e"
  by (simp add: scrape_subforum_paginate paginate_outcome [OF reads_page_subforum]
      visits_failed_page)

theorem scrape_subforum_failed_page_witness:
  "subforum_visits demo_libs demo_world (Some (BASE_URL @ ''/m1'')) 5 (1 / 10) =
     [(BASE_URL @ ''/m1'', Inr ([(''Topic M'', Some (BASE_URL @ ''/m''))], Some (BASE_URL @ ''/m2''))),
      (BASE_URL @ ''/m2'', Inl ValueError)] \<and>
   outcome (scrape_subforum demo_libs (Some (BASE_URL @ ''/m1'')) 5 (1 / 10)) demo_world
     = Inl ValueError"
proof -
  have vs: "subforum_visits demo_libs demo_world (Some (BASE_URL @ ''/m1'')) 5 (1 / 10) =
     [(BASE_URL @ ''/m1'', Inr ([(''Topic M'', Some (BASE_URL @ ''/m''))], Some (BASE_URL @ ''/m2''))),
      (BASE_URL @ ''/m2'', Inl ValueError)]"
    by code_simp
  then have "(BASE_URL @ ''/m2'', Inl ValueError)
      \<in> set (subforum_visits demo_libs demo_world (Some (BASE_URL @ ''/m1'')) 5 (1 / 10))"
    by simp
  from scrape_subforum_failed_page [OF this] vs show ?thesis by simp
qed

text \<open>
  C29 (functional). \<open>scrape_subforum\<close> and \<open>scrape_topic\<close> return a list exactly
  when every page they visited was read successfully (and, for a negative delay,
  when they visited none); the list is then the concatenation of the pages'
  records in visiting order. A page without records contributes nothing and does
  not end the run.
\<close>

theorem scrape_returns_iff:
  "(outcome (scrape_subforum L subforum_url max_pages delay) w = Inr topics \<longleftrightarrow>
      topics = concat (map visit_records (subforum_visits L w subforum_url max_pages delay)) \<and>
      list_all visit_ok (subforum_visits L w subforum_url max_pages delay) \<and>
      (delay < 0 \<longrightarrow> subforum_visits L w subforum_url max_pages delay = [])) \<and>
   (outcome (scrape_topic L topic_url max_pages delay) w = Inr posts \<longleftrightarrow>
      posts = concat (map visit_records (topic_visits L w topic_url max_pages delay)) \<and>
      list_all visit_ok (topic_visits L w topic_url max_pages delay) \<and>
      (delay < 0 \<longrightarrow> topic_visits L w topic_url max_pages delay = []))"
  by (simp add: scrape_subforum_paginate scrape_topic_paginate
      paginate_outcome [OF reads_page_subforum] paginate_outcome [OF reads_page_topic]
      visits_result_Inr_iff)

theorem scrape_returns_iff_witness:
  "outcome (scrape_subforum demo_libs (Some SUBFORUM_URL) 2 (1 / 10)) demo_world =
     Inr [(''Topic A'', Some (BASE_URL @ ''/a'')), (''Topic B'', Some (BASE_URL @ ''/b'')),
          (''Topic C'', Some (BASE_URL @ ''/c'')), (''Topic A'', Some (BASE_URL @ ''/d''))] \<and>
   outcome (scrape_topic demo_libs (Some (BASE_URL @ ''/b'')) 2 (1 / 10)) demo_world =
     Inr [\<lparr>author = ''bob'', date = ''Tue'', content = ''hi''\<rparr>]"
proof -
  have "[(''Topic A'', Some (BASE_URL @ ''/a'')), (''Topic B'', Some (BASE_URL @ ''/b'')),
         (''Topic C'', Some (BASE_URL @ ''/c'')), (''Topic A'', Some (BASE_URL @ ''/d''))] =
      concat (map visit_records (subforum_visits demo_libs demo_world (Some SUBFORUM_URL) 2 (1 / 10)))
    \<and> list_all visit_ok (subforum_visits demo_libs demo_world (Some SUBFORUM_URL) 2 (1 / 10))
    \<and> ((1 / 10 :: rat) < 0 \<longrightarrow>
         subforum_visits demo_libs demo_world (Some SUBFORUM_URL) 2 (1 / 10) = [])"
    by code_simp
  moreover
  have "[\<lparr>author = ''bob'', date = ''Tue'', content = ''hi''\<rparr>] =
      concat (map visit_records (topic_visits demo_libs demo_world (Some (BASE_URL @ ''/b'')) 2 (1 / 10)))
    \<and> list_all visit_ok (topic_visits demo_libs demo_world (Some (BASE_URL @ ''/b'')) 2 (1 / 10))
    \<and> ((1 / 10 :: rat) < 0 \<longrightarrow>
         topic_visits demo_libs demo_world (Some (BASE_URL @ ''/b'')) 2 (1 / 10) = [])"
    by code_simp
  ultimately show ?thesis
    using scrape_returns_iff [where L = demo_libs and subforum_url = "Some SUBFORUM_URL"
        and topic_url = "Some (BASE_URL @ ''/b'')" and max_pages = 2 and delay = "1 / 10"
        and w = demo_world]
    by blast
qed

text \<open>
  C30 (termination). On a site whose listing pages always succeed and always carry
  a next link (a cyclic or endless chain), \<open>scrape_subforum\<close> still returns: it
  stops after exactly \<open>max_pages\<close> requests.
\<close>

theorem scrape_subforum_endless_chain:
  assumes "\<And>k u. \<exists>records next_page.
      page_of (listing_of L) L (web w) k u = Inr (records, next_page) \<and> truthy next_page"
    and "0 \<le> delay" and "truthy subforum_url"
  shows "n_gets (world_after (scrape_subforum L subforum_url max_pages delay) w)
      = n_gets w + nat max_pages"
  using visits_chain_full [where pg = "page_of (listing_of L) L (web w)", OF assms]
  by (simp add: scrape_subforum_paginate paginate_world [OF reads_page_subforum]
      gets_run_events_ok)

theorem scrape_subforum_endless_chain_witness:
  "n_gets (world_after (scrape_subforum demo_libs (Some (BASE_URL @ ''/loop'')) 3 (1 / 10))
     loop_world) = 3"
proof -
  have "page_of (listing_of demo_libs) demo_libs (web loop_world) k u =
      Inr ([(''Again'', Some (BASE_URL @ ''/g''))], Some (BASE_URL @ ''/loop''))" for k u
    by (simp add: fixture_defs page_of_def fetch_page_def raise_for_status_def listing_of_def
        next_link_def urljoin_def topic_of_link_def get_text_def strip_def lstrip_def
        rstrip_def is_space_def BASE_URL_def BeautifulSoup_def)
  then have "\<And>k u. \<exists>records next_page.
      page_of (listing_of demo_libs) demo_libs (web loop_world) k u = Inr (records, next_page)
        \<and> truthy next_page"
    by simp
  from scrape_subforum_endless_chain [OF this, of "1 / 10" "Some (BASE_URL @ ''/loop'')" 3]
  show ?thesis by (simp add: BASE_URL_def n_gets_def loop_world_def)
qed

text \<open>
  C34 (error). A URL that \<open>requests\<close> refuses costs no request: \<open>scrape_topic\<close>
  prints its progress line and raises the refusal; no GET and no sleep are in the
  trace.
\<close>

theorem scrape_topic_refused_url:
  assumes "truthy topic_url" and "0 < max_pages"
    and "web w (n_gets w) (the topic_url) = Inl e" and "url_refused e"
  shows "scrape_topic L topic_url max_pages delay w =
    (Inl e, emit (Print (topic_msg topic_url)) w)"
proof -
  from assms(2) obtain n where n: "nat max_pages = Suc n"
    by (cases "nat max_pages") auto
  from assms(1) obtain u where u: "topic_url = Some u"
    by (auto dest: truthy_Some)
  from assms(3) have "page_of (thread_of L) L (web w) (n_gets w) (the topic_url) = Inl e"
    by (simp add: page_of_def fetch_page_def)
  with assms(1,4) n u have "topic_visits L w topic_url max_pages delay = [(u, Inl e)]"
    by (simp add: topic_visits_def)
  with assms(4) u show ?thesis
    by (simp add: scrape_topic_paginate paginate_run [OF reads_page_topic])
qed

theorem scrape_topic_refused_url_witness:
  "scrape_topic demo_libs (Some (BASE_URL @ ''/mail'')) 5 (1 / 10) demo_world =
     (Inl (RequestException ''InvalidSchema''),
      emit (Print (topic_msg (Some (BASE_URL @ ''/mail'')))) demo_world)"
proof (rule scrape_topic_refused_url)
  show "web demo_world (n_gets demo_world) (the (Some (BASE_URL @ ''/mail''))) =
      Inl (RequestException ''InvalidSchema'')"
    by code_simp
qed simp_all

text \<open>
  C6 (safety). Politeness of a thread crawl: if the trace so far is polite for the
  delay and no sleep is owed, then after \<open>scrape_topic\<close> the trace is still polite:
  every request but the last is followed by a sleep of that delay before the next
  one. A sleep is owed afterwards exactly when the call raised after a request
  was sent, that is, with an exception other than a refusal of the URL by
  \<open>requests\<close>; a call that returns has slept after its last request too, so that
  the next crawl may start at once.
\<close>

theorem scrape_topic_polite:
  assumes "0 \<le> delay" and "polite delay False (trace w)" and "\<not> owes delay False (trace w)"
  shows "polite delay False (trace (world_after (scrape_topic L topic_url max_pages delay) w)) \<and>
    owes delay False (trace (world_after (scrape_topic L topic_url max_pages delay) w))
      = (\<exists>e. outcome (scrape_topic L topic_url max_pages delay) w = Inl e \<and> \<not> url_refused e)"
  using assms visits_polite [OF assms(1), of topic_msg "page_of (thread_of L) L (web w)"
      "n_gets w" "nat max_pages" topic_url]
  by (simp add: scrape_topic_paginate paginate_world [OF reads_page_topic]
      paginate_outcome [OF reads_page_topic])

theorem scrape_topic_polite_witness:
  "polite (1 / 10) False
     (trace (world_after (scrape_topic demo_libs (Some (BASE_URL @ ''/b'')) 5 (1 / 10)) demo_world)) \<and>
   owes (1 / 10) False
     (trace (world_after (scrape_topic demo_libs (Some (BASE_URL @ ''/b'')) 5 (1 / 10)) demo_world))
     = (\<exists>e. outcome (scrape_topic demo_libs (Some (BASE_URL @ ''/b'')) 5 (1 / 10)) demo_world = Inl e
          \<and> \<not> url_refused e)"
  by (rule scrape_topic_polite) (simp_all add: demo_world_def)

end
