(* ===== verification/Pagination_Machine.thy ===== *)
theory Pagination_Machine
  imports Paginator
begin

text \<open>
  The pagination loop of \<open>scrape_subforum\<close> (lines 107 to 114) seen as a state
  machine: the same loop, one iteration at a time, so that what holds between two
  iterations can be stated and proved by rule induction. It is a second view of the
  loop, not a reference for it; the reference is \<open>visits\<close> of \<open>Paginator\<close>. The
  relation is stated over any parser and progress line, as \<open>paginate\<close> is. Its state
  is what the loop keeps between iterations (the current URL, the number of pages read, the records
  accumulated) together with the world; a configuration is a running state or an
  exception that ended the run.

  \<^item> \<open>page_turn\<close> is one iteration's effects: progress line, page, sleep.
  \<^item> \<open>pag_step\<close> is the transition relation: \<open>advance\<close> when the iteration
    returns, \<open>abort\<close> when it raises; \<open>pag_run\<close> counts the steps of a run.
  \<^item> \<open>conf_result\<close> is what the loop function returns when started in a
    configuration. A step does not change it (\<open>pag_step_result\<close>); therefore the
    function returns the result of the one final configuration the machine reaches
    (\<open>paginate_reaches\<close>, \<open>pag_run_final_result\<close>).
  \<^item> Invariants of runs, by rule induction: the page counter counts the steps and,
    while the run goes on, the requests (a run that was aborted sent at most one
    request per step); the site is not changed, the accumulated records only grow,
    and the counter never passes the cap.
\<close>

section \<open>States, configurations, steps\<close>

record 'a pag_state =
  current_url :: pystr
  pages_visited :: int
  accumulated :: "'a list"

datatype 'a pag_conf = Running "'a pag_state" world | Raised exn world

definition page_turn ::
  "(pystr \<Rightarrow> ('a list \<times> pystr) io) \<Rightarrow> (pystr \<Rightarrow> string) \<Rightarrow> rat \<Rightarrow> pystr \<Rightarrow> ('a list \<times> pystr) io" where
  "page_turn parse msg delay url =
     bind (py_print (msg url)) (\<lambda>_. bind (parse url) (\<lambda>p. bind (sleep delay) (\<lambda>_. ret p)))"

definition can_turn :: "int \<Rightarrow> 'a pag_state \<Rightarrow> bool" where
  "can_turn max_pages s \<longleftrightarrow> truthy (current_url s) \<and> pages_visited s < max_pages"

definition turned :: "'a pag_state \<Rightarrow> 'a list \<times> pystr \<Rightarrow> 'a pag_state" where
  "turned s p =
     \<lparr>current_url = snd p, pages_visited = pages_visited s + 1,
      accumulated = accumulated s @ fst p\<rparr>"

inductive pag_step ::
  "(pystr \<Rightarrow> ('a list \<times> pystr) io) \<Rightarrow> (pystr \<Rightarrow> string) \<Rightarrow> int \<Rightarrow> rat \<Rightarrow>
     'a pag_conf \<Rightarrow> 'a pag_conf \<Rightarrow> bool"
  for parse msg max_pages delay where
  advance:
    "can_turn max_pages s \<Longrightarrow> page_turn parse msg delay (current_url s) w = (Inr p, w') \<Longrightarrow>
       pag_step parse msg max_pages delay (Running s w) (Running (turned s p) w')"
| abort:
    "can_turn max_pages s \<Longrightarrow> page_turn parse msg delay (current_url s) w = (Inl e, w') \<Longrightarrow>
       pag_step parse msg max_pages delay (Running s w) (Raised e w')"

inductive pag_run ::
  "(pystr \<Rightarrow> ('a list \<times> pystr) io) \<Rightarrow> (pystr \<Rightarrow> string) \<Rightarrow> int \<Rightarrow> rat \<Rightarrow>
     'a pag_conf \<Rightarrow> nat \<Rightarrow> 'a pag_conf \<Rightarrow> bool"
  for parse msg max_pages delay where
  run_done: "pag_run parse msg max_pages delay c 0 c"
| run_step:
    "pag_step parse msg max_pages delay c c' \<Longrightarrow> pag_run parse msg max_pages delay c' k c'' \<Longrightarrow>
       pag_run parse msg max_pages delay c (Suc k) c''"

fun pag_final :: "int \<Rightarrow> 'a pag_conf \<Rightarrow> bool" where
  "pag_final max_pages (Running s w) = (\<not> can_turn max_pages s)"
| "pag_final max_pages (Raised e w) = True"

fun result_of :: "'a pag_conf \<Rightarrow> (exn + 'a list) \<times> world" where
  "result_of (Running s w) = (Inr (accumulated s), w)"
| "result_of (Raised e w) = (Inl e, w)"

fun conf_result ::
  "(pystr \<Rightarrow> ('a list \<times> pystr) io) \<Rightarrow> (pystr \<Rightarrow> string) \<Rightarrow> int \<Rightarrow> rat \<Rightarrow>
     'a pag_conf \<Rightarrow> (exn + 'a list) \<times> world" where
  "conf_result parse msg max_pages delay (Running s w) =
     paginate parse msg max_pages delay (accumulated s) (current_url s) (pages_visited s) w"
| "conf_result parse msg max_pages delay (Raised e w) = (Inl e, w)"

definition start :: "pystr \<Rightarrow> 'a pag_state" where
  "start url = \<lparr>current_url = url, pages_visited = 0, accumulated = []\<rparr>"

inductive_cases pag_step_RunningE [elim]: "pag_step parse msg max_pages delay (Running s w) c"
inductive_cases pag_step_RaisedE [elim!]: "pag_step parse msg max_pages delay (Raised e w) c"
inductive_cases pag_run_zeroE [elim!]: "pag_run parse msg max_pages delay c 0 c'"
inductive_cases pag_run_SucE [elim]: "pag_run parse msg max_pages delay c (Suc k) c'"

section \<open>The loop function along the steps\<close>

lemma turned_simps [simp]:
  "current_url (turned s p) = snd p"
  "pages_visited (turned s p) = pages_visited s + 1"
  "accumulated (turned s p) = accumulated s @ fst p"
  by (simp_all add: turned_def)

lemma start_simps [simp]:
  "current_url (start url) = url"
  "pages_visited (start url) = 0"
  "accumulated (start url) = []"
  by (simp_all add: start_def)

lemma paginate_page_turn:
  "truthy url \<Longrightarrow> n < max_pages \<Longrightarrow>
     paginate parse msg max_pages delay acc url n =
       bind (page_turn parse msg delay url)
         (\<lambda>p. paginate parse msg max_pages delay (acc @ fst p) (snd p) (n + 1))"
  by (simp add: paginate_step page_turn_def bind_assoc split_def)

lemma conf_result_final: "pag_final max_pages c \<Longrightarrow> conf_result parse msg max_pages delay c = result_of c"
  by (cases c) (simp_all add: paginate_stop can_turn_def)

lemma pag_step_result:
  "pag_step parse msg max_pages delay c c' \<Longrightarrow>
     conf_result parse msg max_pages delay c = conf_result parse msg max_pages delay c'"
  by (induction rule: pag_step.induct) (simp_all add: can_turn_def paginate_page_turn)

lemma pag_run_result:
  "pag_run parse msg max_pages delay c k c' \<Longrightarrow>
     conf_result parse msg max_pages delay c = conf_result parse msg max_pages delay c'"
  by (induction rule: pag_run.induct) (simp_all add: pag_step_result)

lemma pag_run_final_result:
  "pag_run parse msg max_pages delay c k c' \<Longrightarrow> pag_final max_pages c' \<Longrightarrow>
     result_of c' = conf_result parse msg max_pages delay c"
  by (simp add: pag_run_result conf_result_final)

lemma pag_step_deterministic:
  "pag_step parse msg max_pages delay c c1 \<Longrightarrow> pag_step parse msg max_pages delay c c2 \<Longrightarrow> c1 = c2"
  by (induction rule: pag_step.induct) auto

lemma pag_final_stuck: "pag_final max_pages c \<Longrightarrow> \<not> pag_step parse msg max_pages delay c c'"
  by (cases c) auto

lemma pag_progress:
  "\<not> pag_final max_pages c \<Longrightarrow> \<exists>c'. pag_step parse msg max_pages delay c c'"
proof (cases c)
  case (Running s w)
  assume "\<not> pag_final max_pages c"
  with Running have ct: "can_turn max_pages s" by simp
  show ?thesis
  proof (cases "page_turn parse msg delay (current_url s)" w rule: prog_cases)
    case (Raise e w')
    with ct Running show ?thesis by (auto intro: pag_step.abort)
  next
    case (Return p w')
    with ct Running show ?thesis by (auto intro: pag_step.advance)
  qed
next
  case (Raised e w)
  assume "\<not> pag_final max_pages c"
  with Raised show ?thesis by simp
qed

lemma paginate_reaches_fuel:
  "nat (max_pages - pages_visited s) = fuel \<Longrightarrow>
     \<exists>k c. k \<le> fuel \<and> pag_run parse msg max_pages delay (Running s w) k c \<and>
       pag_final max_pages c"
proof (induction fuel arbitrary: s w)
  case 0
  then have "pag_final max_pages (Running s w)" by (simp add: can_turn_def)
  then show ?case by (blast intro: pag_run.run_done)
next
  case (Suc fuel)
  show ?case
  proof (cases "can_turn max_pages s")
    case False
    then have "pag_final max_pages (Running s w)" by simp
    then show ?thesis by (blast intro: pag_run.run_done)
  next
    case True
    show ?thesis
    proof (cases "page_turn parse msg delay (current_url s)" w rule: prog_cases)
      case (Raise e w')
      with True have "pag_run parse msg max_pages delay (Running s w) (Suc 0) (Raised e w')"
        by (blast intro: pag_run.intros pag_step.abort)
      moreover have "pag_final max_pages (Raised e w')" by simp
      ultimately show ?thesis by (metis Suc_leI zero_less_Suc)
    next
      case (Return p w')
      with True have step: "pag_step parse msg max_pages delay (Running s w) (Running (turned s p) w')"
        by (rule pag_step.advance)
      from Suc.prems have "nat (max_pages - pages_visited (turned s p)) = fuel" by simp
      from Suc.IH [OF this, of w'] obtain k c where
        "k \<le> fuel" "pag_run parse msg max_pages delay (Running (turned s p) w') k c"
        "pag_final max_pages c" by blast
      with step have "Suc k \<le> Suc fuel \<and> pag_run parse msg max_pages delay (Running s w) (Suc k) c
          \<and> pag_final max_pages c"
        by (auto intro: pag_run.run_step)
      then show ?thesis by blast
    qed
  qed
qed

lemma paginate_reaches:
  "\<exists>k c. k \<le> nat (max_pages - pages_visited s) \<and>
     pag_run parse msg max_pages delay (Running s w) k c \<and> pag_final max_pages c \<and>
     result_of c = paginate parse msg max_pages delay (accumulated s) (current_url s)
       (pages_visited s) w"
proof -
  from paginate_reaches_fuel [OF refl] obtain k c where
    *: "k \<le> nat (max_pages - pages_visited s)"
    "pag_run parse msg max_pages delay (Running s w) k c" "pag_final max_pages c"
    by blast
  from pag_run_final_result [OF *(2,3)] * show ?thesis by auto
qed

section \<open>Invariants of runs\<close>

lemma page_turn_falsy:
  "reads_page parse pg \<Longrightarrow> truthy url \<Longrightarrow>
     page_turn parse msg delay url w =
       (case pg (web w) (n_gets w) (the url) of
          Inl e \<Rightarrow>
            (Inl e, emits (Print (msg url) # (if url_refused e then [] else [Get (the url) HEADERS])) w)
        | Inr p \<Rightarrow>
            if delay < 0 then (Inl ValueError, emits [Print (msg url), Get (the url) HEADERS] w)
            else (Inr p, emits [Print (msg url), Get (the url) HEADERS, Sleep delay] w))"
  by (cases "delay < 0")
    (simp_all add: page_turn_def parse_round bind_sleep_negative bind_sleep_ok split: sum.splits)

lemma page_turn_frame:
  assumes "reads_page parse pg" and "truthy url" and "page_turn parse msg delay url w = (r, w')"
  shows "n_gets w' \<le> Suc (n_gets w)" and "web w' = web w"
  using assms(3) unfolding page_turn_falsy [OF assms(1,2)]
  by (auto split: sum.splits if_splits)

lemma page_turn_request:
  assumes "reads_page parse pg" and "truthy url" and "page_turn parse msg delay url w = (Inr p, w')"
  shows "n_gets w' = Suc (n_gets w)"
  using assms(3) unfolding page_turn_falsy [OF assms(1,2)]
  by (auto split: sum.splits if_splits)

definition pag_inv :: "int \<Rightarrow> 'a pag_state \<Rightarrow> world \<Rightarrow> nat \<Rightarrow> 'a pag_conf \<Rightarrow> bool" where
  "pag_inv max_pages s0 w0 k c =
     (case c of
        Running s w \<Rightarrow>
          pages_visited s = pages_visited s0 + int k \<and> n_gets w = n_gets w0 + k \<and>
          web w = web w0 \<and> prefix (accumulated s0) (accumulated s) \<and>
          (k = 0 \<or> pages_visited s \<le> max_pages)
      | Raised e w \<Rightarrow> 0 < k \<and> n_gets w \<le> n_gets w0 + k \<and> web w = web w0)"

lemma pag_inv_start [simp]: "pag_inv max_pages s w 0 (Running s w)"
  by (simp add: pag_inv_def)

lemma pag_inv_step:
  assumes rp: "reads_page parse pg"
    and step: "pag_step parse msg max_pages delay (Running s0 w0) c"
  shows "pag_inv max_pages s0 w0 (Suc 0) c"
  using step
proof cases
  case (advance p w')
  with page_turn_frame [OF rp, of "current_url s0" msg delay w0 "Inr p" w']
    page_turn_request [OF rp, of "current_url s0" msg delay w0 p w']
  show ?thesis by (simp add: pag_inv_def can_turn_def)
next
  case (abort e w')
  with page_turn_frame [OF rp, of "current_url s0" msg delay w0 "Inl e" w']
  show ?thesis by (simp add: pag_inv_def can_turn_def)
qed

lemma pag_inv_trans:
  "pag_inv max_pages s0 w0 j (Running s1 w1) \<Longrightarrow> pag_inv max_pages s1 w1 k c \<Longrightarrow>
     pag_inv max_pages s0 w0 (j + k) c"
  by (cases c) (auto simp: pag_inv_def intro: prefix_order.trans)

lemma pag_run_inv:
  assumes rp: "reads_page parse pg"
  shows "pag_run parse msg max_pages delay c k c' \<Longrightarrow> c = Running s0 w0 \<Longrightarrow>
     pag_inv max_pages s0 w0 k c'"
proof (induction arbitrary: s0 w0 rule: pag_run.induct)
  case (run_done c)
  then show ?case by simp
next
  case (run_step c c' k c'')
  from run_step.hyps(1) run_step.prems have inv1: "pag_inv max_pages s0 w0 1 c'"
    by (simp add: pag_inv_step [OF rp])
  show ?case
  proof (cases c')
    case (Running s1 w1)
    from pag_inv_trans [OF inv1 [unfolded Running] run_step.IH [OF Running]]
    show ?thesis by simp
  next
    case (Raised e w1)
    with run_step.hyps(2) have "k = 0" and "c'' = c'"
      by (auto elim: pag_run.cases)
    with inv1 show ?thesis by simp
  qed
qed

section \<open>The loop of scrape_subforum as a machine\<close>

text \<open>
  C31 (refinement). \<open>scrape_subforum\<close> implements the state machine: from the start
  state the machine reaches a final configuration in at most \<open>max_pages\<close> steps, and
  what \<open>scrape_subforum\<close> returns is the result of that configuration.
\<close>

theorem scrape_subforum_machine:
  "\<exists>k c. k \<le> nat max_pages \<and>
     pag_run (parse_subforum_page L) subforum_msg max_pages delay
       (Running (start subforum_url) w) k c \<and>
     pag_final max_pages c \<and>
     result_of c = scrape_subforum L subforum_url max_pages delay w"
  using paginate_reaches [of max_pages "start subforum_url" "parse_subforum_page L" subforum_msg
      delay w]
  by (simp add: scrape_subforum_def scrape_subforum_loop_paginate)

text \<open>
  C32 (invariant). In every state a run of \<open>scrape_subforum\<close>'s machine reaches
  after \<open>k\<close> steps, the page counter is \<open>k\<close>, exactly \<open>k\<close> requests were sent, the
  site is unchanged, and the counter has not passed the cap.
\<close>

theorem scrape_subforum_invariant:
  assumes "pag_run (parse_subforum_page L) subforum_msg max_pages delay
      (Running (start subforum_url) w0) k (Running s w)"
  shows "pages_visited s = int k \<and> n_gets w = n_gets w0 + k \<and> web w = web w0 \<and>
    (k = 0 \<or> pages_visited s \<le> max_pages)"
  using pag_run_inv [OF reads_page_subforum assms refl] by (auto simp: pag_inv_def)

theorem scrape_subforum_invariant_witness:
  "\<exists>s w. pag_run (parse_subforum_page demo_libs) subforum_msg 2 (1 / 10)
       (Running (start (Some SUBFORUM_URL)) demo_world) 1 (Running s w) \<and>
     pages_visited s = 1 \<and> n_gets w = 1 \<and> web w = web demo_world \<and> pages_visited s \<le> 2"
proof -
  let ?turn = "page_turn (parse_subforum_page demo_libs) subforum_msg (1 / 10) (Some SUBFORUM_URL)"
  let ?p = "([(''Topic A'', Some (BASE_URL @ ''/a'')), (''Topic B'', Some (BASE_URL @ ''/b''))],
    Some (BASE_URL @ ''/p2''))"
  let ?s = "turned (start (Some SUBFORUM_URL)) ?p"
  let ?w = "world_after ?turn demo_world"
  have out: "outcome ?turn demo_world = Inr ?p"
    by code_simp
  have turn: "?turn demo_world = (Inr ?p, ?w)"
    by (subst out [symmetric]) (rule prog_eq)
  have "can_turn 2 (start (Some SUBFORUM_URL))"
    by (simp add: can_turn_def SUBFORUM_URL_def)
  then have "pag_step (parse_subforum_page demo_libs) subforum_msg 2 (1 / 10)
      (Running (start (Some SUBFORUM_URL)) demo_world) (Running ?s ?w)"
    by (rule pag_step.advance) (simp only: start_simps turn)
  then have run: "pag_run (parse_subforum_page demo_libs) subforum_msg 2 (1 / 10)
      (Running (start (Some SUBFORUM_URL)) demo_world) (Suc 0) (Running ?s ?w)"
    by (rule pag_run.run_step) (rule pag_run.run_done)
  have zero: "n_gets demo_world = 0"
    by (simp add: n_gets_def demo_world_def)
  from scrape_subforum_invariant [OF run] zero
  have "pages_visited ?s = 1 \<and> n_gets ?w = 1 \<and> web ?w = web demo_world \<and> pages_visited ?s \<le> 2"
    by simp
  with run have "pag_run (parse_subforum_page demo_libs) subforum_msg 2 (1 / 10)
      (Running (start (Some SUBFORUM_URL)) demo_world) 1 (Running ?s ?w) \<and>
    pages_visited ?s = 1 \<and> n_gets ?w = 1 \<and> web ?w = web demo_world \<and> pages_visited ?s \<le> 2"
    by simp
  then show ?thesis by blast
qed

end
