(* ===== verification/Json_Value.thy ===== *)
theory Json_Value
  imports Python_Base
begin

text \<open>
  The values \<open>json.load\<close> produces, and the three things \<open>data_parser.py\<close> does with
  them: iterate (\<open>for post in posts\<close>), subscript with a string (\<open>post['title']\<close>)
  and test membership in a set (\<open>title not in seen_titles\<close>).

  \<^item> \<open>json\<close>: \<open>None\<close>, \<open>bool\<close>, \<open>int\<close>, \<open>float\<close> (its finite values as
    rationals in \<open>JFloat\<close>; the three values the decoder returns for the constants
    \<open>NaN\<close>, \<open>Infinity\<close> and \<open>-Infinity\<close> as \<open>JNaN\<close>, \<open>JInfinity\<close> and
    \<open>JNegInfinity\<close>), \<open>str\<close>, \<open>list\<close> and \<open>dict\<close>. A dict is given by the
    items of its JSON text: \<open>JObj kvs\<close> is the dict the decoder builds from them,
    \<open>dict(kvs)\<close>, in which a key that is repeated keeps its first position and its
    last value. \<open>wf_json\<close> says that no key is repeated anywhere in a value; then
    \<open>kvs\<close> are the dict's items in insertion order.
  \<^item> \<open>py_iter\<close>: a list yields its elements, a dict its keys, a string its
    characters; anything else is not iterable.
  \<^item> \<open>py_getitem\<close>: a dict yields the value or \<open>KeyError\<close>; a list or string
    refuses a string index and the other values are not subscriptable
    (\<open>TypeError\<close>).
  \<^item> \<open>py_hash\<close>: what a set compares. Lists and dicts are unhashable
    (\<open>TypeError\<close>); two hashable values are the same set element exactly when their
    keys are equal. Python's numbers compare by value across \<open>bool\<close>, \<open>int\<close> and
    \<open>float\<close>, so \<open>True\<close>, \<open>1\<close> and \<open>1.0\<close> have one key. The infinities are
    equal to themselves only. \<open>NaN\<close> is not equal to itself, but the decoder returns
    one object for every \<open>NaN\<close> of a text and a set looks at identity before
    equality: all \<open>NaN\<close>s of a loaded value are one set element.
\<close>

datatype json =
    JNull
  | JBool bool
  | JInt int
  | JFloat rat
  | JStr string
  | JArr "json list"
  | JObj "(string \<times> json) list"
  | JNaN
  | JInfinity
  | JNegInfinity

datatype pykey = KNone | KNum rat | KStr string | KNaN | KInfinity | KNegInfinity

fun py_hash :: "json \<Rightarrow> exn + pykey" where
  "py_hash JNull = Inr KNone"
| "py_hash (JBool b) = Inr (KNum (if b then 1 else 0))"
| "py_hash (JInt i) = Inr (KNum (of_int i))"
| "py_hash (JFloat q) = Inr (KNum q)"
| "py_hash (JStr s) = Inr (KStr s)"
| "py_hash (JArr xs) = Inl TypeError"
| "py_hash (JObj kvs) = Inl TypeError"
| "py_hash JNaN = Inr KNaN"
| "py_hash JInfinity = Inr KInfinity"
| "py_hash JNegInfinity = Inr KNegInfinity"

fun py_iter :: "json \<Rightarrow> exn + json list" where
  "py_iter (JArr xs) = Inr xs"
| "py_iter (JObj kvs) = Inr (map (\<lambda>kv. JStr (fst kv)) (first_by fst kvs))"
| "py_iter (JStr s) = Inr (map (\<lambda>c. JStr [c]) s)"
| "py_iter JNull = Inl TypeError"
| "py_iter (JBool b) = Inl TypeError"
| "py_iter (JInt i) = Inl TypeError"
| "py_iter (JFloat q) = Inl TypeError"
| "py_iter JNaN = Inl TypeError"
| "py_iter JInfinity = Inl TypeError"
| "py_iter JNegInfinity = Inl TypeError"

fun py_getitem :: "json \<Rightarrow> string \<Rightarrow> exn + json" where
  "py_getitem (JObj kvs) k =
     (case map_of (rev kvs) k of None \<Rightarrow> Inl (KeyError k) | Some v \<Rightarrow> Inr v)"
| "py_getitem (JArr xs) k = Inl TypeError"
| "py_getitem (JStr s) k = Inl TypeError"
| "py_getitem JNull k = Inl TypeError"
| "py_getitem (JBool b) k = Inl TypeError"
| "py_getitem (JInt i) k = Inl TypeError"
| "py_getitem (JFloat q) k = Inl TypeError"
| "py_getitem JNaN k = Inl TypeError"
| "py_getitem JInfinity k = Inl TypeError"
| "py_getitem JNegInfinity k = Inl TypeError"

fun wf_json :: "json \<Rightarrow> bool" where
  "wf_json (JArr xs) = list_all wf_json xs"
| "wf_json (JObj kvs) = (distinct (map fst kvs) \<and> list_all (\<lambda>kv. wf_json (snd kv)) kvs)"
| "wf_json JNull = True"
| "wf_json (JBool b) = True"
| "wf_json (JInt i) = True"
| "wf_json (JFloat q) = True"
| "wf_json (JStr s) = True"
| "wf_json JNaN = True"
| "wf_json JInfinity = True"
| "wf_json JNegInfinity = True"

section \<open>Lemmas\<close>

lemma py_hash_Inr_iff:
  "(\<exists>k. py_hash v = Inr k) \<longleftrightarrow> (\<forall>xs. v \<noteq> JArr xs) \<and> (\<forall>kvs. v \<noteq> JObj kvs)"
  by (cases v) simp_all

lemma py_hash_numbers [simp]:
  "py_hash (JBool True) = py_hash (JInt 1)"
  "py_hash (JBool False) = py_hash (JInt 0)"
  "py_hash (JFloat (of_int i)) = py_hash (JInt i)"
  by simp_all

lemma py_hash_str_inj: "py_hash (JStr s) = py_hash (JStr t) \<longleftrightarrow> s = t"
  by simp

lemma py_hash_str_not_number:
  "py_hash (JStr s) \<noteq> py_hash (JInt i)" "py_hash (JStr s) \<noteq> py_hash JNull"
  by simp_all

lemma py_getitem_Inr_iff:
  "py_getitem v k = Inr x \<longleftrightarrow> (\<exists>kvs. v = JObj kvs \<and> map_of (rev kvs) k = Some x)"
  by (cases v) (auto split: option.splits)

lemma py_getitem_missing:
  "k \<notin> fst ` set kvs \<Longrightarrow> py_getitem (JObj kvs) k = Inl (KeyError k)"
  by (simp add: map_of_eq_None_iff [THEN iffD2])

lemma py_getitem_distinct:
  "distinct (map fst kvs) \<Longrightarrow>
     py_getitem (JObj kvs) k = (case map_of kvs k of None \<Rightarrow> Inl (KeyError k) | Some v \<Rightarrow> Inr v)"
  by (simp add: map_of_rev_distinct)

lemma py_iter_distinct:
  "distinct (map fst kvs) \<Longrightarrow> py_iter (JObj kvs) = Inr (map (\<lambda>kv. JStr (fst kv)) kvs)"
  by (simp add: first_by_distinct)

lemma py_getitem_wf: "wf_json v \<Longrightarrow> py_getitem v k = Inr x \<Longrightarrow> wf_json x"
  by (force simp: py_getitem_Inr_iff list_all_iff dest!: map_of_SomeD)

lemma py_iter_wf: "wf_json v \<Longrightarrow> py_iter v = Inr xs \<Longrightarrow> list_all wf_json xs"
  by (cases v) (auto simp: list_all_iff)

end
