(* ===== verification/Dedup.thy ===== *)
theory Dedup
  imports Json_Value "HOL-Library.Sublist"
begin

text \<open>
  The Deduplicator of \<open>data_parser.py\<close>: the loop of \<open>remove_repetitions\<close> that
  keeps the first entry of every title.

  \<^item> \<open>unique_loop\<close> is the \<open>for\<close> loop with its two variables, the set of seen
    titles and the list of kept entries; \<open>unique_posts_of\<close> is the loop started on
    a loaded value with both empty. Every way the loop can raise is a result:
    the loaded value is not iterable, an entry is not a dict, an entry has no
    title, a title is unhashable.
  \<^item> \<open>title_key\<close> is what the loop compares of an entry: the set key of its title,
    or the exception that looking it up raises.
  \<^item> The reference is \<open>first_by title_key\<close>. \<open>unique_loop_eq\<close> relates the loop
    with any seen set and any kept list to it; the properties of the result (one
    entry per title, a subsequence of the input, no title lost, idempotence, the
    first entry of a title kept) are those of \<open>first_by\<close>.
\<close>

section \<open>The loop\<close>

fun unique_loop :: "json list \<Rightarrow> pykey set \<Rightarrow> json list \<Rightarrow> exn + json list" where
  "unique_loop [] seen_titles unique_posts = Inr unique_posts"
| "unique_loop (post # posts) seen_titles unique_posts =
     (case py_getitem post ''title'' of
        Inl e \<Rightarrow> Inl e
      | Inr title \<Rightarrow>
          (case py_hash title of
             Inl e \<Rightarrow> Inl e
           | Inr k \<Rightarrow>
               if k \<notin> seen_titles
               then unique_loop posts (insert k seen_titles) (unique_posts @ [post])
               else unique_loop posts seen_titles unique_posts))"

definition unique_posts_of :: "json \<Rightarrow> exn + json list" where
  "unique_posts_of posts =
     (case py_iter posts of Inl e \<Rightarrow> Inl e | Inr xs \<Rightarrow> unique_loop xs {} [])"

section \<open>The key of an entry\<close>

definition title_key :: "json \<Rightarrow> exn + pykey" where
  "title_key post =
     (case py_getitem post ''title'' of Inl e \<Rightarrow> Inl e | Inr title \<Rightarrow> py_hash title)"

definition entry :: "json \<Rightarrow> json list \<Rightarrow> json" where
  "entry title chat = JObj [(''title'', title), (''chat'', JArr chat)]"

lemma title_key_entry [simp]: "title_key (entry title chat) = py_hash title"
  by (simp add: title_key_def entry_def)

lemma title_key_cases:
  obtains (NoTitle) e where "py_getitem post ''title'' = Inl e" "title_key post = Inl e"
  | (Unhashable) title e where "py_getitem post ''title'' = Inr title" "py_hash title = Inl e"
      "title_key post = Inl e"
  | (Key) title k where "py_getitem post ''title'' = Inr title" "py_hash title = Inr k"
      "title_key post = Inr k"
  by (cases "py_getitem post ''title''"; cases "py_hash (projr (py_getitem post ''title''))")
    (auto simp: title_key_def)

lemma title_key_str [simp]: "title_key (JStr s) = Inl TypeError"
  by (simp add: title_key_def)

lemma title_key_not_dict:
  "(\<forall>kvs. post \<noteq> JObj kvs) \<Longrightarrow> title_key post = Inl TypeError"
  by (cases post) (simp_all add: title_key_def)

lemma title_key_no_title:
  "''title'' \<notin> fst ` set kvs \<Longrightarrow> title_key (JObj kvs) = Inl (KeyError ''title'')"
  by (simp add: title_key_def py_getitem_missing del: py_getitem.simps)

section \<open>The loop against the reference\<close>

lemma unique_loop_step:
  "unique_loop (post # posts) seen acc =
     (case title_key post of
        Inl e \<Rightarrow> Inl e
      | Inr k \<Rightarrow> if k \<notin> seen then unique_loop posts (insert k seen) (acc @ [post])
                 else unique_loop posts seen acc)"
  by (cases post rule: title_key_cases) simp_all

declare unique_loop.simps(2) [simp del]

lemma unique_loop_error:
  "collect title_key xs = Inl e \<Longrightarrow> unique_loop xs seen acc = Inl e"
proof (induction xs arbitrary: seen acc)
  case Nil
  then show ?case by simp
next
  case (Cons x xs)
  then show ?case
    by (cases "title_key x") (auto simp: unique_loop_step split: sum.splits)
qed

lemma unique_loop_eq:
  "collect title_key xs = Inr ks \<Longrightarrow>
     unique_loop xs seen acc =
       Inr (acc @ first_by title_key (filter (\<lambda>x. title_key x \<notin> Inr ` seen) xs))"
proof (induction xs arbitrary: ks seen acc)
  case Nil
  then show ?case by simp
next
  case (Cons x xs)
  from Cons.prems obtain k ks' where k: "title_key x = Inr k" and ks': "collect title_key xs = Inr ks'"
    by (auto split: sum.splits)
  have insert: "filter (\<lambda>y. title_key y \<notin> Inr ` insert k seen) xs =
      filter (\<lambda>y. title_key y \<noteq> title_key x) (filter (\<lambda>y. title_key y \<notin> Inr ` seen) xs)"
    using k by (auto intro: filter_cong)
  show ?case
  proof (cases "k \<in> seen")
    case True
    with k Cons.IH [OF ks', of seen acc] show ?thesis
      by (simp add: unique_loop_step)
  next
    case False
    with k Cons.IH [OF ks', of "insert k seen" "acc @ [x]"] insert show ?thesis
      by (simp add: unique_loop_step image_iff)
  qed
qed

lemma unique_loop_reference:
  "unique_loop xs {} [] =
     (case collect title_key xs of Inl e \<Rightarrow> Inl e | Inr ks \<Rightarrow> Inr (first_by title_key xs))"
  by (cases "collect title_key xs") (simp_all add: unique_loop_error unique_loop_eq)

lemma unique_posts_of_list [simp]: "unique_posts_of (JArr xs) = unique_loop xs {} []"
  by (simp add: unique_posts_of_def)

lemma unique_posts_of_Inr:
  "unique_posts_of (JArr xs) = Inr ys \<longleftrightarrow>
     (\<exists>ks. collect title_key xs = Inr ks) \<and> ys = first_by title_key xs"
  by (auto simp: unique_loop_reference split: sum.splits)

lemma unique_posts_of_InrD:
  assumes "unique_posts_of posts = Inr ys"
  obtains xs ks where "py_iter posts = Inr xs" "collect title_key xs = Inr ks"
    "ys = first_by title_key xs"
proof -
  from assms obtain xs where it: "py_iter posts = Inr xs" and loop: "unique_loop xs {} [] = Inr ys"
    by (auto simp: unique_posts_of_def split: sum.splits)
  from loop obtain ks where "collect title_key xs = Inr ks" "ys = first_by title_key xs"
    by (auto simp: unique_loop_reference split: sum.splits)
  with it that show ?thesis by blast
qed

lemma collect_first_by:
  assumes "collect key xs = Inr ks"
  shows "\<exists>ks'. collect key (first_by key xs) = Inr ks'"
proof -
  from assms have "\<forall>x \<in> set xs. \<exists>k. key x = Inr k"
    using collect_ok_iff [of key xs] by blast
  with set_first_by_subset [of key xs] have "\<forall>x \<in> set (first_by key xs). \<exists>k. key x = Inr k"
    by blast
  then show ?thesis by (simp add: collect_ok_iff)
qed

section \<open>Examples\<close>

definition bug_report_posts :: "json list" where
  "bug_report_posts =
     [entry (JStr ''Bug report'') [JStr ''first''],
      entry (JStr ''Help'') [],
      entry (JStr ''Bug report'') [JStr ''second'']]"

lemma unique_posts_bug_report:
  "unique_posts_of (JArr bug_report_posts) =
     Inr [entry (JStr ''Bug report'') [JStr ''first''], entry (JStr ''Help'') []]"
  by (simp add: bug_report_posts_def unique_loop_step)

section \<open>Properties\<close>

text \<open>
  C3 (equivalence). On a list, the loop of \<open>remove_repetitions\<close> computes the
  reference: if looking up and hashing the title succeeds for every entry, the
  result is the entries that are the first with their title, in their order;
  otherwise it is the exception of the first entry for which it fails.
\<close>

theorem unique_posts_of_reference:
  "unique_posts_of (JArr xs) =
     (case collect title_key xs of Inl e \<Rightarrow> Inl e | Inr ks \<Rightarrow> Inr (first_by title_key xs))"
  by (simp add: unique_loop_reference)

text \<open>
  C24 (invariant). The entries \<open>remove_repetitions\<close> keeps have pairwise different
  titles.
\<close>

theorem unique_posts_distinct_titles:
  "unique_posts_of posts = Inr ys \<Longrightarrow> distinct (map title_key ys)"
  by (erule unique_posts_of_InrD) (simp add: distinct_first_by)

theorem unique_posts_distinct_titles_witness:
  "distinct (map title_key [entry (JStr ''Bug report'') [JStr ''first''], entry (JStr ''Help'') []])"
  by (rule unique_posts_distinct_titles [OF unique_posts_bug_report])

text \<open>
  C25 (functional). The kept entries are a subsequence of the input (nothing is
  reordered, added or changed), and no title of the input is lost.
\<close>

theorem unique_posts_subseq:
  "unique_posts_of (JArr xs) = Inr ys \<Longrightarrow>
     subseq ys xs \<and> title_key ` set ys = title_key ` set xs"
  by (auto simp: unique_posts_of_Inr subseq_first_by keys_first_by simp del: unique_posts_of_list)

theorem unique_posts_subseq_witness:
  "subseq [entry (JStr ''Bug report'') [JStr ''first''], entry (JStr ''Help'') []] bug_report_posts \<and>
   title_key ` set [entry (JStr ''Bug report'') [JStr ''first''], entry (JStr ''Help'') []]
     = title_key ` set bug_report_posts"
  by (rule unique_posts_subseq [OF unique_posts_bug_report])

text \<open>
  C26 (equivalence). Removing repetitions twice is the same as removing them once.
\<close>

theorem unique_posts_idempotent:
  "unique_posts_of posts = Inr ys \<Longrightarrow> unique_posts_of (JArr ys) = Inr ys"
proof (erule unique_posts_of_InrD)
  fix xs ks
  assume "collect title_key xs = Inr ks" and ys: "ys = first_by title_key xs"
  then obtain ks' where "collect title_key ys = Inr ks'"
    using collect_first_by [of title_key xs ks] by blast
  with ys show ?thesis by (simp add: unique_loop_reference)
qed

theorem unique_posts_idempotent_witness:
  "unique_posts_of (JArr [entry (JStr ''Bug report'') [JStr ''first''], entry (JStr ''Help'') []])
     = Inr [entry (JStr ''Bug report'') [JStr ''first''], entry (JStr ''Help'') []]"
  by (rule unique_posts_idempotent [OF unique_posts_bug_report])

text \<open>
  C27 (functional). Of the entries with one title, the first of the input is the
  one that is kept, whatever the later ones contain.
\<close>

theorem unique_posts_first_kept:
  "unique_posts_of (JArr xs) = Inr ys \<Longrightarrow>
     List.find (\<lambda>p. title_key p = k) ys = List.find (\<lambda>p. title_key p = k) xs"
  by (auto simp: unique_posts_of_Inr find_first_by simp del: unique_posts_of_list)

theorem unique_posts_first_kept_witness:
  "List.find (\<lambda>p. title_key p = Inr (KStr ''Bug report''))
       [entry (JStr ''Bug report'') [JStr ''first''], entry (JStr ''Help'') []]
     = Some (entry (JStr ''Bug report'') [JStr ''first''])"
  using unique_posts_first_kept [OF unique_posts_bug_report, of "Inr (KStr ''Bug report'')"]
  by (simp add: bug_report_posts_def)

text \<open>
  C28 (error). \<open>remove_repetitions\<close> raises on a list exactly when some entry has
  no usable title (it is not a dict, has no key \<open>title\<close>, or its title is a list or
  a dict); the exception is that of the first such entry.
\<close>

theorem unique_posts_error:
  "unique_posts_of (JArr xs) = Inl e \<longleftrightarrow>
     (\<exists>ys x zs ks. xs = ys @ x # zs \<and> title_key x = Inl e \<and> collect title_key ys = Inr ks)"
proof
  assume "unique_posts_of (JArr xs) = Inl e"
  then have "collect title_key xs = Inl e"
    by (auto simp: unique_loop_reference split: sum.splits)
  then show "\<exists>ys x zs ks. xs = ys @ x # zs \<and> title_key x = Inl e \<and> collect title_key ys = Inr ks"
    by (rule collect_Inl_D)
next
  assume "\<exists>ys x zs ks. xs = ys @ x # zs \<and> title_key x = Inl e \<and> collect title_key ys = Inr ks"
  then have "collect title_key xs = Inl e"
    by (auto intro: collect_Inl_I)
  then show "unique_posts_of (JArr xs) = Inl e"
    by (simp add: unique_loop_error)
qed

text \<open>
  C39 (error). A loaded value that is a dict and not a list is not refused as
  such: its keys are iterated, so an empty dict yields the empty list and any
  other dict raises \<open>TypeError\<close> at its first key.
\<close>

theorem unique_posts_of_dict:
  "unique_posts_of (JObj kvs) = (if kvs = [] then Inr [] else Inl TypeError)"
  by (cases kvs) (simp_all add: unique_posts_of_def unique_loop_step)

end
