(* ===== verification/Json_Text.thy ===== *)
theory Json_Text
  imports Json_Value
begin

text \<open>
  The text \<open>json.dump(obj, file, indent=4)\<close> writes for a value: the encoder of the
  standard library with its defaults (\<open>ensure_ascii\<close>, item separator \<open>,\<close> and
  key separator \<open>: \<close> when an indent is given, keys in insertion order).

  \<^item> \<open>escape_char\<close> and \<open>encode_str\<close>: a string between double quotes, in which the
    quote, the backslash and every character outside the printable ASCII range
    \<open>32 .. 126\<close> are escaped (two-character escapes for backspace, form feed,
    newline, carriage return and tab, \<open>\u\<close> with four hexadecimal digits
    otherwise). Characters are code points below 256.
  \<^item> The three floats that are not finite are written as \<open>NaN\<close>, \<open>Infinity\<close> and
    \<open>-Infinity\<close> (\<open>allow_nan\<close> is on by default).
  \<^item> \<open>dumps fr ind level v\<close>: the text of \<open>v\<close> at nesting depth \<open>level\<close> with
    \<open>ind\<close> spaces per level. An empty list or dict is \<open>[]\<close> or \<open>{}\<close>; otherwise
    every item is on a line of its own. \<open>fr\<close> is \<open>float.__repr__\<close>, a parameter:
    the documents of the crawler contain no float (\<open>float_free\<close>), and then the
    text does not depend on it.
  \<^item> The lemmas: the text is never empty, an object's text starts with a brace
    and ends with one, a list's with brackets, and the text of a value without
    floats consists of printable ASCII characters and newlines only.
\<close>

section \<open>Strings\<close>

definition hex4 :: "nat \<Rightarrow> string" where
  "hex4 n =
     [digit_char (n div 4096 mod 16), digit_char (n div 256 mod 16),
      digit_char (n div 16 mod 16), digit_char (n mod 16)]"

definition printable :: "char \<Rightarrow> bool" where
  "printable c \<longleftrightarrow> 32 \<le> (of_char c :: nat) \<and> (of_char c :: nat) \<le> 126"

definition escape_char :: "char \<Rightarrow> string" where
  "escape_char c =
     (if c = CHR 0x22 then [CHR 0x5C, CHR 0x22]
      else if c = CHR 0x5C then [CHR 0x5C, CHR 0x5C]
      else if c = CHR 0x08 then [CHR 0x5C, CHR ''b'']
      else if c = CHR 0x0C then [CHR 0x5C, CHR ''f'']
      else if c = CHR 0x0A then [CHR 0x5C, CHR ''n'']
      else if c = CHR 0x0D then [CHR 0x5C, CHR ''r'']
      else if c = CHR 0x09 then [CHR 0x5C, CHR ''t'']
      else if printable c then [c]
      else CHR 0x5C # CHR ''u'' # hex4 (of_char c))"

definition encode_str :: "string \<Rightarrow> string" where
  "encode_str s = CHR 0x22 # concat (map escape_char s) @ [CHR 0x22]"

section \<open>Values\<close>

fun join :: "string \<Rightarrow> string list \<Rightarrow> string" where
  "join sep [] = []"
| "join sep [x] = x"
| "join sep (x # y # ys) = x @ sep @ join sep (y # ys)"

definition newline_indent :: "nat \<Rightarrow> nat \<Rightarrow> string" where
  "newline_indent ind level = CHR 0x0A # replicate (ind * level) CHR '' ''"

fun dumps :: "(rat \<Rightarrow> string) \<Rightarrow> nat \<Rightarrow> nat \<Rightarrow> json \<Rightarrow> string" where
  "dumps fr ind level JNull = ''null''"
| "dumps fr ind level (JBool b) = (if b then ''true'' else ''false'')"
| "dumps fr ind level (JInt i) = str_int i"
| "dumps fr ind level (JFloat q) = fr q"
| "dumps fr ind level (JStr s) = encode_str s"
| "dumps fr ind level (JArr xs) =
     (if xs = [] then ''[]''
      else ''['' @ newline_indent ind (level + 1) @
        join ('','' @ newline_indent ind (level + 1)) (map (dumps fr ind (level + 1)) xs) @
        newline_indent ind level @ '']'')"
| "dumps fr ind level (JObj kvs) =
     (if kvs = [] then ''{}''
      else ''{'' @ newline_indent ind (level + 1) @
        join ('','' @ newline_indent ind (level + 1))
          (map (\<lambda>kv. encode_str (fst kv) @ '': '' @ dumps fr ind (level + 1) (snd kv)) kvs) @
        newline_indent ind level @ ''}'')"
| "dumps fr ind level JNaN = ''NaN''"
| "dumps fr ind level JInfinity = ''Infinity''"
| "dumps fr ind level JNegInfinity = ''-Infinity''"

fun float_free :: "json \<Rightarrow> bool" where
  "float_free (JFloat q) = False"
| "float_free (JArr xs) = list_all float_free xs"
| "float_free (JObj kvs) = list_all (\<lambda>kv. float_free (snd kv)) kvs"
| "float_free JNull = True"
| "float_free (JBool b) = True"
| "float_free (JInt i) = True"
| "float_free (JStr s) = True"
| "float_free JNaN = False"
| "float_free JInfinity = False"
| "float_free JNegInfinity = False"

definition text_char :: "char \<Rightarrow> bool" where
  "text_char c \<longleftrightarrow> printable c \<or> c = CHR 0x0A"

section \<open>Lemmas\<close>

lemma printable_simps [simp]:
  "printable CHR 0x22" "printable CHR 0x5C" "printable CHR '' ''" "printable CHR '',''"
  "printable CHR '':''" "printable CHR ''[''" "printable CHR '']''" "printable CHR ''{''"
  "printable CHR ''}''" "printable CHR ''-''" "printable CHR ''u''"
  "\<not> printable CHR 0x0A"
  by (simp_all add: printable_def)

lemma printable_digit_char: "d < 16 \<Longrightarrow> printable (digit_char d)"
proof -
  assume "d < 16"
  then have "digit_char d \<in> set ''0123456789abcdef''"
    unfolding digit_char_def by (intro nth_mem) simp
  then show ?thesis by (auto simp: printable_def)
qed

lemma printable_hex4: "list_all printable (hex4 n)"
  by (simp add: hex4_def printable_digit_char)

lemma printable_escape_char: "list_all printable (escape_char c)"
  by (simp add: escape_char_def printable_hex4) (simp add: printable_def)

lemma printable_encode_str: "list_all printable (encode_str s)"
  by (simp add: encode_str_def list_all_iff)
    (use printable_escape_char in \<open>auto simp: list_all_iff\<close>)

lemma is_digit_printable: "is_digit c \<Longrightarrow> printable c"
  unfolding is_digit_def printable_def by auto

lemma printable_str_nat: "list_all printable (str_nat n)"
  using str_nat_digits [of n] by (simp add: list_all_iff is_digit_printable)

lemma printable_str_int: "list_all printable (str_int i)"
  by (simp add: str_int_def printable_str_nat)

lemma text_char_simps [simp]:
  "text_char CHR 0x0A" "text_char CHR '' ''" "text_char CHR '',''" "text_char CHR '':''"
  "text_char CHR ''[''" "text_char CHR '']''" "text_char CHR ''{''" "text_char CHR ''}''"
  by (simp_all add: text_char_def)

lemma text_chars_printable: "list_all printable s \<Longrightarrow> list_all text_char s"
  by (simp add: list_all_iff text_char_def)

lemma text_chars_newline_indent [simp]: "list_all text_char (newline_indent ind level)"
  by (simp add: newline_indent_def list_all_iff)

lemma text_chars_join:
  "list_all text_char sep \<Longrightarrow> list_all (list_all text_char) xs \<Longrightarrow> list_all text_char (join sep xs)"
  by (induction sep xs rule: join.induct) simp_all

lemma encode_str_ends [simp]:
  "hd (encode_str s) = CHR 0x22" "last (encode_str s) = CHR 0x22" "encode_str s \<noteq> []"
  by (simp_all add: encode_str_def)

lemma dumps_obj_ends:
  "hd (dumps fr ind level (JObj kvs)) = CHR ''{''" "last (dumps fr ind level (JObj kvs)) = CHR ''}''"
  by simp_all

lemma dumps_arr_ends:
  "hd (dumps fr ind level (JArr xs)) = CHR ''[''" "last (dumps fr ind level (JArr xs)) = CHR '']''"
  by simp_all

lemma dumps_float_free: "float_free v \<Longrightarrow> dumps fr ind level v = dumps fr' ind level v"
  by (induction fr ind level v rule: dumps.induct) (auto simp: list_all_iff cong: map_cong)

lemma dumps_text_chars: "float_free v \<Longrightarrow> list_all text_char (dumps fr ind level v)"
proof (induction fr ind level v rule: dumps.induct)
  case (6 fr ind level xs)
  then have "list_all (list_all text_char) (map (dumps fr ind (level + 1)) xs)"
    by (cases "xs = []") (auto simp: list_all_iff)
  then have "list_all text_char
      (join ('','' @ newline_indent ind (level + 1)) (map (dumps fr ind (level + 1)) xs))"
    by (intro text_chars_join) simp_all
  then show ?case by simp
next
  case (7 fr ind level kvs)
  then have "list_all (list_all text_char)
      (map (\<lambda>kv. encode_str (fst kv) @ '': '' @ dumps fr ind (level + 1) (snd kv)) kvs)"
    by (cases "kvs = []")
      (auto simp: list_all_iff dest: text_chars_printable [OF printable_encode_str, unfolded list_all_iff, rule_format])
  then have "list_all text_char
      (join ('','' @ newline_indent ind (level + 1))
        (map (\<lambda>kv. encode_str (fst kv) @ '': '' @ dumps fr ind (level + 1) (snd kv)) kvs))"
    by (intro text_chars_join) simp_all
  then show ?case by simp
qed (simp_all add: text_chars_printable printable_str_int printable_encode_str text_char_def
    printable_def)

end
