(* ===== verification/Dedup_File.thy ===== *)
theory Dedup_File
  imports Dedup World Json_Text
begin

text \<open>
  \<open>remove_repetitions\<close> of \<open>data_parser.py\<close> as a whole (lines 3 to 17): read the
  file, load its text, run the loop of theory \<open>Dedup\<close>, open the same file for
  writing and dump the kept entries.

  \<^item> \<open>json_lib\<close> is the part of the \<open>json\<close> module the function relies on and this
    development does not define: the decoder \<open>json.load\<close> and \<open>float.__repr__\<close>.
    \<open>reloads J v\<close> says that the decoder reads back the text the encoder writes
    for \<open>v\<close>; it is assumed only where a theorem says so.
  \<^item> \<open>remove_repetitions_apply\<close> gives result and effects on every branch. The
    file is opened for writing only after the loop has returned, so a call that
    raises leaves the world as it was.
\<close>

record json_lib =
  json_loads :: "string \<Rightarrow> exn + json"
  float_repr :: "rat \<Rightarrow> string"

definition json_dump :: "json_lib \<Rightarrow> json \<Rightarrow> string" where
  "json_dump J v = dumps (float_repr J) 4 0 v"

definition reloads :: "json_lib \<Rightarrow> json \<Rightarrow> bool" where
  "reloads J v \<longleftrightarrow> json_loads J (json_dump J v) = Inr v"

definition remove_repetitions :: "json_lib \<Rightarrow> string \<Rightarrow> unit io" where
  "remove_repetitions J file_path =
     bind (read_file file_path) (\<lambda>raw.
     bind (lift (json_loads J raw)) (\<lambda>posts.
     bind (lift (unique_posts_of posts)) (\<lambda>unique_posts.
     bind (open_write file_path) (\<lambda>_.
     file_write file_path (json_dump J (JArr unique_posts))))))"

section \<open>Result and effects\<close>

definition rewritten :: "json_lib \<Rightarrow> string \<Rightarrow> json list \<Rightarrow> world \<Rightarrow> world" where
  "rewritten J file_path ys w =
     emits [Truncate file_path, Append file_path (json_dump J (JArr ys))] w"

lemma remove_repetitions_apply:
  "remove_repetitions J p w =
     (case file_content w p of
        None \<Rightarrow> (Inl (OSError p), w)
      | Some raw \<Rightarrow>
          (case json_loads J raw of
             Inl e \<Rightarrow> (Inl e, w)
           | Inr posts \<Rightarrow>
               (case unique_posts_of posts of
                  Inl e \<Rightarrow> (Inl e, w)
                | Inr ys \<Rightarrow>
                    if openable w p then (Inr (), rewritten J p ys w)
                    else (Inl (OSError p), w))))"
  by (simp add: remove_repetitions_def rewritten_def run_simps split: option.splits sum.splits)

lemma file_content_rewritten:
  "file_content (rewritten J p ys w) q =
     (if q = p then Some (json_dump J (JArr ys)) else file_content w q)"
  by (simp add: rewritten_def file_content_emits_any)

lemma rewritten_frame [simp]:
  "web (rewritten J p ys w) = web w" "openable (rewritten J p ys w) = openable w"
  "n_gets (rewritten J p ys w) = n_gets w"
  by (simp_all add: rewritten_def)

section \<open>Examples\<close>

definition demo_json :: json_lib where
  "demo_json =
     \<lparr>json_loads = (\<lambda>raw.
        if raw = ''three entries'' then Inr (JArr bug_report_posts)
        else if raw = dumps (\<lambda>q. []) 4 0
            (JArr [entry (JStr ''Bug report'') [JStr ''first''], entry (JStr ''Help'') []])
        then Inr (JArr [entry (JStr ''Bug report'') [JStr ''first''], entry (JStr ''Help'') []])
        else Inl JSONDecodeError),
      float_repr = (\<lambda>q. [])\<rparr>"

definition demo_disk :: world where
  "demo_disk =
     \<lparr>web = (\<lambda>k u. Inl (RequestException ''offline'')),
      disk = (\<lambda>path. if path = ''all_posts.json'' then Some ''three entries''
                     else if path = ''broken.json'' then Some ''{'' else None),
      openable = (\<lambda>path. True), trace = []\<rparr>"

lemma demo_disk_simps [simp]:
  "file_content demo_disk ''all_posts.json'' = Some ''three entries''"
  "file_content demo_disk ''broken.json'' = Some ''{''"
  "file_content demo_disk ''missing.json'' = None"
  "openable demo_disk p"
  by (simp_all add: demo_disk_def)

lemma demo_json_simps [simp]:
  "json_loads demo_json ''three entries'' = Inr (JArr bug_report_posts)"
  "json_loads demo_json ''{'' = Inl JSONDecodeError"
  by (simp_all add: demo_json_def)

lemma demo_json_reloads:
  "reloads demo_json (JArr [entry (JStr ''Bug report'') [JStr ''first''], entry (JStr ''Help'') []])"
  by (simp add: reloads_def json_dump_def demo_json_def)

section \<open>Properties\<close>

text \<open>
  C10 (functional). When the file holds a text that loads as a list whose entries
  all have a usable title, and the file can be opened for writing,
  \<open>remove_repetitions\<close> returns and the file then holds exactly the dump of the
  entries that are the first with their title, in their order; every other file
  is as before.
\<close>

theorem remove_repetitions_rewrites:
  assumes "file_content w p = Some raw" and "json_loads J raw = Inr (JArr xs)"
    and "collect title_key xs = Inr ks" and "openable w p"
  shows "outcome (remove_repetitions J p) w = Inr () \<and>
    file_content (world_after (remove_repetitions J p) w) p =
      Some (json_dump J (JArr (first_by title_key xs))) \<and>
    (\<forall>q. q \<noteq> p \<longrightarrow> file_content (world_after (remove_repetitions J p) w) q = file_content w q)"
  using assms
  by (simp add: outcome_def world_after_def remove_repetitions_def run_simps
      unique_loop_reference file_content_emits_any)

theorem remove_repetitions_rewrites_witness:
  "outcome (remove_repetitions demo_json ''all_posts.json'') demo_disk = Inr () \<and>
    file_content (world_after (remove_repetitions demo_json ''all_posts.json'') demo_disk)
        ''all_posts.json'' =
      Some (json_dump demo_json (JArr (first_by title_key bug_report_posts))) \<and>
    file_content (world_after (remove_repetitions demo_json ''all_posts.json'') demo_disk)
        ''broken.json'' = Some ''{''"
  using remove_repetitions_rewrites [where w = demo_disk and p = "''all_posts.json''"
      and raw = "''three entries''" and J = demo_json and xs = bug_report_posts
      and ks = "[KStr ''Bug report'', KStr ''Help'', KStr ''Bug report'']"]
  by (simp add: bug_report_posts_def)

text \<open>
  C11 (safety). A call of \<open>remove_repetitions\<close> that raises has no effect: whether
  the file is missing, its text does not load, an entry has no usable title or the
  file cannot be opened for writing, the file is not emptied and nothing is
  written. The file is opened for writing only when the new content is known.
\<close>

theorem remove_repetitions_failure_keeps_file:
  assumes "raises (remove_repetitions J p) w"
  shows "world_after (remove_repetitions J p) w = w"
  using assms
  by (auto simp: raises_def world_after_def remove_repetitions_apply
      split: option.splits sum.splits if_splits)

theorem remove_repetitions_failure_keeps_file_witness:
  "world_after (remove_repetitions demo_json ''broken.json'') demo_disk = demo_disk"
proof (rule remove_repetitions_failure_keeps_file)
  show "raises (remove_repetitions demo_json ''broken.json'') demo_disk"
    by (simp add: raises_def remove_repetitions_apply)
qed

text \<open>
  C23 (roundtrip). Running \<open>remove_repetitions\<close> a second time changes nothing,
  provided the decoder reads back the list the first run wrote: the second run
  returns and leaves in the file the text the first run wrote.
\<close>

theorem remove_repetitions_twice:
  assumes "file_content w p = Some raw" and "json_loads J raw = Inr posts"
    and "unique_posts_of posts = Inr ys" and "openable w p" and "reloads J (JArr ys)"
  shows "outcome (remove_repetitions J p) (world_after (remove_repetitions J p) w) = Inr () \<and>
    file_content (world_after (remove_repetitions J p) (world_after (remove_repetitions J p) w)) p =
      file_content (world_after (remove_repetitions J p) w) p"
proof -
  from assms have w1: "world_after (remove_repetitions J p) w = rewritten J p ys w"
    by (simp add: world_after_def remove_repetitions_apply)
  from assms(3) have "unique_posts_of (JArr ys) = Inr ys"
  proof (rule unique_posts_of_InrD)
    fix xs ks
    assume "collect title_key xs = Inr ks" and "ys = first_by title_key xs"
    then show ?thesis
      using collect_first_by [of title_key xs ks] by (auto simp: unique_loop_reference)
  qed
  with assms(4, 5)
  have "remove_repetitions J p (rewritten J p ys w) =
      (Inr (), rewritten J p ys (rewritten J p ys w))"
    by (simp add: remove_repetitions_apply file_content_rewritten reloads_def)
  then show ?thesis
    unfolding w1 by (simp add: outcome_def world_after_def file_content_rewritten)
qed

theorem remove_repetitions_twice_witness:
  "outcome (remove_repetitions demo_json ''all_posts.json'')
      (world_after (remove_repetitions demo_json ''all_posts.json'') demo_disk) = Inr () \<and>
    file_content (world_after (remove_repetitions demo_json ''all_posts.json'')
        (world_after (remove_repetitions demo_json ''all_posts.json'') demo_disk))
        ''all_posts.json'' =
      file_content (world_after (remove_repetitions demo_json ''all_posts.json'') demo_disk)
        ''all_posts.json''"
  using remove_repetitions_twice [where w = demo_disk and p = "''all_posts.json''"
      and raw = "''three entries''" and J = demo_json and posts = "JArr bug_report_posts"
      and ys = "[entry (JStr ''Bug report'') [JStr ''first''], entry (JStr ''Help'') []]"]
    unique_posts_bug_report demo_json_reloads
  by simp

end
