(* ===== verification/Orchestrator.thy ===== *)
theory Orchestrator
  imports Paginator Json_Text
begin

text \<open>
  The orchestrator and the result sink of \<open>net_spider.py\<close>: \<open>main\<close> (lines 139 to
  161). It crawls the listing, announces the number of topics, then for every topic
  in order crawls the thread and appends one document, followed by a comma and a
  newline, to the output file; at the end it appends a closing bracket.

  \<^item> \<open>main_topic\<close> is the body of the \<open>for\<close> loop, \<open>for_each\<close> the loop, \<open>main\<close>
    the function. Both crawls run with \<open>max_pages=1000\<close> and the default delay.
    Each \<open>with open(..., "a")\<close> block is \<open>open_append\<close> followed by its writes.
  \<^item> \<open>post_json\<close> and \<open>topic_document\<close> are the dicts that are written, as JSON
    values; \<open>dump_document\<close> is \<open>json.dump(..., indent=4)\<close> on them.
  \<^item> The reference: \<open>topic_runs\<close> lists the topics a run crawls, each with the
    pages its crawl visits; the list ends with the first topic whose crawl or
    whose write fails. \<open>main_outcome\<close> and \<open>main_events\<close> are result and effects
    of \<open>main\<close> as functions of the listing's pages and these runs; \<open>main_apply\<close>
    proves it.
\<close>

section \<open>The documents\<close>

definition OUTPUT_PATH :: string where
  "OUTPUT_PATH = ''collected_forum_data/all_posts.json''"

definition post_json :: "post \<Rightarrow> json" where
  "post_json p =
     JObj [(''author'', JStr (author p)), (''date'', JStr (date p)), (''content'', JStr (content p))]"

definition topic_document :: "string \<Rightarrow> post list \<Rightarrow> json" where
  "topic_document topic_title posts =
     JObj [(''title'', JStr topic_title), (''chat'', JArr (map post_json posts))]"

definition dump_document :: "json \<Rightarrow> string" where
  "dump_document v = dumps (\<lambda>q. []) 4 0 v"

section \<open>main\<close>

definition found_msg :: "nat \<Rightarrow> string" where
  "found_msg n = ''Found '' @ str_nat n @ '' topics (limited by max_pages=3).''"

definition scraping_msg :: "string \<Rightarrow> pystr \<Rightarrow> string" where
  "scraping_msg topic_title topic_url =
     ''\<newline>Scraping topic: '' @ topic_title @ ''\<newline>URL: '' @ py_str topic_url"

definition collected_msg :: "nat \<Rightarrow> string \<Rightarrow> string" where
  "collected_msg n topic_title =
     ''  --> Collected '' @ str_nat n @ '' posts from '' @ [CHR 0x27] @ topic_title @ [CHR 0x27] @ ''.''"

definition main_topic :: "'n libs \<Rightarrow> topic \<Rightarrow> unit io" where
  "main_topic L = (\<lambda>(topic_title, topic_url).
     bind (py_print (scraping_msg topic_title topic_url)) (\<lambda>_.
     bind (scrape_topic L topic_url 1000 default_delay) (\<lambda>posts.
     bind (py_print (collected_msg (length posts) topic_title)) (\<lambda>_.
     bind (open_append OUTPUT_PATH) (\<lambda>_.
     bind (file_write OUTPUT_PATH (dump_document (topic_document topic_title posts))) (\<lambda>_.
     file_write OUTPUT_PATH '',\<newline>''))))))"

fun for_each :: "('a \<Rightarrow> unit io) \<Rightarrow> 'a list \<Rightarrow> unit io" where
  "for_each body [] = ret ()"
| "for_each body (x # xs) = bind (body x) (\<lambda>_. for_each body xs)"

definition main :: "'n libs \<Rightarrow> unit io" where
  "main L =
     bind (scrape_subforum L (Some SUBFORUM_URL) 1000 default_delay) (\<lambda>topics_data.
     bind (py_print (found_msg (length topics_data))) (\<lambda>_.
     bind (for_each (main_topic L) topics_data) (\<lambda>_.
     bind (open_append OUTPUT_PATH) (\<lambda>_.
     file_write OUTPUT_PATH '']''))))"

section \<open>The reference\<close>

type_synonym topic_run = "topic \<times> post visit list"

definition run_posts :: "topic_run \<Rightarrow> exn + post list" where
  "run_posts r = visits_result default_delay (snd r)"

fun topic_runs ::
  "(nat \<Rightarrow> string \<Rightarrow> exn + post list \<times> pystr) \<Rightarrow> bool \<Rightarrow> nat \<Rightarrow> topic list \<Rightarrow> topic_run list" where
  "topic_runs pg can_write k [] = []"
| "topic_runs pg can_write k (t # ts) =
     (let vs = visits pg default_delay k 1000 (snd t) in
        (t, vs) #
          (case visits_result default_delay vs of
             Inl e \<Rightarrow> []
           | Inr posts \<Rightarrow>
               if can_write then topic_runs pg can_write (k + length vs) ts else []))"

definition document_text :: "string \<Rightarrow> post list \<Rightarrow> string" where
  "document_text topic_title posts = dump_document (topic_document topic_title posts) @ '',\<newline>''"

definition topic_events :: "bool \<Rightarrow> topic_run \<Rightarrow> event list" where
  "topic_events can_write r =
     Print (scraping_msg (fst (fst r)) (snd (fst r))) #
     run_events topic_msg default_delay (snd r) @
     (case run_posts r of
        Inl e \<Rightarrow> []
      | Inr posts \<Rightarrow>
          Print (collected_msg (length posts) (fst (fst r))) #
          (if can_write
           then [Append OUTPUT_PATH (dump_document (topic_document (fst (fst r)) posts)),
                 Append OUTPUT_PATH '',\<newline>'']
           else []))"

definition topic_outcome :: "bool \<Rightarrow> topic_run \<Rightarrow> exn + unit" where
  "topic_outcome can_write r =
     (case run_posts r of
        Inl e \<Rightarrow> Inl e
      | Inr posts \<Rightarrow> if can_write then Inr () else Inl (OSError OUTPUT_PATH))"

fun runs_outcome :: "bool \<Rightarrow> topic_run list \<Rightarrow> exn + unit" where
  "runs_outcome can_write [] = Inr ()"
| "runs_outcome can_write (r # rs) =
     (case topic_outcome can_write r of Inl e \<Rightarrow> Inl e | Inr u \<Rightarrow> runs_outcome can_write rs)"

definition runs_events :: "bool \<Rightarrow> topic_run list \<Rightarrow> event list" where
  "runs_events can_write rs = concat (map (topic_events can_write) rs)"

definition listing :: "'n libs \<Rightarrow> world \<Rightarrow> topic visit list" where
  "listing L w = subforum_visits L w (Some SUBFORUM_URL) 1000 default_delay"

definition crawl :: "'n libs \<Rightarrow> world \<Rightarrow> topic_run list" where
  "crawl L w =
     (case visits_result default_delay (listing L w) of
        Inl e \<Rightarrow> []
      | Inr topics \<Rightarrow>
          topic_runs (page_of (thread_of L) L (web w)) (openable w OUTPUT_PATH)
            (n_gets w + length (listing L w)) topics)"

definition main_outcome :: "'n libs \<Rightarrow> world \<Rightarrow> exn + unit" where
  "main_outcome L w =
     (case visits_result default_delay (listing L w) of
        Inl e \<Rightarrow> Inl e
      | Inr topics \<Rightarrow>
          (case runs_outcome (openable w OUTPUT_PATH) (crawl L w) of
             Inl e \<Rightarrow> Inl e
           | Inr u \<Rightarrow> if openable w OUTPUT_PATH then Inr () else Inl (OSError OUTPUT_PATH)))"

definition main_events :: "'n libs \<Rightarrow> world \<Rightarrow> event list" where
  "main_events L w =
     run_events subforum_msg default_delay (listing L w) @
     (case visits_result default_delay (listing L w) of
        Inl e \<Rightarrow> []
      | Inr topics \<Rightarrow>
          Print (found_msg (length topics)) # runs_events (openable w OUTPUT_PATH) (crawl L w) @
          (if main_outcome L w = Inr () then [Append OUTPUT_PATH '']''] else []))"

section \<open>main against the reference\<close>

lemma default_delay_nonneg [simp]: "0 \<le> default_delay" "\<not> default_delay < 0"
  by (simp_all add: default_delay_def)

lemma runs_events_simps [simp]:
  "runs_events cw [] = []"
  "runs_events cw (r # rs) = topic_events cw r @ runs_events cw rs"
  by (simp_all add: runs_events_def)

lemma gets_topic_events [simp]:
  "gets (topic_events cw r) = gets (run_events topic_msg default_delay (snd r))"
  by (simp add: topic_events_def split: sum.splits)

lemma main_topic_apply:
  "main_topic L t w =
     (topic_outcome (openable w OUTPUT_PATH) (t, topic_visits L w (snd t) 1000 default_delay),
      emits (topic_events (openable w OUTPUT_PATH)
        (t, topic_visits L w (snd t) 1000 default_delay)) w)"
proof -
  obtain topic_title topic_url where t: "t = (topic_title, topic_url)"
    by (cases t)
  let ?w1 = "emit (Print (scraping_msg topic_title topic_url)) w"
  have vs: "topic_visits L ?w1 topic_url 1000 default_delay =
      topic_visits L w topic_url 1000 default_delay"
    by (simp add: topic_visits_def)
  have run: "scrape_topic L topic_url 1000 default_delay ?w1 =
      (visits_result default_delay (topic_visits L w topic_url 1000 default_delay),
       emits (run_events topic_msg default_delay
         (topic_visits L w topic_url 1000 default_delay)) ?w1)"
    using vs by (simp add: scrape_topic_paginate paginate_run [OF reads_page_topic])
  show ?thesis
  proof (cases "visits_result default_delay (topic_visits L w topic_url 1000 default_delay)")
    case (Inl e)
    with run show ?thesis
      by (simp add: t main_topic_def topic_outcome_def topic_events_def run_posts_def)
  next
    case (Inr posts)
    with run show ?thesis
      by (cases "openable w OUTPUT_PATH")
        (simp_all add: t main_topic_def topic_outcome_def topic_events_def run_posts_def
          bind_open_append_ok bind_open_append_refused)
  qed
qed

lemma for_each_main_topic:
  "for_each (main_topic L) ts w =
     (runs_outcome (openable w OUTPUT_PATH)
        (topic_runs (page_of (thread_of L) L (web w)) (openable w OUTPUT_PATH) (n_gets w) ts),
      emits (runs_events (openable w OUTPUT_PATH)
        (topic_runs (page_of (thread_of L) L (web w)) (openable w OUTPUT_PATH) (n_gets w) ts)) w)"
proof (induction ts arbitrary: w)
  case Nil
  show ?case by simp
next
  case (Cons t ts)
  let ?cw = "openable w OUTPUT_PATH"
  let ?r = "(t, topic_visits L w (snd t) 1000 default_delay)"
  let ?w1 = "emits (topic_events ?cw ?r) w"
  have r: "topic_visits L w (snd t) 1000 default_delay =
      visits (page_of (thread_of L) L (web w)) default_delay (n_gets w) 1000 (snd t)"
    by (simp add: topic_visits_def)
  show ?case
  proof (cases "topic_outcome ?cw ?r")
    case (Inl e)
    then show ?thesis
      using r by (auto simp: main_topic_apply Let_def topic_outcome_def run_posts_def
          split: sum.splits if_splits)
  next
    case (Inr u)
    then have ok: "?cw" and posts: "\<exists>posts. visits_result default_delay (snd ?r) = Inr posts"
      by (auto simp: topic_outcome_def run_posts_def split: sum.splits if_splits)
    from posts have "list_all visit_ok (snd ?r)"
      by (auto dest: visits_result_all_ok)
    then have k: "n_gets ?w1 = n_gets w + length (snd ?r)"
      by (simp add: gets_run_events_ok)
    from Inr have "for_each (main_topic L) (t # ts) w = for_each (main_topic L) ts ?w1"
      by (simp add: main_topic_apply)
    also note Cons.IH [of ?w1]
    finally show ?thesis
      using ok posts Inr k r by (auto simp: Let_def)
  qed
qed

lemma main_apply: "main L w = (main_outcome L w, emits (main_events L w) w)"
proof -
  let ?vs = "listing L w"
  let ?w1 = "emits (run_events subforum_msg default_delay ?vs) w"
  have run: "scrape_subforum L (Some SUBFORUM_URL) 1000 default_delay w =
      (visits_result default_delay ?vs, ?w1)"
    by (simp add: listing_def scrape_subforum_paginate paginate_run [OF reads_page_subforum])
  show ?thesis
  proof (cases "visits_result default_delay ?vs")
    case (Inl e)
    with run show ?thesis
      by (simp add: main_def main_outcome_def main_events_def)
  next
    case (Inr topics)
    let ?w2 = "emit (Print (found_msg (length topics))) ?w1"
    from Inr have "list_all visit_ok ?vs"
      by (rule visits_result_all_ok)
    then have k: "n_gets ?w2 = n_gets w + length ?vs"
      by (simp add: gets_run_events_ok)
    have loop: "for_each (main_topic L) topics ?w2 =
        (runs_outcome (openable w OUTPUT_PATH) (crawl L w),
         emits (runs_events (openable w OUTPUT_PATH) (crawl L w)) ?w2)"
      using Inr k by (simp add: for_each_main_topic crawl_def)
    from run Inr loop show ?thesis
      by (cases "runs_outcome (openable w OUTPUT_PATH) (crawl L w)";
          cases "openable w OUTPUT_PATH")
        (simp_all add: main_def main_outcome_def main_events_def bind_open_append_ok
          bind_open_append_refused)
  qed
qed

lemma main_outcome_eq: "outcome (main L) w = main_outcome L w"
  by (simp add: outcome_def main_apply)

lemma main_world: "world_after (main L) w = emits (main_events L w) w"
  by (simp add: world_after_def main_apply)

lemma listing_outcome:
  "outcome (scrape_subforum L (Some SUBFORUM_URL) 1000 default_delay) w =
     visits_result default_delay (listing L w)"
  by (simp add: listing_def scrape_subforum_paginate paginate_outcome [OF reads_page_subforum])

section \<open>The runs of a crawl\<close>

lemma topic_runs_length: "length (topic_runs pg cw k ts) \<le> length ts"
  by (induction ts arbitrary: k) (auto simp: Let_def split: sum.splits)

lemma topic_runs_pages: "list_all (\<lambda>r. length (snd r) \<le> 1000) (topic_runs pg cw k ts)"
  by (induction ts arbitrary: k) (auto simp: Let_def visits_length split: sum.splits)

lemma topic_runs_prefix_ok:
  "topic_runs pg cw k ts = rs @ [r] \<Longrightarrow> list_all (\<lambda>r. topic_outcome cw r = Inr ()) rs"
proof (induction ts arbitrary: k rs)
  case Nil
  then show ?case by simp
next
  case step: (Cons t ts)
  show ?case
  proof (cases rs)
    case Nil
    then show ?thesis by simp
  next
    case (Cons r0 rs')
    with step.prems obtain posts where "r0 = (t, visits pg default_delay k 1000 (snd t))"
      and ok: "visits_result default_delay (snd r0) = Inr posts" "cw"
      and rest: "topic_runs pg cw (k + length (snd r0)) ts = rs' @ [r]"
      by (auto simp: Let_def split: sum.splits if_splits)
    from step.IH [OF rest] ok show ?thesis
      by (simp add: Cons topic_outcome_def run_posts_def)
  qed
qed

lemma runs_outcome_append:
  "list_all (\<lambda>r. topic_outcome cw r = Inr ()) rs \<Longrightarrow> runs_outcome cw (rs @ rs') = runs_outcome cw rs'"
  by (induction rs) simp_all

lemma runs_outcome_ok:
  "runs_outcome cw rs = Inr () \<longleftrightarrow> list_all (\<lambda>r. topic_outcome cw r = Inr ()) rs"
  by (induction rs) (auto split: sum.splits)

lemma topic_runs_complete:
  "runs_outcome cw (topic_runs pg cw k ts) = Inr () \<Longrightarrow> map fst (topic_runs pg cw k ts) = ts"
  by (induction ts arbitrary: k)
    (auto simp: Let_def topic_outcome_def run_posts_def split: sum.splits if_splits)

lemma crawl_length:
  "length (crawl L w) \<le>
     (case visits_result default_delay (listing L w) of Inl e \<Rightarrow> 0 | Inr topics \<Rightarrow> length topics)"
  by (simp add: crawl_def topic_runs_length split: sum.splits)

lemma crawl_pages: "list_all (\<lambda>r. length (snd r) \<le> 1000) (crawl L w)"
  by (simp add: crawl_def topic_runs_pages split: sum.splits)

lemma main_outcome_Inr_iff:
  "main_outcome L w = Inr () \<longleftrightarrow>
     openable w OUTPUT_PATH \<and> (\<exists>topics. visits_result default_delay (listing L w) = Inr topics) \<and>
     runs_outcome True (crawl L w) = Inr ()"
  by (auto simp: main_outcome_def split: sum.splits)

section \<open>Requests\<close>

lemma sum_list_le_times:
  fixes f :: "'a \<Rightarrow> nat"
  shows "list_all (\<lambda>x. f x \<le> c) xs \<Longrightarrow> sum_list (map f xs) \<le> c * length xs"
  by (induction xs) auto

lemma gets_runs_events:
  "length (gets (runs_events cw rs)) \<le> sum_list (map (\<lambda>r. length (snd r)) rs)"
proof (induction rs)
  case Nil
  show ?case by simp
next
  case (Cons r rs)
  with gets_run_events_length [of topic_msg default_delay "snd r"] show ?case by simp
qed

lemma gets_main_events:
  "length (gets (main_events L w)) \<le>
     length (listing L w) + sum_list (map (\<lambda>r. length (snd r)) (crawl L w))"
  using gets_run_events_length [of subforum_msg default_delay "listing L w"]
    gets_runs_events [of "openable w OUTPUT_PATH" "crawl L w"]
  by (simp add: main_events_def crawl_def split: sum.splits)

lemma listing_length: "length (listing L w) \<le> 1000"
  using visits_length [of "page_of (listing_of L) L (web w)" default_delay "n_gets w" 1000
      "Some SUBFORUM_URL"]
  by (simp add: listing_def subforum_visits_def)

section \<open>The output file\<close>

definition run_document :: "topic_run \<Rightarrow> string" where
  "run_document r =
     (case run_posts r of Inl e \<Rightarrow> [] | Inr posts \<Rightarrow> document_text (fst (fst r)) posts)"

lemma appended_visit_events [simp]:
  "appended p (visit_events msg d v) = []" "\<not> truncates p (visit_events msg d v)"
  by (cases "(msg, d, v)" rule: visit_events.cases; simp)+

lemma appended_run_events [simp]:
  "appended p (run_events msg d vs) = []" "\<not> truncates p (run_events msg d vs)"
  by (induction vs) simp_all

lemma truncates_runs_events [simp]: "\<not> truncates p (runs_events cw rs)"
  by (induction rs) (simp_all add: topic_events_def split: sum.splits)

lemma truncates_main_events [simp]: "\<not> truncates p (main_events L w)"
  by (simp add: main_events_def split: sum.splits)

lemma appended_topic_events:
  "concat (appended OUTPUT_PATH (topic_events True r)) = run_document r"
  by (simp add: topic_events_def run_document_def document_text_def split: sum.splits)

lemma appended_runs_events:
  "concat (appended OUTPUT_PATH (runs_events True rs)) = concat (map run_document rs)"
  by (induction rs) (simp_all add: appended_topic_events)

lemma appended_topic_events_refused [simp]: "appended p (topic_events False r) = []"
  by (simp add: topic_events_def split: sum.splits)

lemma appended_runs_events_refused [simp]: "appended p (runs_events False rs) = []"
  by (induction rs) simp_all

lemma dump_document_hd [simp]:
  "hd (dump_document (topic_document t posts)) = CHR ''{''"
  "dump_document (topic_document t posts) \<noteq> []"
  by (simp_all add: dump_document_def topic_document_def)

lemma run_document_hd: "run_document r \<noteq> [] \<Longrightarrow> hd (run_document r) = CHR ''{''"
  by (simp add: run_document_def document_text_def split: sum.splits)

lemma documents_hd: "hd (concat (map run_document rs) @ '']'') \<noteq> CHR ''[''"
proof (induction rs)
  case Nil
  show ?case by simp
next
  case (Cons r rs)
  then show ?case
    by (cases "run_document r = []") (simp_all add: run_document_hd hd_append)
qed

lemma no_bracket_run_events [simp]: "Append p t \<notin> set (run_events msg d vs)"
proof (induction vs)
  case Nil
  show ?case by simp
next
  case (Cons v vs)
  then show ?case
    by (cases "(msg, d, v)" rule: visit_events.cases) simp_all
qed

lemma dump_document_not_bracket [simp]:
  "dump_document (topic_document t posts) \<noteq> '']''" "'']'' \<noteq> dump_document (topic_document t posts)"
proof -
  show "dump_document (topic_document t posts) \<noteq> '']''"
  proof
    assume "dump_document (topic_document t posts) = '']''"
    then have "hd (dump_document (topic_document t posts)) = CHR '']''"
      by (simp only: list.sel)
    then show False by simp
  qed
  then show "'']'' \<noteq> dump_document (topic_document t posts)"
    by (rule not_sym)
qed

lemma no_bracket_runs_events: "Append OUTPUT_PATH '']'' \<notin> set (runs_events cw rs)"
  by (induction rs) (simp_all add: topic_events_def split: sum.splits)

section \<open>Politeness and the written text\<close>

lemma topic_events_polite:
  "polite default_delay False (topic_events cw (t, visits pg default_delay k n u)) \<and>
   owes default_delay False (topic_events cw (t, visits pg default_delay k n u)) =
     (\<exists>e. visits_result default_delay (visits pg default_delay k n u) = Inl e \<and> \<not> url_refused e)"
  using visits_polite [of default_delay topic_msg pg k n u]
  by (auto simp: topic_events_def run_posts_def split: sum.splits)

lemma runs_events_polite:
  "polite default_delay False (runs_events cw (topic_runs pg cw k ts))"
proof (induction ts arbitrary: k)
  case Nil
  show ?case by simp
next
  case (Cons t ts)
  show ?case
    using topic_events_polite [of cw t pg k 1000 "snd t"] Cons.IH
    by (auto simp: Let_def split: sum.splits)
qed

lemma main_events_polite: "polite default_delay False (main_events L w)"
  using visits_polite [of default_delay subforum_msg "page_of (listing_of L) L (web w)" "n_gets w"
      1000 "Some SUBFORUM_URL"]
  by (auto simp: main_events_def listing_def subforum_visits_def crawl_def runs_events_polite
      split: sum.splits)

lemma float_free_topic_document [simp]: "float_free (topic_document t posts)"
  by (simp add: topic_document_def post_json_def list_all_iff)

lemma text_chars_runs_events:
  "Append p t \<in> set (runs_events cw rs) \<Longrightarrow> list_all text_char t"
  by (induction rs)
    (auto simp: topic_events_def dump_document_def dumps_text_chars split: sum.splits if_splits)

section \<open>Properties\<close>

text \<open>
  C8 (functional). When \<open>main\<close> returns, the output file holds what it held
  before, followed by one document with a comma and a newline for every topic of
  the listing, in listing order, and a closing bracket.
\<close>

theorem main_file_content:
  assumes "outcome (main L) w = Inr ()"
  shows "file_text (world_after (main L) w) OUTPUT_PATH =
      file_text w OUTPUT_PATH @ concat (map run_document (crawl L w)) @ '']'' \<and>
    outcome (scrape_subforum L (Some SUBFORUM_URL) 1000 default_delay) w =
      Inr (map fst (crawl L w))"
proof -
  from assms have ok: "openable w OUTPUT_PATH" "runs_outcome True (crawl L w) = Inr ()"
    and "main_outcome L w = Inr ()"
    by (simp_all add: main_outcome_eq main_outcome_Inr_iff)
  moreover from assms obtain topics where
    topics: "visits_result default_delay (listing L w) = Inr topics"
    by (auto simp: main_outcome_eq main_outcome_Inr_iff)
  ultimately have "concat (appended OUTPUT_PATH (main_events L w)) =
      concat (map run_document (crawl L w)) @ '']''"
    by (simp add: main_events_def appended_runs_events)
  moreover from ok topics have "map fst (crawl L w) = topics"
    by (simp add: crawl_def topic_runs_complete)
  ultimately show ?thesis
    using topics by (simp add: main_world file_text_emits listing_outcome)
qed

theorem main_file_content_witness:
  "file_text (world_after (main demo_libs) small_world) OUTPUT_PATH =
      file_text small_world OUTPUT_PATH @
        concat (map run_document (crawl demo_libs small_world)) @ '']'' \<and>
    outcome (scrape_subforum demo_libs (Some SUBFORUM_URL) 1000 default_delay) small_world =
      Inr (map fst (crawl demo_libs small_world))"
proof (rule main_file_content)
  show "outcome (main demo_libs) small_world = Inr ()"
    by code_simp
qed

text \<open>
  C9 (safety). The file a run of \<open>main\<close> creates ends with a closing bracket
  and does not begin with an opening one: no run writes the bracket that the one
  at the end would close, so the text is not the JSON array its last character
  announces.
\<close>

theorem main_output_unbalanced:
  assumes "outcome (main L) w = Inr ()" and "file_content w OUTPUT_PATH = None"
  shows "\<exists>s. file_content (world_after (main L) w) OUTPUT_PATH = Some s \<and>
    hd s \<noteq> CHR ''['' \<and> last s = CHR '']''"
proof -
  let ?s = "concat (map run_document (crawl L w)) @ '']''"
  from assms(1) have ok: "openable w OUTPUT_PATH" "main_outcome L w = Inr ()"
    and "\<exists>topics. visits_result default_delay (listing L w) = Inr topics"
    by (auto simp: main_outcome_eq main_outcome_Inr_iff)
  then have "appended OUTPUT_PATH (main_events L w) \<noteq> []"
    by (auto simp: main_events_def)
  then obtain s where s: "file_content (world_after (main L) w) OUTPUT_PATH = Some s"
    by (cases "file_content (world_after (main L) w) OUTPUT_PATH")
      (simp_all add: main_world file_content_emits_None)
  with assms(2) have "s = ?s"
    using main_apply [of L w] ok
    by (auto simp: main_world file_content_emits content_after_def main_events_def
        appended_runs_events main_outcome_Inr_iff split: if_splits)
  with s documents_hd [of "crawl L w"] show ?thesis by simp
qed

theorem main_output_unbalanced_witness:
  "\<exists>s. file_content (world_after (main demo_libs) small_world) OUTPUT_PATH = Some s \<and>
    hd s \<noteq> CHR ''['' \<and> last s = CHR '']''"
proof (rule main_output_unbalanced)
  show "outcome (main demo_libs) small_world = Inr ()"
    by code_simp
  show "file_content small_world OUTPUT_PATH = None"
    by (simp add: small_world_def)
qed

text \<open>
  C19 (bounds). A run of \<open>main\<close> sends at most 1000 requests for the listing and at
  most 1000 for every topic the listing returned.
\<close>

theorem main_request_bound:
  "n_gets (world_after (main L) w) \<le>
     n_gets w + 1000 *
       (1 + (case outcome (scrape_subforum L (Some SUBFORUM_URL) 1000 default_delay) w of
               Inl e \<Rightarrow> 0 | Inr topics \<Rightarrow> length topics))"
proof -
  have "sum_list (map (\<lambda>r. length (snd r)) (crawl L w)) \<le> 1000 * length (crawl L w)"
    using crawl_pages by (rule sum_list_le_times)
  with crawl_length [of L w] listing_length [of L w] gets_main_events [of L w] show ?thesis
    by (simp add: main_world listing_outcome split: sum.splits)
qed

text \<open>
  C18 (error). When \<open>main\<close> raises, it has not written the closing bracket: among
  the effects of the run there is no append of \<open>]\<close> to the output file.
\<close>

theorem main_raise_no_closing_bracket:
  assumes "raises (main L) w" and "trace (world_after (main L) w) = trace w @ evs"
  shows "Append OUTPUT_PATH '']'' \<notin> set evs"
proof -
  from assms(2) have evs: "evs = main_events L w"
    by (simp add: main_world)
  from assms(1) have "main_outcome L w \<noteq> Inr ()"
    by (auto simp: raises_iff main_outcome_eq)
  then show ?thesis
    by (auto simp: evs main_events_def no_bracket_runs_events split: sum.splits)
qed

theorem main_raise_no_closing_bracket_witness:
  "Append OUTPUT_PATH '']'' \<notin> set (main_events demo_libs failing_world)"
proof (rule main_raise_no_closing_bracket)
  have "outcome (main demo_libs) failing_world = Inl (HTTPError 404)"
    by code_simp
  then show "raises (main demo_libs) failing_world"
    by (simp add: raises_iff)
  show "trace (world_after (main demo_libs) failing_world) =
      trace failing_world @ main_events demo_libs failing_world"
    by (simp add: main_world)
qed

text \<open>
  C16 (error). When the crawl of a topic fails, \<open>main\<close> raises that exception.
  The file then holds the documents of the topics before it and nothing more: the
  topics after it are not crawled.
\<close>

theorem main_topic_failure:
  assumes "crawl L w = rs @ [r]" and "run_posts r = Inl e"
  shows "outcome (main L) w = Inl e \<and>
    file_text (world_after (main L) w) OUTPUT_PATH =
      file_text w OUTPUT_PATH @ concat (map run_document rs)"
proof -
  let ?cw = "openable w OUTPUT_PATH"
  from assms(1) obtain topics where topics: "visits_result default_delay (listing L w) = Inr topics"
    and runs: "topic_runs (page_of (thread_of L) L (web w)) ?cw (n_gets w + length (listing L w))
      topics = rs @ [r]"
    by (auto simp: crawl_def split: sum.splits)
  from runs have prefix: "list_all (\<lambda>r. topic_outcome ?cw r = Inr ()) rs"
    by (rule topic_runs_prefix_ok)
  with assms have out: "runs_outcome ?cw (crawl L w) = Inl e"
    by (simp add: runs_outcome_append topic_outcome_def)
  have doc: "run_document r = []"
    using assms(2) by (simp add: run_document_def)
  have "concat (appended OUTPUT_PATH (runs_events ?cw (rs @ [r]))) = concat (map run_document rs)"
  proof (cases ?cw)
    case True
    with doc show ?thesis by (simp add: appended_runs_events)
  next
    case False
    with prefix have "rs = []"
      by (cases rs) (auto simp: topic_outcome_def split: sum.splits)
    with False show ?thesis by simp
  qed
  with topics out assms(1) show ?thesis
    by (simp add: main_outcome_eq main_world file_text_emits main_outcome_def main_events_def)
qed

theorem main_topic_failure_witness:
  "outcome (main demo_libs) failing_world = Inl (HTTPError 404) \<and>
    file_text (world_after (main demo_libs) failing_world) OUTPUT_PATH =
      file_text failing_world OUTPUT_PATH @
        concat (map run_document
          [((''Topic B'', Some (BASE_URL @ ''/b'')),
            [(BASE_URL @ ''/b'',
              Inr ([\<lparr>author = ''bob'', date = ''Tue'', content = ''hi''\<rparr>], None))])])"
proof (rule main_topic_failure)
  show "crawl demo_libs failing_world =
      [((''Topic B'', Some (BASE_URL @ ''/b'')),
        [(BASE_URL @ ''/b'',
          Inr ([\<lparr>author = ''bob'', date = ''Tue'', content = ''hi''\<rparr>], None))])] @
      [((''Topic A'', Some (BASE_URL @ ''/a'')),
        [(BASE_URL @ ''/a'',
          Inr ([\<lparr>author = ''alice'', date = ''Mon'', content = ''hello''\<rparr>,
                \<lparr>author = ''Unknown'', date = ''Unknown'', content = ''No content''\<rparr>],
               Some (BASE_URL @ ''/a2''))),
         (BASE_URL @ ''/a2'', Inl (HTTPError 404))])]"
    by code_simp
  show "run_posts ((''Topic A'', Some (BASE_URL @ ''/a'')),
        [(BASE_URL @ ''/a'',
          Inr ([\<lparr>author = ''alice'', date = ''Mon'', content = ''hello''\<rparr>,
                \<lparr>author = ''Unknown'', date = ''Unknown'', content = ''No content''\<rparr>],
               Some (BASE_URL @ ''/a2''))),
         (BASE_URL @ ''/a2'', Inl (HTTPError 404))]) = Inl (HTTPError 404)"
    by (simp add: run_posts_def)
qed

text \<open>
  C17 (error). When the listing cannot be read, \<open>main\<close> raises the exception of the
  failed page and does not touch the output file: no topic is crawled, although
  the pages read before the failure listed some. The requests of the run are
  those of the listing pages visited, without the last one if \<open>requests\<close> refused
  its URL.
\<close>

theorem main_listing_failure:
  assumes "outcome (scrape_subforum L (Some SUBFORUM_URL) 1000 default_delay) w = Inl e"
  shows "outcome (main L) w = Inl e \<and>
    file_content (world_after (main L) w) OUTPUT_PATH = file_content w OUTPUT_PATH \<and>
    n_gets (world_after (main L) w) = n_gets w + length (filter visit_sent (listing L w))"
  using assms
  by (simp add: listing_outcome main_outcome_eq main_outcome_def main_world main_events_def
      file_content_emits gets_run_events)

theorem main_listing_failure_witness:
  "outcome (main demo_libs) down_world = Inl (RequestException ''ConnectionError'') \<and>
    file_content (world_after (main demo_libs) down_world) OUTPUT_PATH =
      file_content down_world OUTPUT_PATH \<and>
    n_gets (world_after (main demo_libs) down_world) =
      n_gets down_world + length (filter visit_sent (listing demo_libs down_world))"
proof (rule main_listing_failure)
  show "outcome (scrape_subforum demo_libs (Some SUBFORUM_URL) 1000 default_delay) down_world =
      Inl (RequestException ''ConnectionError'')"
    by code_simp
qed

text \<open>
  C20 (safety). The whole crawl is polite: if the trace before \<open>main\<close> is polite
  for the default delay and no sleep is owed, the trace after it is polite too.
  Between two requests of a run there is always a sleep of a tenth of a second,
  also between the last page of one topic and the first page of the next.
\<close>

theorem main_polite:
  assumes "polite default_delay False (trace w)" and "\<not> owes default_delay False (trace w)"
  shows "polite default_delay False (trace (world_after (main L) w))"
  using assms by (simp add: main_world main_events_polite)

theorem main_polite_witness:
  "polite default_delay False (trace (world_after (main demo_libs) small_world))"
  by (rule main_polite) (simp_all add: small_world_def)

text \<open>
  C21 (safety). Every text \<open>main\<close> appends to a file consists of printable ASCII
  characters and newlines, whatever characters (of the model: code points below
  256) the titles and posts of the forum contain: \<open>json.dump\<close> escapes the others.
\<close>

theorem main_writes_ascii:
  assumes "trace (world_after (main L) w) = trace w @ evs" and "Append p t \<in> set evs"
  shows "list_all text_char t"
proof -
  from assms(1) have "evs = main_events L w"
    by (simp add: main_world)
  with assms(2) show ?thesis
    by (auto simp: main_events_def dest: text_chars_runs_events split: sum.splits if_splits)
qed

theorem main_writes_ascii_witness:
  "list_all text_char
     (dump_document (topic_document ''Topic B''
        [\<lparr>author = ''bob'', date = ''Tue'', content = ''hi''\<rparr>]))"
proof (rule main_writes_ascii)
  show "trace (world_after (main demo_libs) small_world) =
      trace small_world @ main_events demo_libs small_world"
    by (simp add: main_world)
  show "Append OUTPUT_PATH
      (dump_document (topic_document ''Topic B''
        [\<lparr>author = ''bob'', date = ''Tue'', content = ''hi''\<rparr>]))
    \<in> set (main_events demo_libs small_world)"
    by code_simp
qed

end
