(* ===== verification/Spec2Isabelle.thy ===== *)
theory Spec2Isabelle
  imports Pagination_Machine Dedup_File Orchestrator
begin

text \<open>
  \<^bold>\<open>A verification development for the forum crawler\<close>
  (\<open>src/net_spider.py\<close>, \<open>src/data_parser.py\<close>).

  \<^bold>\<open>The program.\<close> \<open>net_spider.py\<close> crawls a phpBB forum. \<open>get_soup\<close> fetches one
  page; \<open>parse_subforum_page\<close> and \<open>parse_topic\<close> extract the records of one page
  and the link to the next; \<open>scrape_subforum\<close> and \<open>scrape_topic\<close> follow the next
  links up to a page cap, sleeping after every page; \<open>main\<close> crawls the listing, then
  every topic, and appends each topic to a JSON file. \<open>data_parser.py\<close> rewrites
  such a file keeping the first entry of every title.

  \<^bold>\<open>The theories\<close>, in import order.
  \<^item> \<open>Spider_Prelude\<close>: programs with effects and exceptions as functions
    \<open>world \<Rightarrow> (exception + result) \<times> world\<close>, with \<open>ret\<close>, \<open>throw\<close>, \<open>bind\<close>
    and their laws; the fact collections \<open>run_simps\<close> (what a program returns)
    and \<open>frame_simps\<close> (what it leaves alone); \<open>collect\<close>, a pure loop that stops
    at the first error; \<open>first_by\<close>, the reference for keeping the first element
    of every key, with its theory (distinct keys, subsequence, no key lost,
    idempotence, first element kept).
  \<^item> \<open>Python_Base\<close>: the exceptions, \<open>str\<close>-or-\<open>None\<close> values with their truth
    value, \<open>str.strip\<close> (over the white space of \<open>str.isspace\<close> below code point
    256, the no-break space included) and its idempotence, \<open>str\<close> of an integer.
  \<^item> \<open>World\<close>: the site as an oracle indexed by request number (its answer is a
    response, an exception raised after a request was sent, or the refusal of the
    URL by \<open>requests\<close> before one is sent), the disk, the
    trace of effects, and \<open>requests.get\<close>, \<open>time.sleep\<close>, \<open>print\<close>, \<open>open\<close>
    (for reading, writing and appending) and \<open>write\<close> as programs; the content of a file after a
    trace (\<open>file_content\<close>); politeness of a trace (\<open>polite\<close>, \<open>owes\<close>).
  \<^item> \<open>Soup\<close>: BeautifulSoup and URL resolution as a record of functions over an
    arbitrary node type (\<open>libs\<close>), with \<open>BeautifulSoup\<close>, \<open>select_one\<close>,
    \<open>get_text\<close> and \<open>urljoin\<close> defined on top: the parser may reject a text, and
    \<open>urljoin\<close> returns the other argument when one is empty, and otherwise the
    resolved URL or \<open>ValueError\<close>.
  \<^item> \<open>Fetcher\<close>: \<open>BASE_URL\<close>, \<open>SUBFORUM_URL\<close>, \<open>HEADERS\<close>, \<open>get_soup\<close>
    (lines 7 to 19). Properties: one request and no retry (none for a URL that is
    refused), the statuses that count as success, the error of a failing status
    and of a body the parser rejects.
  \<^item> \<open>Extractors\<close>: \<open>parse_subforum_page\<close> (lines 21 to 46) and \<open>parse_topic\<close>
    (lines 48 to 95) as written, their loop bodies \<open>topic_of_link\<close> and
    \<open>post_of_div\<close>, the next link \<open>next_link\<close>. The loop over the topic anchors
    calls \<open>urljoin\<close> and ends at the first \<open>href\<close> it rejects (\<open>collect\<close>), the
    loop over the posts cannot raise (\<open>map\<close>). Properties: on which pages each
    function raises although the fetch succeeded; the fallbacks of a post; when
    the next link is \<open>None\<close>; what a next anchor without \<open>href\<close> does.
  \<^item> \<open>Fixtures\<close>: a small tree-shaped test double for \<open>libs\<close> (its resolver
    rejects a reference that starts with \<open>//\<close> and opens a bracket it does not
    close) and the sites of the examples (\<open>demo_world\<close>: listing pages, threads, a
    page with status 500, a listing and a thread with a malformed link;
    \<open>loop_world\<close>: a listing whose next link points to itself).
  \<^item> \<open>Paginator\<close>: \<open>scrape_subforum\<close> (lines 97 to 116) and \<open>scrape_topic\<close>
    (lines 118 to 137) with their \<open>while\<close> loops, the generic loop \<open>paginate\<close> both
    are instances of, and the pure reference \<open>visits\<close>: the list of pages a run reads,
    each with its result. \<open>paginate_run\<close> is the refinement: result and trace of
    the loop are those of the reference. From it follow the request bound, the
    propagation of a page's exception, the characterisation of a returning run,
    the exact number of requests on an endless chain, what a refused URL costs,
    and politeness.
  \<^item> \<open>Pagination_Machine\<close>: the loop of \<open>scrape_subforum\<close> (lines 107 to 114)
    once more, as a transition system on the state \<open>current_url\<close>,
    \<open>pages_visited\<close>, \<open>accumulated\<close>; \<open>pag_step\<close> is one iteration, \<open>pag_run\<close>
    counts the steps. It is a second view of the loop, used to state what holds
    between iterations, not a reference for it. The machine is deterministic,
    stuck exactly in the final configurations and reaches one within \<open>max_pages\<close>
    steps; \<open>pag_inv\<close> is its invariant, proved by rule induction.
  \<^item> \<open>Json_Value\<close>: the values \<open>json.load\<close> returns (\<open>NaN\<close> and the two
    infinities included; a dict by the items of its text, of which a repeated key
    keeps its last value), and the three operations the deduplication performs on
    them: iterating, subscripting by \<open>'title'\<close>, hashing for a set (where \<open>1\<close>,
    \<open>True\<close> and \<open>1.0\<close> are one key).
  \<^item> \<open>Dedup\<close>: the loop of \<open>remove_repetitions\<close> (\<open>data_parser.py\<close>, lines 7 to
    14) as \<open>unique_loop\<close> and \<open>unique_posts_of\<close>. \<open>unique_loop_eq\<close> relates the
    loop, for every set of seen titles and every list of kept entries, to
    \<open>first_by title_key\<close>; the properties of the result are those of \<open>first_by\<close>.
  \<^item> \<open>Dedup_File\<close>: \<open>remove_repetitions\<close> as a whole (lines 3 to 17): read the
    file, load, loop, open for writing, dump. The decoder \<open>json.load\<close> is a
    parameter (\<open>json_lib\<close>). Properties: what the file holds afterwards, that a
    call that raises leaves the file alone, that a second run changes nothing.
  \<^item> \<open>Json_Text\<close>: the text \<open>json.dump(obj, file, indent=4)\<close> writes (\<open>dumps\<close>),
    with the escaping of strings; the text of a value without floats is printable
    ASCII and newlines.
  \<^item> \<open>Orchestrator\<close>: \<open>main\<close> (lines 139 to 161) with the body of its loop
    \<open>main_topic\<close>, the documents it writes (\<open>topic_document\<close>, \<open>post_json\<close>) and
    the pure reference \<open>topic_runs\<close>, \<open>main_outcome\<close>, \<open>main_events\<close>.
    \<open>main_apply\<close> is the refinement. Properties: the content of the output file
    after a run that returns, that this content ends with a bracket it never
    opened, what a failing listing or topic leaves behind, the request bound, politeness of the
    whole crawl, and that only ASCII is written.
  \<^item> This theory: the documents of \<open>main\<close> under \<open>remove_repetitions\<close>.

  \<^bold>\<open>Correspondence.\<close> A Python function is a definition of the same name whose
  arguments are the function's parameters, preceded by the libraries \<open>L\<close>. A local
  variable is a \<open>let\<close>; a loop variable is an argument of the loop function. A
  \<open>for\<close> loop that appends one record per element is a \<open>map\<close> when its body
  cannot raise and \<open>collect\<close> when it can. A \<open>while\<close> loop is
  a \<^theory_text>\<open>function\<close> with a termination proof. A raised exception is the
  result \<open>Inl e\<close>; nothing in the sources catches one, so \<open>bind\<close> propagates it.

  \<^bold>\<open>Choices.\<close> Integers are \<open>int\<close> (Python's do not overflow). The delay is a
  \<open>rat\<close>; the default \<open>0.1\<close> is one tenth. Strings are lists of characters with
  code points below 256. No fuel is used anywhere: both loops terminate by
  the measure \<open>max_pages - pages_scraped\<close>, the step count of the machine is
  bounded by \<open>nat max_pages\<close>, and the loop of \<open>main\<close> is structural in the list
  of topics. The site may answer every request differently (the
  oracle takes the number of the request), so the theorems hold for sites that
  change during the crawl.

  \<^bold>\<open>Assumptions.\<close> The theorems hold for every implementation of \<open>libs\<close>, and
  this is what the type of \<open>libs\<close> assumes of the libraries. The parser
  returns a document or rejects the text (\<open>ParserRejectedMarkup\<close>, line 19). URL
  resolution returns a string or raises \<open>ValueError\<close>, and nothing else.
  \<open>select\<close> and \<open>select_one\<close> with the fixed selectors of the sources, the strings
  of a tag and \<open>Tag.get\<close> return a value for every argument: an exception of theirs
  is not a behaviour of the model (lines 30, 40, 58, 64 to 76, 89). A
  \<open>write\<close> to an open file and \<open>print\<close> do not fail, and what a \<open>with\<close> block
  writes is in the file when the block is left: a crash between two writes is
  not a behaviour of the model, so "no effect" in a theorem about a raising call
  means no effect of the calls the model has. What \<open>requests.get\<close> yields for
  a URL is the oracle's answer, also when \<open>requests\<close> refuses the URL before it
  sends anything; \<open>url_refused\<close> tells these answers from the others, and a
  refused call leaves no request in the trace.

  \<^bold>\<open>What the properties show that the documentation does not say.\<close> A failing
  page makes the whole call raise and loses the records of the earlier pages;
  the loop sleeps after the last page as well, which is what makes consecutive
  crawls polite; a status outside 400 to 599 counts as success; a next anchor
  without \<open>href\<close> continues the crawl at \<open>BASE_URL\<close>; a link that \<open>urljoin\<close>
  rejects makes the extractor raise after a successful fetch, and ends the crawl;
  a negative delay raises after the first page; titles that are numbers are
  compared as numbers; a failing topic ends \<open>main\<close>, and the file \<open>main\<close> writes
  has a closing bracket without an opening one.

  \<^bold>\<open>Not modelled.\<close> The HTTP transport, HTML parsing, CSS matching and URL
  resolution are parameters (\<open>web\<close>, \<open>libs\<close>). Characters are code points below
  256: a text with other characters is not a value of the model, and what the
  theorems say of the written text (\<open>dumps\<close>, \<open>encode_str\<close>) is proved for these
  characters only. The unused assignment of line 147 and the two
  \<open>__main__\<close> blocks have no counterpart. The decoder \<open>json.load\<close> is
  not defined: \<open>remove_repetitions\<close> takes it as a parameter, and the one theorem
  that needs it to read back what was written says so. A parser of JSON text, and
  with it the statement that what \<open>main\<close> wrote cannot be loaded, is left to do.
\<close>

section \<open>The crawler's documents under deduplication\<close>

lemma title_key_topic_document [simp]: "title_key (topic_document t posts) = Inr (KStr t)"
  by (simp add: topic_document_def title_key_def)

lemma collect_title_key_documents:
  "collect title_key (map (\<lambda>d. topic_document (fst d) (snd d)) docs) =
     Inr (map (\<lambda>d. KStr (fst d)) docs)"
  by (induction docs) simp_all

text \<open>
  C22 (functional). On the documents \<open>main\<close> hands to \<open>json.dump\<close>, collected in a
  list, \<open>remove_repetitions\<close> does not raise and keeps, for every topic title, the
  document of the first topic with that title, in crawl order.
\<close>

theorem crawl_documents_dedup:
  "unique_posts_of (JArr (map (\<lambda>d. topic_document (fst d) (snd d)) docs)) =
     Inr (map (\<lambda>d. topic_document (fst d) (snd d)) (first_by fst docs))"
proof -
  have "inj (\<lambda>t. Inr (KStr t) :: exn + pykey)"
    by (simp add: inj_def)
  then have "first_by (\<lambda>d. Inr (KStr (fst d)) :: exn + pykey) docs = first_by fst docs"
    by (rule first_by_inj_key)
  then show ?thesis
    by (simp add: unique_loop_reference collect_title_key_documents first_by_map)
qed

end
